(* ===== verification/Kernel_Prelude.thy ===== *)
theory Kernel_Prelude
  imports Main "HOL-Library.Word" "HOL-Library.State_Monad"
begin

text \<open>
  What every driver of the repository shares: the integer types and error numbers of the kernel headers, error
  pointers, the C conversion from \<open>long\<close> to \<open>int\<close>, the outcome of a call that may sleep, overwriting a stretch of a
  buffer, and decimal output. Kernel calls and the resource ledger are in \<open>Kernel_World\<close>.
\<close>

unbundle bit_operations_syntax

section \<open>Types and error numbers\<close>

type_synonym u8 = "8 word"
type_synonym u16 = "16 word"
type_synonym u32 = "32 word"
type_synonym u64 = "64 word"
type_synonym byte = "8 word"
type_synonym dev_t = "32 word"

abbreviation (input) EPERM :: int where "EPERM \<equiv> 1"
abbreviation (input) EIO :: int where "EIO \<equiv> 5"
abbreviation (input) ENOMEM :: int where "ENOMEM \<equiv> 12"
abbreviation (input) EFAULT :: int where "EFAULT \<equiv> 14"
abbreviation (input) ENODEV :: int where "ENODEV \<equiv> 19"
abbreviation (input) EINVAL :: int where "EINVAL \<equiv> 22"
abbreviation (input) EMFILE :: int where "EMFILE \<equiv> 24"
abbreviation (input) ENOTTY :: int where "ENOTTY \<equiv> 25"
abbreviation (input) ERESTARTSYS :: int where "ERESTARTSYS \<equiv> 512"

text \<open>
  A kernel pointer that encodes an error is one of the last 4095 values of the address space.
  Pointers are read as signed machine words here, so \<open>NULL\<close> is 0 and an error pointer is its own
  (negative) error number.
\<close>

definition IS_ERR :: "int \<Rightarrow> bool" where
  "IS_ERR p \<longleftrightarrow> - 4095 \<le> p \<and> p < 0"

definition PTR_ERR :: "int \<Rightarrow> int" where
  "PTR_ERR p = p"

lemma IS_ERR_nonzero [simp]: "IS_ERR p \<Longrightarrow> p \<noteq> 0"
  by (simp add: IS_ERR_def)

lemma IS_ERR_negative: "IS_ERR p \<Longrightarrow> p < 0"
  by (simp add: IS_ERR_def)

lemma IS_ERR_NULL [simp]: "\<not> IS_ERR 0"
  by (simp add: IS_ERR_def)

text \<open>Assigning a \<open>long\<close> to an \<open>int\<close> keeps the low 32 bits, read as two's complement.\<close>

definition to_s32 :: "int \<Rightarrow> int" where
  "to_s32 x = sint (word_of_int x :: 32 word)"

lemma to_s32_id: "- (2 ^ 31) \<le> x \<Longrightarrow> x < 2 ^ 31 \<Longrightarrow> to_s32 x = x"
  by (simp add: to_s32_def sint_sbintrunc' signed_take_bit_int_eq_self)

lemma to_s32_range: "- (2 ^ 31) \<le> to_s32 x \<and> to_s32 x < 2 ^ 31"
  using sint_ge [of "word_of_int x :: 32 word"] sint_lt [of "word_of_int x :: 32 word"]
  by (simp add: to_s32_def)

lemma to_s32_eq_iff: "to_s32 x = to_s32 y \<longleftrightarrow> x mod 2 ^ 32 = y mod 2 ^ 32"
  unfolding to_s32_def word_eq_iff_signed [symmetric] word_of_int_eq_iff by (simp add: take_bit_eq_mod)

text \<open>
  A system call either returns a value (with the state it leaves) or sleeps with nobody left to
  wake it, in the state it sleeps in.
\<close>

datatype ('a, 's) outcome = Ret 'a 's | Blocked 's

fun state_of :: "('a, 's) outcome \<Rightarrow> 's" where
  "state_of (Ret r s) = s"
| "state_of (Blocked s) = s"

fun returned :: "('a, 's) outcome \<Rightarrow> 'a option" where
  "returned (Ret r s) = Some r"
| "returned (Blocked s) = None"

section \<open>Generic list lemmas\<close>

lemma take_min_length [simp]: "take (min (length xs) n) xs = take n xs"
  by (simp add: min_def)

text \<open>Overwriting a stretch of a list, which is what \<open>memcpy\<close> into a buffer does.\<close>

definition overwrite :: "nat \<Rightarrow> 'a list \<Rightarrow> 'a list \<Rightarrow> 'a list" where
  "overwrite i ys xs = take i xs @ ys @ drop (i + length ys) xs"

lemma length_overwrite [simp]: "i + length ys \<le> length xs \<Longrightarrow> length (overwrite i ys xs) = length xs"
  by (simp add: overwrite_def)

lemma overwrite_Nil [simp]: "overwrite i [] xs = xs"
  by (simp add: overwrite_def)

lemma take_drop_overwrite [simp]:
  "i + length ys \<le> length xs \<Longrightarrow> take (length ys) (drop i (overwrite i ys xs)) = ys"
  by (simp add: overwrite_def)

lemma nth_overwrite:
  "i + length ys \<le> length xs \<Longrightarrow> k < length xs \<Longrightarrow>
     overwrite i ys xs ! k = (if i \<le> k \<and> k < i + length ys then ys ! (k - i) else xs ! k)"
  by (auto simp: overwrite_def nth_append min_def)

lemma overwrite_append:
  "i + length ys + length zs \<le> length xs \<Longrightarrow>
     overwrite (i + length ys) zs (overwrite i ys xs) = overwrite i (ys @ zs) xs"
  by (rule nth_equalityI) (auto simp: nth_overwrite nth_append)

section \<open>Decimal output\<close>

text \<open>The conversion \<open>%d\<close> of \<open>sprintf\<close>.\<close>

definition digit :: "nat \<Rightarrow> char" where
  "digit d = char_of (48 + d)"

fun dec_nat :: "nat \<Rightarrow> string" where
  "dec_nat n = (if n < 10 then [digit n] else dec_nat (n div 10) @ [digit (n mod 10)])"

declare dec_nat.simps [simp del]

definition dec :: "int \<Rightarrow> string" where
  "dec x = (if x < 0 then ''-'' @ dec_nat (nat (- x)) else dec_nat (nat x))"

text \<open>Printing is injective, so what is shown determines the number.\<close>

definition digit_val :: "char \<Rightarrow> nat" where
  "digit_val c = of_char c - 48"

definition undec_nat :: "string \<Rightarrow> nat" where
  "undec_nat s = foldl (\<lambda>a c. 10 * a + digit_val c) 0 s"

lemma digit_val_digit [simp]: "d < 10 \<Longrightarrow> digit_val (digit d) = d"
  by (simp add: digit_val_def digit_def)

lemma digit_not_minus: "d < 10 \<Longrightarrow> digit d \<noteq> CHR ''-''"
proof
  assume "d < 10" "digit d = CHR ''-''"
  then have "(of_char (digit d) :: nat) = of_char (CHR ''-'')" by simp
  with \<open>d < 10\<close> show False by (simp add: digit_def)
qed

lemma undec_dec_nat: "undec_nat (dec_nat n) = n"
proof (induction n rule: dec_nat.induct)
  case (1 n)
  show ?case
  proof (cases "n < 10")
    case True
    then show ?thesis by (simp add: dec_nat.simps undec_nat_def)
  next
    case False
    with 1 have "undec_nat (dec_nat (n div 10)) = n div 10" by simp
    then have "undec_nat (dec_nat (n div 10) @ [digit (n mod 10)]) = 10 * (n div 10) + n mod 10"
      by (simp add: undec_nat_def)
    with False show ?thesis by (subst dec_nat.simps) simp
  qed
qed

lemma dec_nat_no_minus: "CHR ''-'' \<notin> set (dec_nat n)"
proof (induction n rule: dec_nat.induct)
  case (1 n)
  then show ?case
    using digit_not_minus [of n] digit_not_minus [of "n mod 10"]
    by (subst dec_nat.simps) auto
qed

lemma dec_inject: "dec x = dec y \<Longrightarrow> x = y"
proof -
  assume eq: "dec x = dec y"
  have nat_eq: "m = n" if "dec_nat m = dec_nat n" for m n
    using that undec_dec_nat by metis
  have "x < 0 \<longleftrightarrow> y < 0"
    using eq dec_nat_no_minus [of "nat x"] dec_nat_no_minus [of "nat y"]
    by (cases "x < 0"; cases "y < 0") (auto simp: dec_def dest: sym)
  with eq show ?thesis
    by (auto simp: dec_def dest!: nat_eq split: if_splits)
qed

lemma dec_eq_iff [simp]: "dec x = dec y \<longleftrightarrow> x = y"
  using dec_inject by blast

text \<open>A number of \<open>n\<close> digits prints in \<open>n\<close> characters and a sign; an \<open>int\<close> takes at most eleven.\<close>

lemma length_dec_nat: "0 < k \<Longrightarrow> n < 10 ^ k \<Longrightarrow> length (dec_nat n) \<le> k"
proof (induction k arbitrary: n)
  case (Suc k)
  have q: "n div 10 < 10 ^ k" using Suc.prems(2) by (simp add: less_mult_imp_div_less mult.commute)
  show ?case
  proof (cases "n < 10")
    case False
    then have "0 < k" using Suc.prems(2) by (cases k) auto
    with Suc.IH [OF _ q] False show ?thesis by (subst dec_nat.simps) simp
  qed (simp add: dec_nat.simps)
qed simp

definition c_int :: "int \<Rightarrow> bool" where
  "c_int x \<longleftrightarrow> - (2 ^ 31) \<le> x \<and> x < 2 ^ 31"

lemma c_int_to_s32 [simp]: "c_int (to_s32 x)"
  using to_s32_range [of x] by (simp add: c_int_def)

lemma length_dec_bound: "\<bar>x\<bar> < 10 ^ 10 \<Longrightarrow> length (dec x) \<le> (if x < 0 then 11 else 10)"
  using length_dec_nat [of 10 "nat \<bar>x\<bar>"] by (auto simp: dec_def nat_less_iff)

lemma length_dec_c_int: "c_int x \<Longrightarrow> length (dec x) \<le> 11"
proof -
  assume "c_int x"
  then have "\<bar>x\<bar> < 10 ^ 10" by (simp add: c_int_def abs_less_iff)
  from length_dec_bound [OF this] show ?thesis by (simp split: if_splits)
qed

lemma length_dec_u32: "length (dec (uint (w :: 32 word))) \<le> 10"
proof -
  have "uint w < 2 ^ 32" using uint_lt2p [of w] by simp
  then show ?thesis using length_dec_bound [of "uint w"] by simp
qed

end
