(* ===== verification/Kernel_World.thy ===== *)
theory Kernel_World
  imports Kernel_Prelude
begin

text \<open>
  The kernel as the drivers see it. A call is \<open>Get r\<close> (it acquires the resource \<open>r\<close> when it
  succeeds), \<open>Put r\<close> (it gives \<open>r\<close> back) or \<open>Do\<close> (anything else). A world answers the \<open>n\<close>-th call
  of a run through \<open>kres n\<close> (and \<open>kout n\<close> for an output parameter) and keeps the log of calls and
  answers. Both functions are parameters: every theorem over a world holds for every behaviour
  of the kernel.

  The resource ledger reads a log: it says which resources are held after it, or \<open>None\<close> when
  something was given back that was not held, or acquired twice.
\<close>

section \<open>Calls, worlds and programs\<close>

datatype 'r kcall =
    Get 'r "int list"
  | Put 'r
  | Do string "int list"

record 'r kworld =
  kres :: "nat \<Rightarrow> 'r kcall \<Rightarrow> int"
  kout :: "nat \<Rightarrow> 'r kcall \<Rightarrow> int"
  ktrace :: "('r kcall \<times> int) list"

abbreviation return :: "'a \<Rightarrow> ('s, 'a) state" where
  "return \<equiv> State_Monad.return"

definition call :: "'r kcall \<Rightarrow> (('r, 'z) kworld_scheme, int) state" where
  "call c = State (\<lambda>w. let v = kres w (length (ktrace w)) c
                       in (v, w\<lparr>ktrace := ktrace w @ [(c, v)]\<rparr>))"

definition call_out :: "'r kcall \<Rightarrow> (('r, 'z) kworld_scheme, int \<times> int) state" where
  "call_out c = State (\<lambda>w. let n = length (ktrace w); v = kres w n c
                           in ((v, kout w n c), w\<lparr>ktrace := ktrace w @ [(c, v)]\<rparr>))"

definition gets :: "('s \<Rightarrow> 'a) \<Rightarrow> ('s, 'a) state" where
  "gets f = State (\<lambda>s. (f s, s))"

definition modify :: "('s \<Rightarrow> 's) \<Rightarrow> ('s, unit) state" where
  "modify f = State (\<lambda>s. ((), f s))"

definition result :: "('s, 'a) state \<Rightarrow> 's \<Rightarrow> 'a" where
  "result m s = fst (run_state m s)"

definition exec :: "('s, 'a) state \<Rightarrow> 's \<Rightarrow> 's" where
  "exec m s = snd (run_state m s)"

named_theorems ledger_eval \<open>unfolding a run into its log and the log into what is held\<close>

lemma run_state_call [simp]:
  "run_state (call c) w =
     (kres w (length (ktrace w)) c,
      w\<lparr>ktrace := ktrace w @ [(c, kres w (length (ktrace w)) c)]\<rparr>)"
  by (simp add: call_def Let_def)

lemma run_state_call_out [simp]:
  "run_state (call_out c) w =
     ((kres w (length (ktrace w)) c, kout w (length (ktrace w)) c),
      w\<lparr>ktrace := ktrace w @ [(c, kres w (length (ktrace w)) c)]\<rparr>)"
  by (simp add: call_out_def Let_def)

lemma run_state_gets [simp]: "run_state (gets f) s = (f s, s)"
  by (simp add: gets_def)

lemma run_state_modify [simp]: "run_state (modify f) s = ((), f s)"
  by (simp add: modify_def)

lemma run_state_if [simp]:
  "run_state (if b then m else n) s = (if b then run_state m s else run_state n s)"
  by simp

section \<open>The resource ledger\<close>

text \<open>
  How a call reports success differs per resource (zero, a non-negative number, a pointer that
  is not \<open>NULL\<close>, a pointer that is no error pointer), and some releases are documented to ignore
  a resource that is not there (\<open>kfree(NULL)\<close>). A convention says both.
\<close>

record 'r convention =
  won :: "'r \<Rightarrow> int \<Rightarrow> bool"
  lax :: "'r \<Rightarrow> bool"

fun lstep :: "('r, 'y) convention_scheme \<Rightarrow> 'r list option \<Rightarrow> 'r kcall \<times> int \<Rightarrow> 'r list option" where
  "lstep c None e = None"
| "lstep c (Some H) (Get r as, v) =
     (if won c r v then (if r \<in> set H then None else Some (H @ [r])) else Some H)"
| "lstep c (Some H) (Put r, v) =
     (if r \<in> set H then Some (remove1 r H) else if lax c r then Some H else None)"
| "lstep c (Some H) (Do f as, v) = Some H"

definition ledger :: "('r, 'y) convention_scheme \<Rightarrow> ('r kcall \<times> int) list \<Rightarrow> 'r list option" where
  "ledger c log = foldl (lstep c) (Some []) log"

definition held :: "('r, 'y) convention_scheme \<Rightarrow> ('r, 'z) kworld_scheme \<Rightarrow> 'r list option" where
  "held c w = ledger c (ktrace w)"

declare held_def [ledger_eval] ledger_def [ledger_eval] exec_def [ledger_eval]

text \<open>The acquisitions of a log that failed, in order.\<close>

fun failures :: "('r, 'y) convention_scheme \<Rightarrow> ('r kcall \<times> int) list \<Rightarrow> 'r list" where
  "failures c [] = []"
| "failures c ((Get r as, v) # log) = (if won c r v then failures c log else r # failures c log)"
| "failures c ((Put r, v) # log) = failures c log"
| "failures c ((Do f as, v) # log) = failures c log"

lemma ledger_Nil [simp]: "ledger c [] = Some []"
  by (simp add: ledger_def)

lemma ledger_snoc [simp]: "ledger c (log @ [e]) = lstep c (ledger c log) e"
  by (simp add: ledger_def)

lemma ledger_append: "ledger c (log @ log') = foldl (lstep c) (ledger c log) log'"
  by (simp add: ledger_def)

lemma foldl_lstep_None [simp]: "foldl (lstep c) None log = None"
  by (induction log) auto

text \<open>Once the ledger is broken it stays broken: a release of something not held is never undone.\<close>

lemma ledger_prefix: "ledger c (log @ log') = Some H \<Longrightarrow> \<exists>H'. ledger c log = Some H'"
  by (cases "ledger c log") (auto simp: ledger_append)

text \<open>The ledger never lists a resource twice.\<close>

lemma lstep_distinct:
  "lstep c (Some H) e = Some H' \<Longrightarrow> distinct H \<Longrightarrow> distinct H'"
  by (cases e; cases "fst e") (auto split: if_splits)

lemma ledger_distinct: "ledger c log = Some H \<Longrightarrow> distinct H"
proof (induction log arbitrary: H rule: rev_induct)
  case Nil
  then show ?case by simp
next
  case (snoc e log)
  then obtain H0 where "ledger c log = Some H0"
    using ledger_prefix by fastforce
  with snoc show ?case by (auto intro: lstep_distinct)
qed

section \<open>Character-device resources\<close>

text \<open>
  The resources the character drivers acquire, and the conventions of the calls that acquire
  them: \<open>kmalloc\<close> and \<open>proc_create\<close> return \<open>NULL\<close> on failure, \<open>class_create\<close>, \<open>device_create\<close>
  and \<open>debugfs_create_dir\<close> an error pointer, \<open>alloc_chrdev_region\<close> a negative number, the others a
  non-zero number. Removing a \<open>/proc\<close> entry, a debugfs directory, a kfifo or \<open>kfree\<close>d memory that
  is not there is documented to do nothing; the other releases need their object.
\<close>

datatype chr_res =
    Priv_mem string
  | Chrdev_region
  | Dev_class
  | Dev_node dev_t
  | Char_dev nat
  | Fifo nat
  | Proc_file string
  | Debug_dir string
  | Sysfs_group nat

fun chr_won :: "chr_res \<Rightarrow> int \<Rightarrow> bool" where
  "chr_won (Priv_mem s) v = (v \<noteq> 0)"
| "chr_won Chrdev_region v = (0 \<le> v)"
| "chr_won Dev_class v = (\<not> IS_ERR v)"
| "chr_won (Dev_node d) v = (\<not> IS_ERR v)"
| "chr_won (Char_dev i) v = (v = 0)"
| "chr_won (Fifo i) v = (v = 0)"
| "chr_won (Proc_file s) v = (v \<noteq> 0)"
| "chr_won (Debug_dir s) v = (\<not> IS_ERR v \<and> v \<noteq> 0)"
| "chr_won (Sysfs_group i) v = (v = 0)"

fun chr_lax :: "chr_res \<Rightarrow> bool" where
  "chr_lax (Priv_mem s) = True"
| "chr_lax (Fifo i) = True"
| "chr_lax (Proc_file s) = True"
| "chr_lax (Debug_dir s) = True"
| "chr_lax r = False"

definition chr_conv :: "chr_res convention" where
  "chr_conv = \<lparr>won = chr_won, lax = chr_lax\<rparr>"

lemma chr_conv_simps [simp]: "won chr_conv = chr_won" "lax chr_conv = chr_lax"
  by (simp_all add: chr_conv_def)

text \<open>The kernel calls of the character drivers, by their C names.\<close>

abbreviation kmalloc :: "string \<Rightarrow> ((chr_res, 'z) kworld_scheme, int) state" where
  "kmalloc s \<equiv> call (Get (Priv_mem s) [])"
abbreviation kfree :: "string \<Rightarrow> ((chr_res, 'z) kworld_scheme, int) state" where
  "kfree s \<equiv> call (Put (Priv_mem s))"
abbreviation alloc_chrdev_region :: "int \<Rightarrow> int \<Rightarrow> ((chr_res, 'z) kworld_scheme, int \<times> int) state" where
  "alloc_chrdev_region base cnt \<equiv> call_out (Get Chrdev_region [base, cnt])"
abbreviation unregister_chrdev_region :: "((chr_res, 'z) kworld_scheme, int) state" where
  "unregister_chrdev_region \<equiv> call (Put Chrdev_region)"
abbreviation class_create :: "((chr_res, 'z) kworld_scheme, int) state" where
  "class_create \<equiv> call (Get Dev_class [])"
abbreviation class_destroy :: "((chr_res, 'z) kworld_scheme, int) state" where
  "class_destroy \<equiv> call (Put Dev_class)"
abbreviation device_create :: "dev_t \<Rightarrow> ((chr_res, 'z) kworld_scheme, int) state" where
  "device_create d \<equiv> call (Get (Dev_node d) [])"
abbreviation device_destroy :: "dev_t \<Rightarrow> ((chr_res, 'z) kworld_scheme, int) state" where
  "device_destroy d \<equiv> call (Put (Dev_node d))"
abbreviation cdev_init :: "nat \<Rightarrow> ((chr_res, 'z) kworld_scheme, int) state" where
  "cdev_init i \<equiv> call (Do ''cdev_init'' [int i])"
abbreviation cdev_add :: "nat \<Rightarrow> dev_t \<Rightarrow> ((chr_res, 'z) kworld_scheme, int) state" where
  "cdev_add i d \<equiv> call (Get (Char_dev i) [uint d, 1])"
abbreviation cdev_del :: "nat \<Rightarrow> ((chr_res, 'z) kworld_scheme, int) state" where
  "cdev_del i \<equiv> call (Put (Char_dev i))"
abbreviation kfifo_alloc :: "nat \<Rightarrow> int \<Rightarrow> ((chr_res, 'z) kworld_scheme, int) state" where
  "kfifo_alloc i sz \<equiv> call (Get (Fifo i) [sz])"
abbreviation kfifo_free :: "nat \<Rightarrow> ((chr_res, 'z) kworld_scheme, int) state" where
  "kfifo_free i \<equiv> call (Put (Fifo i))"

end
