(* ===== verification/Kfifo.thy ===== *)
theory Kfifo
  imports Kernel_World
begin

text \<open>
  The kernel's byte FIFO (\<open>linux/kfifo.h\<close>) as the six drivers over a FIFO use it. The drivers take
  the operations as a parameter, a \<open>kfifo_api\<close>; the locale \<open>kfifo_contract\<close> states what the
  kernel documents about them (and what the comments in \<open>kernelnewbies.c\<close> repeat). The locale
  \<open>byte_pipe\<close> is the contract a driver built on a kfifo offers to user space: its write and read
  calls refine a bounded pipe of bytes.

  A concrete provider of the contract is in \<open>Kfifo_Ring\<close>; it shows that the contract can be met, and is what
  the witnesses run on.

  A user buffer is the list of its accessible bytes: copying beyond it faults.
\<close>

section \<open>The kfifo interface\<close>

record 'f kfifo_api =
  kf_zero :: 'f
  kf_make :: "int \<Rightarrow> 'f"
  kf_from_user :: "'f \<Rightarrow> byte list \<Rightarrow> nat \<Rightarrow> int \<times> nat \<times> 'f"
  kf_to_user :: "'f \<Rightarrow> nat \<Rightarrow> nat \<Rightarrow> int \<times> byte list \<times> 'f"
  kf_avail :: "'f \<Rightarrow> nat"

text \<open>
  \<open>kf_zero\<close> is the \<open>struct kfifo\<close> of zeroed memory, about which nothing is assumed;
  \<open>kf_make size\<close> is the FIFO left by a successful \<open>kfifo_alloc\<close>.
  \<open>kf_from_user f ub len\<close> is \<open>kfifo_from_user(fifo, from, len, copied)\<close> on the user buffer \<open>ub\<close>:
  the return value, the number of bytes copied and the FIFO afterwards.
  \<open>kf_to_user f room len\<close> is \<open>kfifo_to_user(fifo, to, len, copied)\<close> into a user buffer of
  \<open>room\<close> accessible bytes: the return value, the bytes stored there and the FIFO afterwards.
\<close>

locale kfifo_contract =
  fixes K :: "'f kfifo_api"
    and content :: "'f \<Rightarrow> byte list"
    and cap :: "'f \<Rightarrow> nat"
    and fok :: "'f \<Rightarrow> bool"
  assumes make: "2 \<le> sz \<Longrightarrow> sz \<le> 2 ^ 31 \<Longrightarrow>
      fok (kf_make K sz) \<and> content (kf_make K sz) = [] \<and> nat sz \<le> cap (kf_make K sz)"
    and bounded: "fok f \<Longrightarrow> length (content f) \<le> cap f"
    and cap_bound: "fok f \<Longrightarrow> cap f < 2 ^ 32"
    and avail: "fok f \<Longrightarrow> kf_avail K f = cap f - length (content f)"
    and from_user: "fok f \<Longrightarrow> min len (cap f - length (content f)) \<le> length ub \<Longrightarrow>
      \<exists>f'. kf_from_user K f ub len = (0, min len (cap f - length (content f)), f') \<and>
        fok f' \<and> cap f' = cap f \<and>
        content f' = content f @ take (min len (cap f - length (content f))) ub"
    and from_user_fault: "fok f \<Longrightarrow> length ub < min len (cap f - length (content f)) \<Longrightarrow>
      \<exists>c f'. kf_from_user K f ub len = (- EFAULT, c, f') \<and> c \<le> length ub \<and>
        fok f' \<and> cap f' = cap f \<and> content f' = content f @ take c ub"
    and to_user: "fok f \<Longrightarrow> min len (length (content f)) \<le> room \<Longrightarrow>
      \<exists>f'. kf_to_user K f room len = (0, take len (content f), f') \<and>
        fok f' \<and> cap f' = cap f \<and> content f' = drop len (content f)"
    and to_user_fault: "fok f \<Longrightarrow> room < min len (length (content f)) \<Longrightarrow>
      \<exists>c f'. kf_to_user K f room len = (- EFAULT, take c (content f), f') \<and> c \<le> room \<and>
        fok f' \<and> cap f' = cap f \<and> content f' = drop c (content f)"
begin

lemma from_user_cases:
  assumes "fok f" and "kf_from_user K f ub len = (r, c, f')"
  shows "fok f' \<and> cap f' = cap f \<and> content f' = content f @ take c ub \<and> c \<le> length ub \<and>
    (r = 0 \<and> c = min len (cap f - length (content f)) \<or>
     r = - EFAULT \<and> length ub < min len (cap f - length (content f)))"
proof (cases "min len (cap f - length (content f)) \<le> length ub")
  case True
  from from_user [OF assms(1) True] assms(2) True show ?thesis by auto
next
  case False
  then have "length ub < min len (cap f - length (content f))" by (simp only: not_le)
  from from_user_fault [OF assms(1) this] assms(2) this show ?thesis by auto
qed

lemma to_user_cases:
  assumes "fok f" and "kf_to_user K f room len = (r, out, f')"
  shows "fok f' \<and> cap f' = cap f \<and>
    (r = 0 \<and> out = take len (content f) \<and> content f' = drop len (content f) \<or>
     r = - EFAULT \<and> room < min len (length (content f)) \<and>
       (\<exists>c\<le>room. out = take c (content f) \<and> content f' = drop c (content f)))"
proof (cases "min len (length (content f)) \<le> room")
  case True
  from to_user [OF assms(1) True] assms(2) show ?thesis by auto
next
  case False
  then have "room < min len (length (content f))" by (simp only: not_le)
  from to_user_fault [OF assms(1) this] assms(2) this show ?thesis by auto
qed

text \<open>A transfer of exactly the bytes of an accessible buffer never faults.\<close>

lemma from_user_exact:
  assumes "fok f"
  shows "\<exists>f'. kf_from_user K f bs (length bs) = (0, min (length bs) (cap f - length (content f)), f') \<and>
    fok f' \<and> cap f' = cap f \<and> content f' = content f @ take (cap f - length (content f)) bs"
  using from_user [OF assms, of "length bs" bs] by simp

lemma to_user_exact:
  assumes "fok f"
  shows "\<exists>f'. kf_to_user K f k k = (0, take k (content f), f') \<and>
    fok f' \<and> cap f' = cap f \<and> content f' = drop k (content f)"
  using to_user [OF assms, of k k] by simp

end

section \<open>A bounded pipe of bytes, and the drivers that implement it\<close>

text \<open>
  The specification of a FIFO device used sequentially: writes append what fits, reads take from
  the front. A run collects what the reads delivered.
\<close>

datatype pipe_op = Write_op "byte list" | Read_op nat

fun spec_step :: "nat \<Rightarrow> pipe_op \<Rightarrow> byte list \<Rightarrow> byte list \<times> byte list" where
  "spec_step n (Write_op bs) q = ([], q @ take (n - length q) bs)"
| "spec_step n (Read_op k) q = (take k q, drop k q)"

fun spec_run :: "nat \<Rightarrow> pipe_op list \<Rightarrow> byte list \<Rightarrow> byte list \<times> byte list" where
  "spec_run n [] q = ([], q)"
| "spec_run n (x # xs) q =
     (case spec_step n x q of (out, q') \<Rightarrow>
        case spec_run n xs q' of (out', q'') \<Rightarrow> (out @ out', q''))"

text \<open>
  A driver's two calls, on a user buffer of exactly the bytes to transfer (a successful call), run
  over a list of operations. A call that sleeps for ever ends the run with \<open>None\<close>.
\<close>

fun pipe_run ::
    "(byte list \<Rightarrow> nat \<Rightarrow> 'd \<Rightarrow> (int, 'd) outcome) \<Rightarrow>
     (nat \<Rightarrow> nat \<Rightarrow> 'd \<Rightarrow> (int \<times> byte list, 'd) outcome) \<Rightarrow>
     pipe_op list \<Rightarrow> 'd \<Rightarrow> (byte list \<times> 'd) option" where
  "pipe_run wr rd [] d = Some ([], d)"
| "pipe_run wr rd (Write_op bs # xs) d =
     (case wr bs (length bs) d of Blocked d' \<Rightarrow> None | Ret r d' \<Rightarrow> pipe_run wr rd xs d')"
| "pipe_run wr rd (Read_op k # xs) d =
     (case rd k k d of Blocked d' \<Rightarrow> None
      | Ret (r, out) d' \<Rightarrow>
          (case pipe_run wr rd xs d' of None \<Rightarrow> None | Some (out', d'') \<Rightarrow> Some (out @ out', d'')))"

text \<open>
  The contract of a driver's calls: neither sleeps when its locks are free, a write appends the bytes
  that fit and a read delivers from the front. \<open>dev_ok\<close> is the driver's invariant.
\<close>

locale byte_pipe =
  fixes wr :: "byte list \<Rightarrow> nat \<Rightarrow> 'd \<Rightarrow> (int, 'd) outcome"
    and rd :: "nat \<Rightarrow> nat \<Rightarrow> 'd \<Rightarrow> (int \<times> byte list, 'd) outcome"
    and queue :: "'d \<Rightarrow> byte list"
    and room :: "'d \<Rightarrow> nat"
    and dev_ok :: "'d \<Rightarrow> bool"
  assumes write_ok: "dev_ok d \<Longrightarrow> \<exists>r d'. wr bs (length bs) d = Ret r d' \<and> dev_ok d' \<and>
      room d' = room d \<and> queue d' = queue d @ take (room d - length (queue d)) bs"
    and read_ok: "dev_ok d \<Longrightarrow> \<exists>d'. rd k k d = Ret (int (length (take k (queue d))), take k (queue d)) d' \<and>
      dev_ok d' \<and> room d' = room d \<and> queue d' = drop k (queue d)"
begin

lemma run_refines_spec:
  "dev_ok d \<Longrightarrow> \<exists>d'. pipe_run wr rd xs d = Some (fst (spec_run (room d) xs (queue d)), d') \<and>
     dev_ok d' \<and> room d' = room d \<and> queue d' = snd (spec_run (room d) xs (queue d))"
proof (induction xs arbitrary: d)
  case Nil
  then show ?case by simp
next
  case (Cons x xs)
  show ?case
  proof (cases x)
    case (Write_op bs)
    from write_ok [OF Cons.prems, of bs] obtain r d1 where 1: "wr bs (length bs) d = Ret r d1"
      "dev_ok d1" "room d1 = room d" "queue d1 = queue d @ take (room d - length (queue d)) bs"
      by blast
    from Cons.IH [OF 1(2)] 1 Write_op show ?thesis by (auto split: prod.splits)
  next
    case (Read_op k)
    from read_ok [OF Cons.prems, of k] obtain d1 where 1:
      "rd k k d = Ret (int (length (take k (queue d))), take k (queue d)) d1"
      "dev_ok d1" "room d1 = room d" "queue d1 = drop k (queue d)"
      by blast
    from Cons.IH [OF 1(2)] 1 Read_op show ?thesis by (auto split: prod.splits)
  qed
qed

end

text \<open>Facts about the specification itself: it is first-in first-out and bounded.\<close>

fun spec_accepted :: "nat \<Rightarrow> pipe_op list \<Rightarrow> byte list \<Rightarrow> byte list" where
  "spec_accepted n [] q = []"
| "spec_accepted n (Write_op bs # xs) q =
     take (n - length q) bs @ spec_accepted n xs (q @ take (n - length q) bs)"
| "spec_accepted n (Read_op k # xs) q = spec_accepted n xs (drop k q)"

lemma spec_run_fifo:
  "spec_run n xs q = (out, q') \<Longrightarrow> out @ q' = q @ spec_accepted n xs q"
proof (induction n xs q arbitrary: out q' rule: spec_accepted.induct)
  case (3 n k xs q)
  from "3.prems" obtain out1 where 1: "spec_run n xs (drop k q) = (out1, q')" "out = take k q @ out1"
    by (auto split: prod.splits)
  from "3.IH" [OF 1(1)] 1(2) show ?case by (simp flip: append_assoc) simp
qed (auto split: prod.splits)

lemma spec_run_bounded:
  "spec_run n xs q = (out, q') \<Longrightarrow> length q \<le> n \<Longrightarrow> length q' \<le> n"
proof (induction n xs q arbitrary: out q' rule: spec_accepted.induct)
  case (2 n bs xs q)
  then have "length (q @ take (n - length q) bs) \<le> n" by simp
  with 2 show ?case by (auto split: prod.splits)
qed (auto split: prod.splits)

end
