(* ===== verification/Kfifo_Ring.thy ===== *)
theory Kfifo_Ring
  imports Kfifo
begin

text \<open>
  A provider of the kfifo contract: a byte ring whose size divides \<open>2 ^ 32\<close>, addressed through two
  free-running 32-bit counters. The drivers' theorems never mention it; their witnesses run on it.
\<close>

record ring =
  rdata :: "byte list"
  rin :: u32
  rout :: u32

definition ring_len :: "ring \<Rightarrow> nat" where
  "ring_len f = unat (rin f - rout f)"

definition ring_cap :: "ring \<Rightarrow> nat" where
  "ring_cap f = length (rdata f)"

definition ring_ok :: "ring \<Rightarrow> bool" where
  "ring_ok f \<longleftrightarrow> ring_cap f dvd 2 ^ 32 \<and> 0 < ring_cap f \<and> ring_cap f < 2 ^ 32 \<and> ring_len f \<le> ring_cap f"

definition ring_at :: "ring \<Rightarrow> nat \<Rightarrow> byte" where
  "ring_at f i = rdata f ! (unat (rout f + of_nat i) mod ring_cap f)"

definition ring_content :: "ring \<Rightarrow> byte list" where
  "ring_content f = map (ring_at f) [0..<ring_len f]"

definition ring_put1 :: "byte \<Rightarrow> ring \<Rightarrow> ring" where
  "ring_put1 b f = f\<lparr>rdata := (rdata f)[unat (rin f) mod ring_cap f := b], rin := rin f + 1\<rparr>"

definition ring_put :: "byte list \<Rightarrow> ring \<Rightarrow> ring" where
  "ring_put bs f = fold ring_put1 bs f"

definition ring_drop :: "nat \<Rightarrow> ring \<Rightarrow> ring" where
  "ring_drop k f = f\<lparr>rout := rout f + of_nat k\<rparr>"

primrec round_pow2 :: "nat \<Rightarrow> nat \<Rightarrow> nat" where
  "round_pow2 0 s = 1"
| "round_pow2 (Suc e) s = (if s \<le> 2 ^ e then round_pow2 e s else 2 ^ Suc e)"

definition ring_make :: "int \<Rightarrow> ring" where
  "ring_make sz = \<lparr>rdata = replicate (round_pow2 31 (nat sz)) 0, rin = 0, rout = 0\<rparr>"

definition ring_from_user :: "ring \<Rightarrow> byte list \<Rightarrow> nat \<Rightarrow> int \<times> nat \<times> ring" where
  "ring_from_user f ub len =
     (let n = min len (ring_cap f - ring_len f)
      in if n \<le> length ub then (0, n, ring_put (take n ub) f)
         else (- EFAULT, length ub, ring_put ub f))"

definition ring_to_user :: "ring \<Rightarrow> nat \<Rightarrow> nat \<Rightarrow> int \<times> byte list \<times> ring" where
  "ring_to_user f room len =
     (let n = min len (ring_len f)
      in if n \<le> room then (0, take n (ring_content f), ring_drop n f)
         else (- EFAULT, take room (ring_content f), ring_drop room f))"

definition ring_api :: "ring kfifo_api" where
  "ring_api = \<lparr>kf_zero = \<lparr>rdata = [], rin = 0, rout = 0\<rparr>, kf_make = ring_make, kf_from_user = ring_from_user, kf_to_user = ring_to_user,
     kf_avail = (\<lambda>f. ring_cap f - ring_len f)\<rparr>"

lemma ring_api_simps [simp]:
  "kf_make ring_api = ring_make" "kf_from_user ring_api = ring_from_user"
  "kf_to_user ring_api = ring_to_user" "kf_avail ring_api f = ring_cap f - ring_len f"
  by (simp_all add: ring_api_def)

section \<open>Index arithmetic\<close>

lemma ring_slot:
  assumes "n dvd 2 ^ 32"
  shows "unat (a + of_nat i :: u32) mod n = (unat a + i) mod n"
proof -
  have "unat (a + of_nat i :: u32) = (unat a + i) mod 2 ^ 32"
    by (simp add: unat_word_ariths unat_of_nat mod_add_right_eq)
  with assms show ?thesis by (simp add: mod_mod_cancel)
qed

lemma slots_distinct:
  assumes "i < l" "l < (n::nat)"
  shows "(a + i) mod n \<noteq> (a + l) mod n"
proof
  assume "(a + i) mod n = (a + l) mod n"
  then have "n dvd l - i" using assms mod_eq_dvd_iff_nat [of "a + i" "a + l" n] by simp
  with assms show False by (auto dest: dvd_imp_le)
qed

lemma ring_in_slot: "rin f = rout f + of_nat (ring_len f)"
  by (simp add: ring_len_def)

lemma ring_len_put1:
  assumes "ring_ok f" "ring_len f < ring_cap f"
  shows "ring_len (ring_put1 b f) = Suc (ring_len f)"
proof -
  have lt: "Suc (ring_len f) < 2 ^ 32" using assms by (simp add: ring_ok_def)
  have "unat ((rin f - rout f) + 1) = (ring_len f + 1) mod 2 ^ 32"
    by (simp add: ring_len_def unat_word_ariths)
  with lt show ?thesis by (simp add: ring_len_def ring_put1_def algebra_simps)
qed

lemma ring_cap_put1 [simp]: "ring_cap (ring_put1 b f) = ring_cap f"
  by (simp add: ring_cap_def ring_put1_def)

lemma ring_content_put1:
  assumes "ring_ok f" "ring_len f < ring_cap f"
  shows "ring_content (ring_put1 b f) = ring_content f @ [b]"
proof -
  let ?n = "ring_cap f" and ?l = "ring_len f" and ?a = "unat (rout f)"
  have dv: "?n dvd 2 ^ 32" and pos: "0 < ?n" using assms(1) by (auto simp: ring_ok_def)
  have slot: "unat (rin f) mod ?n = (?a + ?l) mod ?n"
    by (subst ring_in_slot) (rule ring_slot [OF dv])
  have old: "ring_at (ring_put1 b f) i = ring_at f i" if "i < ?l" for i
    using slots_distinct [OF that assms(2), of ?a] slot pos
    by (simp add: ring_at_def ring_slot [OF dv]) (simp add: ring_put1_def ring_slot [OF dv])
  have new: "ring_at (ring_put1 b f) ?l = b"
    using slot pos
    by (simp add: ring_at_def ring_slot [OF dv]) (simp add: ring_put1_def ring_slot [OF dv] ring_cap_def)
  show ?thesis
    using old new by (simp add: ring_content_def ring_len_put1 [OF assms])
qed

lemma ring_ok_put1: "ring_ok f \<Longrightarrow> ring_len f < ring_cap f \<Longrightarrow> ring_ok (ring_put1 b f)"
  by (simp add: ring_ok_def ring_len_put1)

lemma ring_put_spec:
  "ring_ok f \<Longrightarrow> ring_len f + length bs \<le> ring_cap f \<Longrightarrow>
     ring_ok (ring_put bs f) \<and> ring_cap (ring_put bs f) = ring_cap f \<and>
     ring_content (ring_put bs f) = ring_content f @ bs"
proof (induction bs arbitrary: f)
  case Nil
  then show ?case by (simp add: ring_put_def)
next
  case (Cons b bs)
  then have lt: "ring_len f < ring_cap f" by simp
  from Cons.IH [OF ring_ok_put1 [OF Cons.prems(1) lt]] Cons.prems lt show ?case
    by (simp add: ring_put_def ring_len_put1 ring_content_put1)
qed

lemma length_ring_content [simp]: "length (ring_content f) = ring_len f"
  by (simp add: ring_content_def)

lemma ring_len_drop:
  assumes "k \<le> ring_len f"
  shows "ring_len (ring_drop k f) = ring_len f - k"
proof -
  have lt: "k < 2 ^ 32"
    using assms unsigned_less [of "rin f - rout f", where 'a = nat] by (simp add: ring_len_def)
  have le: "(of_nat k :: u32) \<le> rin f - rout f"
    using assms lt by (simp add: word_le_nat_alt unat_of_nat ring_len_def)
  show ?thesis using unat_sub [OF le] lt
    by (simp add: ring_len_def ring_drop_def unat_of_nat diff_diff_eq)
qed

lemma ring_drop_spec:
  assumes "ring_ok f" "k \<le> ring_len f"
  shows "ring_ok (ring_drop k f) \<and> ring_cap (ring_drop k f) = ring_cap f \<and>
    ring_content (ring_drop k f) = drop k (ring_content f)"
proof -
  have cap: "ring_cap (ring_drop k f) = ring_cap f" by (simp add: ring_cap_def ring_drop_def)
  have at: "ring_at (ring_drop k f) i = ring_at f (k + i)" for i
    by (simp add: ring_at_def cap) (simp add: ring_drop_def add.assoc)
  have "ring_content (ring_drop k f) = drop k (ring_content f)"
    by (rule nth_equalityI) (use assms in \<open>simp_all add: ring_len_drop at ring_content_def\<close>)
  with cap assms show ?thesis by (auto simp: ring_ok_def ring_len_drop)
qed

lemma round_pow2_bounds: "s \<le> 2 ^ e \<Longrightarrow> s \<le> round_pow2 e s \<and> round_pow2 e s dvd 2 ^ e"
  by (induction e) (auto intro: dvd_trans [OF _ le_imp_power_dvd])

section \<open>The ring meets the contract\<close>

lemma ring_make_ok:
  assumes "2 \<le> sz" "sz \<le> 2 ^ 31"
  shows "ring_ok (ring_make sz) \<and> ring_content (ring_make sz) = [] \<and> nat sz \<le> ring_cap (ring_make sz)"
proof -
  have le: "nat sz \<le> 2 ^ 31" using assms(2) by simp
  let ?c = "round_pow2 31 (nat sz)"
  have b: "nat sz \<le> ?c" "?c dvd 2 ^ 31" using round_pow2_bounds [OF le] by blast+
  have "?c dvd 2 ^ 32" using b(2) by (rule dvd_trans) (rule le_imp_power_dvd, simp)
  moreover have "?c \<le> 2 ^ 31" using b(2) by (rule dvd_imp_le) simp
  moreover have "0 < ?c" using b(1) assms(1) by (simp add: nat_le_iff)
  ultimately show ?thesis using b(1)
    by (simp add: ring_make_def ring_ok_def ring_cap_def ring_len_def ring_content_def)
qed

interpretation kring: kfifo_contract ring_api ring_content ring_cap ring_ok
proof
  fix sz :: int
  assume "2 \<le> sz" "sz \<le> 2 ^ 31"
  then show "ring_ok (kf_make ring_api sz) \<and> ring_content (kf_make ring_api sz) = [] \<and>
      nat sz \<le> ring_cap (kf_make ring_api sz)"
    using ring_make_ok by simp
next
  fix f
  assume ok: "ring_ok f"
  then show "length (ring_content f) \<le> ring_cap f" "ring_cap f < 2 ^ 32"
    by (simp_all add: ring_ok_def)
  show "kf_avail ring_api f = ring_cap f - length (ring_content f)" by simp
next
  fix f len and ub :: "byte list"
  assume ok: "ring_ok f" and fit: "min len (ring_cap f - length (ring_content f)) \<le> length ub"
  let ?n = "min len (ring_cap f - ring_len f)"
  have "ring_len f + length (take ?n ub) \<le> ring_cap f" using ok by (auto simp: ring_ok_def)
  from ring_put_spec [OF ok this] fit
  show "\<exists>f'. kf_from_user ring_api f ub len = (0, min len (ring_cap f - length (ring_content f)), f') \<and>
      ring_ok f' \<and> ring_cap f' = ring_cap f \<and>
      ring_content f' = ring_content f @ take (min len (ring_cap f - length (ring_content f))) ub"
    by (simp add: ring_from_user_def Let_def)
next
  fix f len and ub :: "byte list"
  assume ok: "ring_ok f" and small: "length ub < min len (ring_cap f - length (ring_content f))"
  then have "ring_len f + length ub \<le> ring_cap f"
    by (simp only: length_ring_content min_less_iff_conj) linarith
  from ring_put_spec [OF ok this] small
  show "\<exists>c f'. kf_from_user ring_api f ub len = (- EFAULT, c, f') \<and> c \<le> length ub \<and>
      ring_ok f' \<and> ring_cap f' = ring_cap f \<and> ring_content f' = ring_content f @ take c ub"
    by (auto simp: ring_from_user_def Let_def)
next
  fix f len room
  assume ok: "ring_ok f" and fit: "min len (length (ring_content f)) \<le> room"
  have "min len (ring_len f) \<le> ring_len f" by simp
  from ring_drop_spec [OF ok this] fit
  show "\<exists>f'. kf_to_user ring_api f room len = (0, take len (ring_content f), f') \<and>
      ring_ok f' \<and> ring_cap f' = ring_cap f \<and> ring_content f' = drop len (ring_content f)"
    by (simp add: ring_to_user_def Let_def min_def)
next
  fix f len room
  assume ok: "ring_ok f" and small: "room < min len (length (ring_content f))"
  then have "room \<le> ring_len f" by simp
  from ring_drop_spec [OF ok this] small
  show "\<exists>c f'. kf_to_user ring_api f room len = (- EFAULT, take c (ring_content f), f') \<and> c \<le> room \<and>
      ring_ok f' \<and> ring_cap f' = ring_cap f \<and> ring_content f' = drop c (ring_content f)"
    by (auto simp: ring_to_user_def Let_def)
qed

end
