(* ===== verification/Kernelnewbies.thy ===== *)
theory Kernelnewbies
  imports Kfifo_Ring
begin

text \<open>
  The module of \<open>01.kernelnewbies/kernelnewbies.c\<close>: one character device over one kfifo. The state is
  the module's static variables; the two mutexes are flags (held or free), the class pointer and
  the \<open>cdev\<close> live in the kernel's ledger. The prints have no counterpart.
\<close>

section \<open>State and operations\<close>

record 'f kn_state = "chr_res kworld" +
  kn_fsize :: int
  kn_dev_nr :: dev_t
  kn_read_access :: bool
  kn_write_access :: bool
  kn_myfifo :: 'f

definition kn_open :: "'f kn_state \<Rightarrow> (int, 'f kn_state) outcome" where
  "kn_open s = Ret 0 s"

definition kn_release :: "'f kn_state \<Rightarrow> (int, 'f kn_state) outcome" where
  "kn_release s = Ret 0 s"

text \<open>
  \<open>sig\<close> says whether a signal arrives while the caller waits for the mutex; \<open>buf\<close> holds the
  accessible bytes of the caller's buffer.
\<close>

definition kn_write ::
    "'f kfifo_api \<Rightarrow> bool \<Rightarrow> byte list \<Rightarrow> nat \<Rightarrow> 'f kn_state \<Rightarrow> (int, 'f kn_state) outcome" where
  "kn_write K sig buf count s =
     (if kn_write_access s then (if sig then Ret (- ERESTARTSYS) s else Blocked s)
      else
        let s1 = s\<lparr>kn_write_access := True\<rparr>;
            (ret, copiedin, f) = kf_from_user K (kn_myfifo s1) buf count;
            s2 = s1\<lparr>kn_myfifo := f, kn_write_access := False\<rparr>
        in if ret \<noteq> 0 then Ret ret s2 else Ret (int count) s2)"

definition kn_read ::
    "'f kfifo_api \<Rightarrow> bool \<Rightarrow> nat \<Rightarrow> nat \<Rightarrow> 'f kn_state \<Rightarrow> (int \<times> byte list, 'f kn_state) outcome" where
  "kn_read K sig room count s =
     (if kn_read_access s then (if sig then Ret (- ERESTARTSYS, []) s else Blocked s)
      else
        let s1 = s\<lparr>kn_read_access := True\<rparr>;
            (ret, out, f) = kf_to_user K (kn_myfifo s1) room count;
            s2 = s1\<lparr>kn_myfifo := f, kn_read_access := False\<rparr>
        in if ret \<noteq> 0 then Ret (ret, out) s2 else Ret (int (length out), out) s2)"

text \<open>
  The error labels of \<open>kernelnewbies_init\<close>, each falling through to the next, and the function itself.
  Note the two return-code variables of the source: \<open>rc\<close> is only tested, \<open>ret\<close> is returned.
\<close>

definition kn_err_class_create :: "int \<Rightarrow> ('f kn_state, int) state" where
  "kn_err_class_create ret = do { unregister_chrdev_region; return ret }"

definition kn_err_device_create :: "int \<Rightarrow> ('f kn_state, int) state" where
  "kn_err_device_create ret = do { class_destroy; kn_err_class_create ret }"

definition kn_err_add_device :: "int \<Rightarrow> ('f kn_state, int) state" where
  "kn_err_add_device ret = do { nr \<leftarrow> gets kn_dev_nr; device_destroy nr; kn_err_device_create ret }"

definition kn_err_alloc_fifo :: "int \<Rightarrow> ('f kn_state, int) state" where
  "kn_err_alloc_fifo ret = do { cdev_del 0; kn_err_add_device ret }"

definition kernelnewbies_init :: "'f kfifo_api \<Rightarrow> ('f kn_state, int) state" where
  "kernelnewbies_init K = do {
     (ret, nr) \<leftarrow> alloc_chrdev_region 0 1;
     if ret < 0 then return ret
     else do {
       modify (\<lambda>s. s\<lparr>kn_dev_nr := word_of_int nr\<rparr>);
       new_class \<leftarrow> class_create;
       if IS_ERR new_class then kn_err_class_create (PTR_ERR new_class)
       else do {
         device \<leftarrow> device_create (word_of_int nr);
         if IS_ERR device then kn_err_device_create (PTR_ERR device)
         else do {
           cdev_init 0;
           rc \<leftarrow> cdev_add 0 (word_of_int nr);
           if rc \<noteq> 0 then kn_err_add_device ret
           else do {
             fsize \<leftarrow> gets kn_fsize;
             ret \<leftarrow> kfifo_alloc 0 fsize;
             if ret \<noteq> 0 then kn_err_alloc_fifo ret
             else do {
               modify (\<lambda>s. s\<lparr>kn_myfifo := kf_make K fsize\<rparr>);
               return 0
             }}}}}}"

definition kernelnewbies_exit :: "('f kn_state, unit) state" where
  "kernelnewbies_exit = do {
     nr \<leftarrow> gets kn_dev_nr;
     cdev_del 0;
     device_destroy nr;
     class_destroy;
     unregister_chrdev_region;
     kfifo_free 0;
     return ()
   }"

lemmas kn_label_defs = kn_err_class_create_def kn_err_device_create_def kn_err_add_device_def
  kn_err_alloc_fifo_def

section \<open>The calls as a byte pipe\<close>

definition kn_ok :: "('f \<Rightarrow> bool) \<Rightarrow> 'f kn_state \<Rightarrow> bool" where
  "kn_ok fok s \<longleftrightarrow> fok (kn_myfifo s) \<and> \<not> kn_read_access s \<and> \<not> kn_write_access s"

sublocale kfifo_contract \<subseteq> kn: byte_pipe "kn_write K False" "kn_read K False"
  "\<lambda>s. content (kn_myfifo s)" "\<lambda>s. cap (kn_myfifo s)" "kn_ok fok"
proof
  fix d :: "'f kn_state" and bs :: "byte list"
  assume ok: "kn_ok fok d"
  then have "fok (kn_myfifo d)" by (simp add: kn_ok_def)
  from from_user_exact [OF this, of bs] ok
  show "\<exists>r d'. kn_write K False bs (length bs) d = Ret r d' \<and> kn_ok fok d' \<and>
      cap (kn_myfifo d') = cap (kn_myfifo d) \<and>
      content (kn_myfifo d') =
        content (kn_myfifo d) @ take (cap (kn_myfifo d) - length (content (kn_myfifo d))) bs"
    by (auto simp: kn_write_def kn_ok_def)
next
  fix d :: "'f kn_state" and k
  assume ok: "kn_ok fok d"
  then have "fok (kn_myfifo d)" by (simp add: kn_ok_def)
  from to_user_exact [OF this, of k] ok
  show "\<exists>d'. kn_read K False k k d =
      Ret (int (length (take k (content (kn_myfifo d)))), take k (content (kn_myfifo d))) d' \<and>
      kn_ok fok d' \<and> cap (kn_myfifo d') = cap (kn_myfifo d) \<and>
      content (kn_myfifo d') = drop k (content (kn_myfifo d))"
    by (auto simp: kn_read_def kn_ok_def)
qed

context kfifo_contract
begin

lemma kn_run_refines_spec:
  "kn_ok fok s \<Longrightarrow> \<exists>t. pipe_run (kn_write K False) (kn_read K False) xs s =
       Some (fst (spec_run (cap (kn_myfifo s)) xs (content (kn_myfifo s))), t) \<and>
     kn_ok fok t \<and> content (kn_myfifo t) = snd (spec_run (cap (kn_myfifo s)) xs (content (kn_myfifo s)))"
  using kn.run_refines_spec [of s xs] by blast

end

section \<open>Properties\<close>

text \<open>
  C8. The device is a first-in first-out byte pipe of the kfifo's capacity: any sequence of
  writes and reads on accessible buffers returns, its reads deliver exactly what the specification
  of a bounded pipe delivers, and the device ends with that pipe's content. Bytes that do not fit are
  dropped, as the comment in the source says.
\<close>

theorem kn_refines_pipe:
  assumes "kfifo_contract K content cap fok"
    and "kn_ok fok s"
  shows "\<exists>t. pipe_run (kn_write K False) (kn_read K False) xs s =
       Some (fst (spec_run (cap (kn_myfifo s)) xs (content (kn_myfifo s))), t) \<and>
     kn_ok fok t \<and> content (kn_myfifo t) = snd (spec_run (cap (kn_myfifo s)) xs (content (kn_myfifo s)))"
  by (rule kfifo_contract.kn_run_refines_spec [OF assms])

definition kn_example :: "ring kn_state" where
  "kn_example = \<lparr>kres = (\<lambda>n c. 0), kout = (\<lambda>n c. 0), ktrace = [], kn_fsize = 4, kn_dev_nr = 0,
     kn_read_access = False, kn_write_access = False,
     kn_myfifo = \<lparr>rdata = replicate 4 0, rin = 4294967295, rout = 4294967295\<rparr>\<rparr>"

lemma kn_example_ok: "kn_ok ring_ok kn_example"
  by (simp add: kn_ok_def kn_example_def ring_ok_def ring_cap_def ring_len_def)

theorem kn_refines_pipe_witness:
  "\<exists>t. pipe_run (kn_write ring_api False) (kn_read ring_api False)
       [Write_op [1, 2, 3], Read_op 2, Write_op [4, 5, 6, 7], Read_op 9] kn_example =
     Some ([1, 2, 3, 4, 5, 6], t)"
  using kn_refines_pipe [OF kring.kfifo_contract_axioms kn_example_ok,
      of "[Write_op [1, 2, 3], Read_op 2, Write_op [4, 5, 6, 7], Read_op 9]"]
  by (auto simp: kn_example_def ring_cap_def ring_content_def ring_len_def)

definition kn_loaded :: "'f kn_state \<Rightarrow> chr_res list" where
  "kn_loaded s = [Chrdev_region, Dev_class, Dev_node (kn_dev_nr s), Char_dev 0, Fifo 0]"

text \<open>
  C24. What \<open>kernelnewbies_init\<close> leaves acquired, for every behaviour of the kernel: the region, the
  class, the device node, the character device and the FIFO when no acquisition failed, and nothing
  otherwise. No path gives back something it does not hold, and unloading a module whose loading
  failed nowhere gives everything back.
\<close>

theorem kernelnewbies_init_ledger:
  assumes "ktrace s = []"
    and "run_state (kernelnewbies_init K) s = (r, t)"
  shows "held chr_conv t = Some (if failures chr_conv (ktrace t) = [] then kn_loaded t else []) \<and>
    (failures chr_conv (ktrace t) = [] \<longrightarrow>
       r = 0 \<and> held chr_conv (exec kernelnewbies_exit t) = Some [])"
  using assms unfolding ledger_eval
  by (simp add: kernelnewbies_init_def kernelnewbies_exit_def kn_label_defs kn_loaded_def
      split: if_splits; clarsimp)

theorem kernelnewbies_init_ledger_witness:
  "held chr_conv (exec (kernelnewbies_init ring_api) kn_example) =
     Some [Chrdev_region, Dev_class, Dev_node 0, Char_dev 0, Fifo 0]"
proof -
  have e: "ktrace kn_example = []" by (simp add: kn_example_def)
  obtain r t where rt: "run_state (kernelnewbies_init ring_api) kn_example = (r, t)" by fastforce
  then have "failures chr_conv (ktrace t) = []" "kn_dev_nr t = 0"
    by (auto simp: kernelnewbies_init_def kn_example_def IS_ERR_def split: if_splits)
  with kernelnewbies_init_ledger [OF e rt] rt show ?thesis
    by (simp add: exec_def kn_loaded_def)
qed

text \<open>
  The failure of \<open>cdev_add\<close> is not reported: the code keeps it in \<open>rc\<close> and returns \<open>ret\<close>, which
  still holds what \<open>alloc_chrdev_region\<close> returned, a non-negative number. The module then counts as loaded although
  every resource is gone, and unloading it gives all of them back a second time.
\<close>

theorem kernelnewbies_cdev_failure_is_success:
  assumes "ktrace s = []"
    and "run_state (kernelnewbies_init K) s = (r, t)"
    and "failures chr_conv (ktrace t) = [Char_dev 0]"
  shows "0 \<le> r \<and> held chr_conv t = Some [] \<and> held chr_conv (exec kernelnewbies_exit t) = None"
  using assms unfolding ledger_eval
  by (simp add: kernelnewbies_init_def kernelnewbies_exit_def kn_label_defs split: if_splits; clarsimp)

definition kn_cdev_fails :: "ring kn_state" where
  "kn_cdev_fails = kn_example\<lparr>kres := (\<lambda>n c. case c of Get (Char_dev i) as \<Rightarrow> - 16 | _ \<Rightarrow> 0)\<rparr>"

theorem kernelnewbies_cdev_failure_is_success_witness:
  "0 \<le> result (kernelnewbies_init ring_api) kn_cdev_fails \<and>
   held chr_conv (exec kernelnewbies_exit (exec (kernelnewbies_init ring_api) kn_cdev_fails)) = None"
proof -
  have e: "ktrace kn_cdev_fails = []" by (simp add: kn_cdev_fails_def kn_example_def)
  obtain r t where rt: "run_state (kernelnewbies_init ring_api) kn_cdev_fails = (r, t)" by fastforce
  then have "failures chr_conv (ktrace t) = [Char_dev 0]"
    by (auto simp: kernelnewbies_init_def kn_label_defs kn_cdev_fails_def kn_example_def IS_ERR_def
        split: if_splits)
  from kernelnewbies_cdev_failure_is_success [OF e rt this] rt show ?thesis
    by (simp add: exec_def result_def)
qed

end
