(* ===== verification/Mcdevdrvs.thy ===== *)
theory Mcdevdrvs
  imports Kfifo_Ring
begin

text \<open>
  The module of \<open>03.mcdevdrvs/mcdevdrvs.c\<close>: two character devices (minors 0 and 1), each with a kfifo
  of its own, behind one set of file operations. An open file remembers the index of its device,
  which is what \<open>container_of\<close> on the inode's \<open>cdev\<close> computes.
\<close>

section \<open>State and file operations\<close>

record 'f prvt_devc =
  mcd_myfifo :: 'f
  mcd_r_f_lock :: bool
  mcd_w_f_lock :: bool

record 'f mc_state = "chr_res kworld" +
  mc_fsize :: int
  mc_dev_nr :: dev_t
  mc_devcs :: "'f prvt_devc list"

definition NR_MINOR_DEVCS :: nat where
  "NR_MINOR_DEVCS = 2"

text \<open>\<open>mc_open\<close> returns the index stored in \<open>filp->private_data\<close>.\<close>

definition mc_open :: "nat \<Rightarrow> 'f mc_state \<Rightarrow> (int \<times> nat, 'f mc_state) outcome" where
  "mc_open i_cdev s = Ret (0, i_cdev) s"

definition mc_release :: "nat \<Rightarrow> 'f mc_state \<Rightarrow> (int, 'f mc_state) outcome" where
  "mc_release i s = Ret 0 s"

definition mc_write ::
    "'f kfifo_api \<Rightarrow> nat \<Rightarrow> bool \<Rightarrow> byte list \<Rightarrow> nat \<Rightarrow> 'f mc_state \<Rightarrow> (int, 'f mc_state) outcome" where
  "mc_write K i sig buf count s =
     (let dev = mc_devcs s ! i
      in if mcd_w_f_lock dev then (if sig then Ret (- ERESTARTSYS) s else Blocked s)
         else
           let dev1 = dev\<lparr>mcd_w_f_lock := True\<rparr>;
               (ret, copiedin, f) = kf_from_user K (mcd_myfifo dev1) buf count;
               dev2 = dev1\<lparr>mcd_myfifo := f, mcd_w_f_lock := False\<rparr>;
               s2 = s\<lparr>mc_devcs := (mc_devcs s)[i := dev2]\<rparr>
           in if ret \<noteq> 0 then Ret ret s2 else Ret (int count) s2)"

definition mc_read ::
    "'f kfifo_api \<Rightarrow> nat \<Rightarrow> bool \<Rightarrow> nat \<Rightarrow> nat \<Rightarrow> 'f mc_state \<Rightarrow> (int \<times> byte list, 'f mc_state) outcome" where
  "mc_read K i sig room count s =
     (let dev = mc_devcs s ! i
      in if mcd_r_f_lock dev then (if sig then Ret (- ERESTARTSYS, []) s else Blocked s)
         else
           let dev1 = dev\<lparr>mcd_r_f_lock := True\<rparr>;
               (ret, out, f) = kf_to_user K (mcd_myfifo dev1) room count;
               dev2 = dev1\<lparr>mcd_myfifo := f, mcd_r_f_lock := False\<rparr>;
               s2 = s\<lparr>mc_devcs := (mc_devcs s)[i := dev2]\<rparr>
           in if ret \<noteq> 0 then Ret (ret, out) s2 else Ret (int (length out), out) s2)"

section \<open>Loading and unloading\<close>

text \<open>
  The two counting-down loops of the error path. They start at the index at which the loop above them stopped,
  which is \<open>NR_MINOR_DEVCS\<close> for \<open>dev_cnt\<close> when it is the FIFO loop that failed.
\<close>

primrec mc_free_fifos :: "nat \<Rightarrow> ('f mc_state, unit) state" where
  "mc_free_fifos 0 = do { kfifo_free 0; return () }"
| "mc_free_fifos (Suc n) = do { kfifo_free (Suc n); mc_free_fifos n }"

primrec mc_del_devices :: "nat \<Rightarrow> ('f mc_state, unit) state" where
  "mc_del_devices 0 = do {
     nr \<leftarrow> gets mc_dev_nr; cdev_del 0; device_destroy nr; return () }"
| "mc_del_devices (Suc n) = do {
     nr \<leftarrow> gets mc_dev_nr; cdev_del (Suc n); device_destroy (nr + of_nat (Suc n)); mc_del_devices n }"

definition mc_err_class :: "int \<Rightarrow> ('f mc_state, int) state" where
  "mc_err_class ret = do { unregister_chrdev_region; return ret }"

definition mc_err_device :: "nat \<Rightarrow> int \<Rightarrow> ('f mc_state, int) state" where
  "mc_err_device dev_cnt ret = do { mc_del_devices dev_cnt; class_destroy; mc_err_class ret }"

definition mc_err_fifo :: "nat \<Rightarrow> nat \<Rightarrow> int \<Rightarrow> ('f mc_state, int) state" where
  "mc_err_fifo fifo_cnt dev_cnt ret = do { mc_free_fifos fifo_cnt; mc_err_device dev_cnt ret }"

text \<open>
  The loops of \<open>mcdevdrvs_init\<close>. \<open>Inl (i, ret)\<close> is a jump to an error label with the loop counter at
  \<open>i\<close> and the variable \<open>ret\<close> as it then is; \<open>Inr\<close> is normal termination. A failing
  \<open>cdev_add\<close> is kept in \<open>rc\<close> and leaves \<open>ret\<close> as it was.
\<close>

function mc_create_devices :: "nat \<Rightarrow> int \<Rightarrow> ('f mc_state, (nat \<times> int) + int) state" where
  "mc_create_devices dev_cnt ret =
     (if dev_cnt < NR_MINOR_DEVCS then do {
        nr \<leftarrow> gets mc_dev_nr;
        device \<leftarrow> device_create (nr + of_nat dev_cnt);
        if IS_ERR device then return (Inl (dev_cnt, PTR_ERR device))
        else do {
          cdev_init dev_cnt;
          rc \<leftarrow> cdev_add dev_cnt (nr + of_nat dev_cnt);
          if rc \<noteq> 0 then return (Inl (dev_cnt, ret))
          else mc_create_devices (Suc dev_cnt) ret
        }}
      else return (Inr ret))"
  by pat_completeness auto
termination
  by (relation "measure (\<lambda>(dev_cnt, ret). NR_MINOR_DEVCS - dev_cnt)") auto

function mc_create_fifos :: "'f kfifo_api \<Rightarrow> nat \<Rightarrow> ('f mc_state, (nat \<times> int) + unit) state" where
  "mc_create_fifos K fifo_cnt =
     (if fifo_cnt < NR_MINOR_DEVCS then do {
        fsize \<leftarrow> gets mc_fsize;
        ret \<leftarrow> kfifo_alloc fifo_cnt fsize;
        if ret \<noteq> 0 then return (Inl (fifo_cnt, ret))
        else do {
          modify (\<lambda>s. s\<lparr>mc_devcs := (mc_devcs s)
            [fifo_cnt := (mc_devcs s ! fifo_cnt)\<lparr>mcd_myfifo := kf_make K fsize\<rparr>]\<rparr>);
          mc_create_fifos K (Suc fifo_cnt)
        }}
      else return (Inr ()))"
  by pat_completeness auto
termination
  by (relation "measure (\<lambda>(K, fifo_cnt). NR_MINOR_DEVCS - fifo_cnt)") auto

declare mc_create_devices.simps [simp del] mc_create_fifos.simps [simp del]

definition mcdevdrvs_init :: "'f kfifo_api \<Rightarrow> ('f mc_state, int) state" where
  "mcdevdrvs_init K = do {
     (ret, nr) \<leftarrow> alloc_chrdev_region 0 (int NR_MINOR_DEVCS);
     if ret < 0 then return ret
     else do {
       modify (\<lambda>s. s\<lparr>mc_dev_nr := word_of_int nr\<rparr>);
       new_class \<leftarrow> class_create;
       if IS_ERR new_class then mc_err_class (PTR_ERR new_class)
       else do {
         devs \<leftarrow> mc_create_devices 0 ret;
         (case devs of
            Inl (dev_cnt, ret) \<Rightarrow> mc_err_device dev_cnt ret
          | Inr ret \<Rightarrow> do {
              fifos \<leftarrow> mc_create_fifos K 0;
              (case fifos of
                 Inl (fifo_cnt, ret) \<Rightarrow> mc_err_fifo fifo_cnt NR_MINOR_DEVCS ret
               | Inr u \<Rightarrow> return 0)
            })
       }}}"

primrec mc_exit_devices :: "nat \<Rightarrow> ('f mc_state, unit) state" where
  "mc_exit_devices 0 = return ()"
| "mc_exit_devices (Suc n) = do {
     nr \<leftarrow> gets mc_dev_nr;
     cdev_del (NR_MINOR_DEVCS - Suc n);
     device_destroy (nr + of_nat (NR_MINOR_DEVCS - Suc n));
     mc_exit_devices n }"

primrec mc_exit_fifos :: "nat \<Rightarrow> ('f mc_state, unit) state" where
  "mc_exit_fifos 0 = return ()"
| "mc_exit_fifos (Suc n) = do { kfifo_free (NR_MINOR_DEVCS - Suc n); mc_exit_fifos n }"

text \<open>The exit loops count up; \<open>mc_exit_devices n\<close> is the loop with \<open>n\<close> rounds to go.\<close>

definition mcdevdrvs_exit :: "('f mc_state, unit) state" where
  "mcdevdrvs_exit = do {
     mc_exit_devices NR_MINOR_DEVCS;
     class_destroy;
     unregister_chrdev_region;
     mc_exit_fifos NR_MINOR_DEVCS
   }"

lemmas mc_label_defs = mc_err_class_def mc_err_device_def mc_err_fifo_def

lemma mc_create_devices_unroll:
  "mc_create_devices 2 ret = return (Inr ret)"
  by (simp add: mc_create_devices.simps [of 2] NR_MINOR_DEVCS_def)

lemma mc_create_fifos_unroll:
  "mc_create_fifos K 2 = return (Inr ())"
  by (simp add: mc_create_fifos.simps [of K 2] NR_MINOR_DEVCS_def)

lemmas mc_loop_simps = mc_create_devices.simps [of 0] mc_create_devices.simps [of "Suc 0"]
  mc_create_fifos.simps [of _ 0] mc_create_fifos.simps [of _ "Suc 0"]
  mc_create_devices_unroll [unfolded numeral_2_eq_2] mc_create_fifos_unroll [unfolded numeral_2_eq_2]
  NR_MINOR_DEVCS_def numeral_2_eq_2

section \<open>The two devices as independent byte pipes\<close>

definition mc_dev_ok :: "('f \<Rightarrow> bool) \<Rightarrow> 'f prvt_devc \<Rightarrow> bool" where
  "mc_dev_ok fok d \<longleftrightarrow> fok (mcd_myfifo d) \<and> \<not> mcd_r_f_lock d \<and> \<not> mcd_w_f_lock d"

definition mc_ok :: "('f \<Rightarrow> bool) \<Rightarrow> 'f mc_state \<Rightarrow> bool" where
  "mc_ok fok s \<longleftrightarrow> (\<forall>d\<in>set (mc_devcs s). mc_dev_ok fok d)"

text \<open>Calls on the two minors in any order; the result lists what each read delivered, by minor.\<close>

fun mc_run :: "'f kfifo_api \<Rightarrow> (nat \<times> pipe_op) list \<Rightarrow> 'f mc_state \<Rightarrow>
    ((nat \<times> byte list) list \<times> 'f mc_state) option" where
  "mc_run K [] s = Some ([], s)"
| "mc_run K ((i, Write_op bs) # xs) s =
     (case mc_write K i False bs (length bs) s of Blocked t \<Rightarrow> None | Ret r t \<Rightarrow> mc_run K xs t)"
| "mc_run K ((i, Read_op k) # xs) s =
     (case mc_read K i False k k s of Blocked t \<Rightarrow> None
      | Ret (r, out) t \<Rightarrow> (case mc_run K xs t of None \<Rightarrow> None | Some (outs, u) \<Rightarrow> Some ((i, out) # outs, u)))"

definition of_minor :: "nat \<Rightarrow> (nat \<times> 'a) list \<Rightarrow> 'a list" where
  "of_minor m xs = map snd (filter (\<lambda>x. fst x = m) xs)"

lemma of_minor_simps [simp]:
  "of_minor m [] = []"
  "of_minor m ((i, x) # xs) = (if i = m then x # of_minor m xs else of_minor m xs)"
  by (auto simp: of_minor_def)

context kfifo_contract
begin

abbreviation mcq :: "'f mc_state \<Rightarrow> nat \<Rightarrow> byte list" where
  "mcq s m \<equiv> content (mcd_myfifo (mc_devcs s ! m))"

abbreviation mccap :: "'f mc_state \<Rightarrow> nat \<Rightarrow> nat" where
  "mccap s m \<equiv> cap (mcd_myfifo (mc_devcs s ! m))"

lemma mc_write_step:
  assumes "mc_ok fok s" and "i < length (mc_devcs s)"
  shows "\<exists>t. mc_write K i False bs (length bs) s = Ret (int (length bs)) t \<and> mc_ok fok t \<and>
    length (mc_devcs t) = length (mc_devcs s) \<and>
    (\<forall>m<length (mc_devcs s). mccap t m = mccap s m \<and>
       mcq t m = (if m = i then mcq s m @ take (mccap s m - length (mcq s m)) bs else mcq s m))"
proof -
  have ok: "mc_dev_ok fok (mc_devcs s ! i)" using assms by (auto simp: mc_ok_def)
  then have "fok (mcd_myfifo (mc_devcs s ! i))" by (simp add: mc_dev_ok_def)
  from from_user_exact [OF this, of bs] ok assms show ?thesis
    by (auto simp: mc_write_def mc_ok_def mc_dev_ok_def Let_def nth_list_update
        dest!: set_update_subset_insert [THEN subsetD])
qed

lemma mc_read_step:
  assumes "mc_ok fok s" and "i < length (mc_devcs s)"
  shows "\<exists>t. mc_read K i False k k s = Ret (int (length (take k (mcq s i))), take k (mcq s i)) t \<and>
    mc_ok fok t \<and> length (mc_devcs t) = length (mc_devcs s) \<and>
    (\<forall>m<length (mc_devcs s). mccap t m = mccap s m \<and>
       mcq t m = (if m = i then drop k (mcq s m) else mcq s m))"
proof -
  have ok: "mc_dev_ok fok (mc_devcs s ! i)" using assms by (auto simp: mc_ok_def)
  then have "fok (mcd_myfifo (mc_devcs s ! i))" by (simp add: mc_dev_ok_def)
  from to_user_exact [OF this, of k] ok assms show ?thesis
    by (auto simp: mc_read_def mc_ok_def mc_dev_ok_def Let_def nth_list_update
        dest!: set_update_subset_insert [THEN subsetD])
qed

lemma mc_run_refines:
  "mc_ok fok s \<Longrightarrow> \<forall>x\<in>set xs. fst x < length (mc_devcs s) \<Longrightarrow>
     \<exists>outs t. mc_run K xs s = Some (outs, t) \<and> mc_ok fok t \<and>
       (\<forall>m<length (mc_devcs s).
          concat (of_minor m outs) = fst (spec_run (mccap s m) (of_minor m xs) (mcq s m)) \<and>
          mcq t m = snd (spec_run (mccap s m) (of_minor m xs) (mcq s m)))"
proof (induction xs arbitrary: s)
  case Nil
  then show ?case by simp
next
  case (Cons x xs)
  obtain i a where x: "x = (i, a)" by fastforce
  with Cons.prems have i: "i < length (mc_devcs s)" by simp
  show ?case
  proof (cases a)
    case (Write_op bs)
    from mc_write_step [OF Cons.prems(1) i, of bs] obtain t where
      t: "mc_write K i False bs (length bs) s = Ret (int (length bs)) t" "mc_ok fok t"
        "length (mc_devcs t) = length (mc_devcs s)"
        "\<forall>m<length (mc_devcs s). mccap t m = mccap s m \<and>
           mcq t m = (if m = i then mcq s m @ take (mccap s m - length (mcq s m)) bs else mcq s m)"
      by blast
    from Cons.IH [OF t(2)] Cons.prems(2) t x Write_op show ?thesis
      by (fastforce split: prod.splits)
  next
    case (Read_op k)
    from mc_read_step [OF Cons.prems(1) i, of k] obtain t where
      t: "mc_read K i False k k s = Ret (int (length (take k (mcq s i))), take k (mcq s i)) t"
        "mc_ok fok t" "length (mc_devcs t) = length (mc_devcs s)"
        "\<forall>m<length (mc_devcs s). mccap t m = mccap s m \<and>
           mcq t m = (if m = i then drop k (mcq s m) else mcq s m)"
      by blast
    from Cons.IH [OF t(2)] Cons.prems(2) t x Read_op show ?thesis
      by (fastforce split: prod.splits)
  qed
qed

end

section \<open>Properties\<close>

text \<open>
  C29. The two minors are two independent byte pipes: for any interleaving of accessible reads and
  writes on them, what each minor delivers and holds at the end is what a bounded pipe fed with
  that minor's own calls delivers and holds.
\<close>

theorem mc_minors_independent:
  assumes "kfifo_contract K content cap fok"
    and "mc_ok fok s"
    and "\<forall>x\<in>set xs. fst x < length (mc_devcs s)"
  shows "\<exists>outs t. mc_run K xs s = Some (outs, t) \<and>
    (\<forall>m<length (mc_devcs s).
      let q = content (mcd_myfifo (mc_devcs s ! m)); n = cap (mcd_myfifo (mc_devcs s ! m))
      in concat (of_minor m outs) = fst (spec_run n (of_minor m xs) q) \<and>
         content (mcd_myfifo (mc_devcs t ! m)) = snd (spec_run n (of_minor m xs) q))"
  using kfifo_contract.mc_run_refines [OF assms] by (auto simp: Let_def)

definition mc_example :: "ring mc_state" where
  "mc_example = \<lparr>kres = (\<lambda>n c. 0), kout = (\<lambda>n c. 0), ktrace = [], mc_fsize = 4, mc_dev_nr = 0,
     mc_devcs = [\<lparr>mcd_myfifo = \<lparr>rdata = replicate 4 0, rin = 0, rout = 0\<rparr>,
                   mcd_r_f_lock = False, mcd_w_f_lock = False\<rparr>,
                 \<lparr>mcd_myfifo = \<lparr>rdata = replicate 4 0, rin = 0, rout = 0\<rparr>,
                   mcd_r_f_lock = False, mcd_w_f_lock = False\<rparr>]\<rparr>"

lemma mc_example_ok: "mc_ok ring_ok mc_example" "length (mc_devcs mc_example) = 2"
  by (simp_all add: mc_ok_def mc_dev_ok_def mc_example_def ring_ok_def ring_cap_def ring_len_def)

theorem mc_minors_independent_witness:
  "\<exists>outs t. mc_run ring_api [(0, Write_op [1, 2]), (1, Write_op [3]), (0, Read_op 1), (1, Read_op 5)]
       mc_example = Some (outs, t) \<and>
     concat (of_minor 0 outs) = [1] \<and> concat (of_minor 1 outs) = [3]"
  using mc_minors_independent [OF kring.kfifo_contract_axioms mc_example_ok(1),
      of "[(0, Write_op [1, 2]), (1, Write_op [3]), (0, Read_op 1), (1, Read_op 5)]"]
  by (force simp: mc_example_ok(2) mc_example_def ring_cap_def ring_content_def ring_len_def Let_def)

text \<open>
  What \<open>mcdevdrvs_init\<close> acquires when nothing fails.
\<close>

definition mc_loaded :: "'f mc_state \<Rightarrow> chr_res list" where
  "mc_loaded s = [Chrdev_region, Dev_class, Dev_node (mc_dev_nr s), Char_dev 0,
     Dev_node (mc_dev_nr s + 1), Char_dev 1, Fifo 0, Fifo 1]"

text \<open>
  When no acquisition fails, \<open>mcdevdrvs_init\<close> returns 0 with both devices and both FIFOs acquired
  and \<open>mcdevdrvs_exit\<close> gives everything back; when the region or the class cannot be had, it
  returns an error with nothing acquired.
\<close>

theorem mcdevdrvs_load_unload:
  assumes "ktrace s = []"
    and "run_state (mcdevdrvs_init K) s = (r, t)"
  shows "(failures chr_conv (ktrace t) = [] \<longrightarrow>
      r = 0 \<and> held chr_conv t = Some (mc_loaded t) \<and> held chr_conv (exec mcdevdrvs_exit t) = Some []) \<and>
    (failures chr_conv (ktrace t) \<in> {[Chrdev_region], [Dev_class]} \<longrightarrow>
      r < 0 \<and> held chr_conv t = Some [])"
  using assms unfolding ledger_eval
  by (simp add: mcdevdrvs_init_def mcdevdrvs_exit_def mc_label_defs mc_loaded_def IS_ERR_negative
      PTR_ERR_def mc_loop_simps split: if_splits; clarsimp simp: IS_ERR_negative)

theorem mcdevdrvs_load_unload_witness:
  "held chr_conv (exec mcdevdrvs_exit (exec (mcdevdrvs_init ring_api) mc_example)) = Some []"
proof -
  have e: "ktrace mc_example = []" by (simp add: mc_example_def)
  obtain r t where rt: "run_state (mcdevdrvs_init ring_api) mc_example = (r, t)" by fastforce
  then have "failures chr_conv (ktrace t) = []"
    by (auto simp: mcdevdrvs_init_def mc_loop_simps mc_example_def IS_ERR_def split: if_splits)
  with mcdevdrvs_load_unload [OF e rt] rt show ?thesis by (simp add: exec_def)
qed

text \<open>
  C30. Every later failure takes an error path that gives back what was never acquired: the clean-up loop
  starts at the index that failed, so it deletes a \<open>cdev\<close> that was not added. When it is a FIFO that could not be allocated
  the loop starts at \<open>NR_MINOR_DEVCS\<close> and deletes a device beyond the end of the array; when it is
  \<open>cdev_add\<close>, the module reports success.
\<close>

theorem mcdevdrvs_error_path_overruns:
  assumes "ktrace s = []"
    and "run_state (mcdevdrvs_init K) s = (r, t)"
    and "failures chr_conv (ktrace t) \<notin> {[], [Chrdev_region], [Dev_class]}"
  shows "held chr_conv t = None \<and>
    (\<forall>i. failures chr_conv (ktrace t) = [Fifo i] \<longrightarrow>
       Put (Char_dev NR_MINOR_DEVCS) \<in> fst ` set (ktrace t)) \<and>
    (\<forall>i. failures chr_conv (ktrace t) = [Char_dev i] \<longrightarrow> 0 \<le> r)"
  using assms unfolding held_def ledger_def
  by (simp add: mcdevdrvs_init_def mc_label_defs IS_ERR_negative PTR_ERR_def mc_loop_simps
      split: if_splits; clarsimp)

definition mc_fifo_fails :: "ring mc_state" where
  "mc_fifo_fails = mc_example\<lparr>kres := (\<lambda>n c. case c of Get (Fifo i) as \<Rightarrow> - 12 | _ \<Rightarrow> 0)\<rparr>"

theorem mcdevdrvs_error_path_overruns_witness:
  "held chr_conv (exec (mcdevdrvs_init ring_api) mc_fifo_fails) = None \<and>
   Put (Char_dev 2) \<in> fst ` set (ktrace (exec (mcdevdrvs_init ring_api) mc_fifo_fails))"
proof -
  have e: "ktrace mc_fifo_fails = []" by (simp add: mc_fifo_fails_def mc_example_def)
  obtain r t where rt: "run_state (mcdevdrvs_init ring_api) mc_fifo_fails = (r, t)" by fastforce
  then have f: "failures chr_conv (ktrace t) = [Fifo 0]"
    by (auto simp: mcdevdrvs_init_def mc_label_defs mc_loop_simps mc_fifo_fails_def mc_example_def
        IS_ERR_def split: if_splits)
  then have "failures chr_conv (ktrace t) \<notin> {[], [Chrdev_region], [Dev_class]}" by simp
  from mcdevdrvs_error_path_overruns [OF e rt this] rt f show ?thesis
    by (simp add: exec_def NR_MINOR_DEVCS_def)
qed

end
