(* ===== verification/User_Memory.thy ===== *)
theory User_Memory
  imports Kernel_Prelude
begin

text \<open>
  Byte-addressed memory as \<open>__get_user\<close> and \<open>__put_user\<close> reach it: an address is accessible when
  it is mapped. As the kernel documents, a read that faults yields \<open>-EFAULT\<close> and the value 0, a write that
  faults yields \<open>-EFAULT\<close> and stores nothing; neither of the two checks that the address is one of user space, which is left to the caller
  (\<open>access_ok\<close>). Words are stored little-endian.
\<close>

type_synonym memory = "nat \<Rightarrow> byte option"

primrec le_bytes :: "nat \<Rightarrow> int \<Rightarrow> byte list" where
  "le_bytes 0 v = []"
| "le_bytes (Suc n) v = word_of_int v # le_bytes n (v div 256)"

primrec le_val :: "byte list \<Rightarrow> int" where
  "le_val [] = 0"
| "le_val (b # bs) = uint b + 256 * le_val bs"

lemma length_le_bytes [simp]: "length (le_bytes n v) = n"
  by (induction n arbitrary: v) auto

lemma le_val_le_bytes [simp]: "le_val (le_bytes n v) = v mod 256 ^ n"
proof (induction n arbitrary: v)
  case 0
  then show ?case by simp
next
  case (Suc n)
  have "v mod 256 + 256 * (v div 256 mod 256 ^ n) = v mod (256 * 256 ^ n)"
    by (simp add: zmod_zmult2_eq mult.commute)
  with Suc show ?case by (simp add: uint_word_of_int take_bit_eq_mod)
qed

definition read_bytes :: "memory \<Rightarrow> nat \<Rightarrow> nat \<Rightarrow> byte option list" where
  "read_bytes m a n = map (\<lambda>i. m (a + i)) [0..<n]"

definition mapped :: "memory \<Rightarrow> nat \<Rightarrow> nat \<Rightarrow> bool" where
  "mapped m a n \<longleftrightarrow> (\<forall>i\<in>set [0..<n]. m (a + i) \<noteq> None)"

definition write_bytes :: "memory \<Rightarrow> nat \<Rightarrow> byte list \<Rightarrow> memory" where
  "write_bytes m a bs = (\<lambda>x. if a \<le> x \<and> x < a + length bs then Some (bs ! (x - a)) else m x)"

definition get_user :: "nat \<Rightarrow> memory \<Rightarrow> nat \<Rightarrow> int \<times> int" where
  "get_user n m a = (if mapped m a n then (0, le_val (map the (read_bytes m a n))) else (- EFAULT, 0))"

definition put_user :: "nat \<Rightarrow> int \<Rightarrow> memory \<Rightarrow> nat \<Rightarrow> int \<times> memory" where
  "put_user n v m a = (if mapped m a n then (0, write_bytes m a (le_bytes n v)) else (- EFAULT, m))"

lemma write_bytes_out [simp]: "x < a \<or> a + length bs \<le> x \<Longrightarrow> write_bytes m a bs x = m x"
  by (auto simp: write_bytes_def)

lemma read_write_bytes: "map the (read_bytes (write_bytes m a bs) a (length bs)) = bs"
  by (auto simp: read_bytes_def write_bytes_def intro: nth_equalityI)

lemma mapped_write_bytes [simp]: "mapped m a n \<Longrightarrow> mapped (write_bytes m b bs) a n"
  by (simp add: mapped_def write_bytes_def)

lemma mapped_mono: "mapped m a n \<Longrightarrow> k \<le> n \<Longrightarrow> mapped m a k"
  by (simp add: mapped_def)

lemma get_write_same: "get_user n (write_bytes m a (le_bytes n v)) a = (0, v mod 256 ^ n)"
proof -
  have "mapped (write_bytes m a (le_bytes n v)) a n" by (simp add: mapped_def write_bytes_def)
  then show ?thesis using read_write_bytes [of m a "le_bytes n v"] by (simp add: get_user_def)
qed

lemma get_write_other:
  "a + n \<le> b \<or> b + length bs \<le> a \<Longrightarrow> get_user n (write_bytes m b bs) a = get_user n m a"
  by (auto simp: get_user_def mapped_def write_bytes_def read_bytes_def intro!: arg_cong [where f = le_val])

lemma le_bytes_add: "le_bytes (j + k) v = le_bytes j v @ le_bytes k (v div 256 ^ j)"
  by (induction j arbitrary: v) (auto simp: zdiv_zmult2_eq)

lemma write_bytes_append:
  "write_bytes m a (xs @ ys) = write_bytes (write_bytes m a xs) (a + length xs) ys"
  by (auto simp: write_bytes_def nth_append fun_eq_iff)

lemma get_put_user:
  "mapped m a n \<Longrightarrow> get_user n (snd (put_user n v m a)) a = (0, v mod 256 ^ n)"
  by (simp add: put_user_def get_write_same)

lemma le_val_append: "le_val (xs @ ys) = le_val xs + 256 ^ length xs * le_val ys"
  by (induction xs) (auto simp: algebra_simps)

lemma le_val_nonneg: "0 \<le> le_val bs"
  by (induction bs) auto

lemma read_bytes_add: "read_bytes m a (j + k) = read_bytes m a j @ read_bytes m (a + j) k"
  by (rule nth_equalityI) (auto simp: read_bytes_def nth_append)

lemma u32_of_wrapped: "(word_of_int (a + 4294967296 * b) :: u32) = word_of_int a"
  unfolding word_of_int_eq_iff take_bit_eq_mod by simp

text \<open>An \<open>unsigned int\<close> read through an \<open>unsigned long\<close> pointer is the four bytes there.\<close>

lemma get_user_low_word:
  assumes "mapped m a n" and "4 \<le> n"
  shows "(word_of_int (snd (get_user n m a)) :: u32) = word_of_int (snd (get_user 4 m a))"
proof -
  obtain k where n: "n = 4 + k" using assms(2) le_Suc_ex by blast
  have "le_val (map the (read_bytes m a n)) =
      le_val (map the (read_bytes m a 4)) + 2 ^ 32 * le_val (map the (read_bytes m (a + 4) k))"
    by (simp add: n read_bytes_add le_val_append) (simp add: read_bytes_def)
  moreover have "mapped m a 4" using assms mapped_mono by blast
  ultimately show ?thesis
    using assms(1) by (simp add: get_user_def u32_of_wrapped del: of_int_add of_int_mult)
qed

section \<open>ioctl command numbers\<close>

text \<open>
  The encoding of \<open>Documentation/userspace-api/ioctl/ioctl-decoding.rst\<close>: direction, argument size, type
  character and number of a command.
\<close>

definition IOC :: "nat \<Rightarrow> nat \<Rightarrow> nat \<Rightarrow> nat \<Rightarrow> u32" where
  "IOC dir ty nr sz = of_nat (dir * 2 ^ 30 + sz * 2 ^ 16 + ty * 2 ^ 8 + nr)"

definition IOC_TYPE :: "u32 \<Rightarrow> nat" where
  "IOC_TYPE cmd = (unat cmd div 2 ^ 8) mod 2 ^ 8"

definition IOC_NR :: "u32 \<Rightarrow> nat" where
  "IOC_NR cmd = unat cmd mod 2 ^ 8"

abbreviation IOW :: "nat \<Rightarrow> nat \<Rightarrow> nat \<Rightarrow> u32" where "IOW ty nr sz \<equiv> IOC 1 ty nr sz"
abbreviation IOR :: "nat \<Rightarrow> nat \<Rightarrow> nat \<Rightarrow> u32" where "IOR ty nr sz \<equiv> IOC 2 ty nr sz"

end
