(* ===== verification/Chardrvs.thy ===== *)
theory Chardrvs
  imports Kfifo_Ring User_Memory
begin

text \<open>
  The character driver of \<open>02.chardrvs\<close> (\<open>chardrvs.c\<close>, \<open>chardrvs.h\<close>): one FIFO device with a limit on its
  users, a write that sleeps until its data fits, \<open>ioctl\<close>, \<open>poll\<close>, and the \<open>/proc\<close> and debugfs files,
  which are compiled in because the header defines \<open>CHARDRVS_DBG\<close>. The file operations work on the
  private structure the file points to; \<open>chardrvs_init\<close> and \<open>chardrvs_clean\<close> work on the driver state that
  holds it. Pointers are integers. This theory treats the calls one at a time, the next one
  (\<open>Chardrvs_Conc\<close>) their interleavings.
\<close>

section \<open>The private device\<close>

definition CHARDRVS_IOC_MAGIC :: nat where "CHARDRVS_IOC_MAGIC = of_char (CHR ''c'')"
definition CHARDRVS_IOC_MAX_NR :: nat where "CHARDRVS_IOC_MAX_NR = 3"

text \<open>The size in the numbers is that of \<open>int *\<close>, as wide as \<open>unsigned long\<close>: \<open>wsz\<close> bytes.\<close>

definition CHARDRVS_IOCSETNRUSERS :: "nat \<Rightarrow> u32" where
  "CHARDRVS_IOCSETNRUSERS wsz = IOW CHARDRVS_IOC_MAGIC 1 wsz"
definition CHARDRVS_IOCGETNRUSERS :: "nat \<Rightarrow> u32" where
  "CHARDRVS_IOCGETNRUSERS wsz = IOR CHARDRVS_IOC_MAGIC 2 wsz"
definition CHARDRVS_IOCQUERYAVAILSIZE :: "nat \<Rightarrow> u32" where
  "CHARDRVS_IOCQUERYAVAILSIZE wsz = IOR CHARDRVS_IOC_MAGIC 3 wsz"

definition DEFAULT_NR_USERS :: u32 where "DEFAULT_NR_USERS = 2"
definition DEFAULT_FIFO_SIZE :: int where "DEFAULT_FIFO_SIZE = 16"

record 'f chardrvs_priv_dev =
  cd_dev_nr :: dev_t
  cd_new_class :: int
  cd_myfifo :: 'f
  cd_r_f_lock :: bool
  cd_w_f_lock :: bool
  cd_proc_file :: int
  cd_dbg_dir :: int
  cd_dbg_file :: int
  cd_lock :: bool
  usrs_cnt :: u32
  avail :: u32
  ref_cntr :: u32

record 'f cd_state = "chr_res kworld" +
  cd_fsize :: int
  chardrvs_ptr :: "'f chardrvs_priv_dev option"

definition zeroed_priv_dev :: "'f kfifo_api \<Rightarrow> 'f chardrvs_priv_dev" where
  "zeroed_priv_dev K = \<lparr>cd_dev_nr = 0, cd_new_class = 0, cd_myfifo = kf_zero K, cd_r_f_lock = False,
     cd_w_f_lock = False, cd_proc_file = 0, cd_dbg_dir = 0, cd_dbg_file = 0, cd_lock = False,
     usrs_cnt = 0, avail = 0, ref_cntr = 0\<rparr>"

section \<open>File operations\<close>

definition chardrvs_open :: "'f chardrvs_priv_dev \<Rightarrow> int \<times> 'f chardrvs_priv_dev" where
  "chardrvs_open dev =
     (if usrs_cnt dev \<le> ref_cntr dev then (- EMFILE, dev)
      else (0, dev\<lparr>ref_cntr := ref_cntr dev + 1\<rparr>))"

definition chardrvs_release :: "'f chardrvs_priv_dev \<Rightarrow> int \<times> 'f chardrvs_priv_dev" where
  "chardrvs_release dev =
     (if 0 < sint (ref_cntr dev) then (0, dev\<lparr>ref_cntr := ref_cntr dev - 1\<rparr>) else (0, dev))"

text \<open>
  The last section of both transfers: take the general lock and recompute \<open>avail\<close>. \<open>mutex_lock\<close> cannot be
  interrupted.
\<close>

definition cd_update_avail ::
    "'f kfifo_api \<Rightarrow> 'r \<Rightarrow> 'f chardrvs_priv_dev \<Rightarrow> ('r, 'f chardrvs_priv_dev) outcome" where
  "cd_update_avail K r dev =
     (if cd_lock dev then Blocked dev
      else Ret r (dev\<lparr>avail := of_nat (kf_avail K (cd_myfifo dev))\<rparr>))"

text \<open>
  \<open>sig1\<close> and \<open>sig2\<close>: a signal arrives while the caller waits for the mutex, and while it waits for room.
\<close>

definition chardrvs_write_fifo ::
    "'f kfifo_api \<Rightarrow> bool \<Rightarrow> bool \<Rightarrow> byte list \<Rightarrow> nat \<Rightarrow> 'f chardrvs_priv_dev \<Rightarrow>
     (int, 'f chardrvs_priv_dev) outcome" where
  "chardrvs_write_fifo K sig1 sig2 buf count dev =
     (if cd_w_f_lock dev then (if sig1 then Ret (- ERESTARTSYS) dev else Blocked dev)
      else
        let dev1 = dev\<lparr>cd_w_f_lock := True\<rparr>
        in if \<not> count \<le> unat (avail dev1)
           then (if sig2 then Ret (- ERESTARTSYS) dev1 else Blocked dev1)
           else
             let (ret, copiedin, f) = kf_from_user K (cd_myfifo dev1) buf count;
                 dev2 = dev1\<lparr>cd_myfifo := f, cd_w_f_lock := False\<rparr>
             in cd_update_avail K (if ret \<noteq> 0 then ret else int copiedin) dev2)"

definition chardrvs_read_fifo ::
    "'f kfifo_api \<Rightarrow> bool \<Rightarrow> nat \<Rightarrow> nat \<Rightarrow> 'f chardrvs_priv_dev \<Rightarrow>
     (int \<times> byte list, 'f chardrvs_priv_dev) outcome" where
  "chardrvs_read_fifo K sig room count dev =
     (if cd_r_f_lock dev then (if sig then Ret (- ERESTARTSYS, []) dev else Blocked dev)
      else
        let dev1 = dev\<lparr>cd_r_f_lock := True\<rparr>;
            (ret, out, f) = kf_to_user K (cd_myfifo dev1) room count;
            dev2 = dev1\<lparr>cd_myfifo := f, cd_r_f_lock := False\<rparr>
        in cd_update_avail K (if ret \<noteq> 0 then ret else int (length out), out) dev2)"

definition chardrvs_ioctl ::
    "nat \<Rightarrow> bool \<Rightarrow> u32 \<Rightarrow> nat \<Rightarrow> memory \<Rightarrow> 'f chardrvs_priv_dev \<Rightarrow>
     int \<times> memory \<times> 'f chardrvs_priv_dev" where
  "chardrvs_ioctl wsz cap_sys_admin cmd arg m dev =
     (if IOC_TYPE cmd \<noteq> CHARDRVS_IOC_MAGIC then (- ENOTTY, m, dev)
      else if CHARDRVS_IOC_MAX_NR < IOC_NR cmd then (- ENOTTY, m, dev)
      else if cmd = CHARDRVS_IOCSETNRUSERS wsz then
        (if \<not> cap_sys_admin then (- EPERM, m, dev)
         else let (ret, x) = get_user wsz m arg in (ret, m, dev\<lparr>usrs_cnt := word_of_int x\<rparr>))
      else if cmd = CHARDRVS_IOCGETNRUSERS wsz then
        (if \<not> cap_sys_admin then (- EPERM, m, dev)
         else let (ret, m') = put_user wsz (uint (usrs_cnt dev)) m arg in (ret, m', dev))
      else if cmd = CHARDRVS_IOCQUERYAVAILSIZE wsz then
        let (ret, m') = put_user wsz (uint (avail dev)) m arg in (ret, m', dev)
      else (- ENOTTY, m, dev))"

abbreviation (input) POLLOUT :: u32 where "POLLOUT \<equiv> 4"

definition chardrvs_poll :: "'f chardrvs_priv_dev \<Rightarrow> (u32, 'f chardrvs_priv_dev) outcome" where
  "chardrvs_poll dev =
     (if cd_lock dev then Blocked dev
      else
        let mask = 0;
            mask = (if avail dev \<noteq> 0 then mask OR POLLOUT else mask)
        in Ret mask dev)"

text \<open>The \<open>/proc\<close> file; \<open>%d\<close> reads the unsigned counters as signed. The debugfs file prints pointers
  through a parameter \<open>fmt_p\<close>; \<open>at\<close> gives the addresses of the structure's members.\<close>

definition nl :: string where "nl = [CHR 0x0A]"

definition chardrvs_read_procmem :: "int \<Rightarrow> 'f chardrvs_priv_dev \<Rightarrow> string" where
  "chardrvs_read_procmem fsize dev =
     ''Fifo max number of users '' @ dec (sint (usrs_cnt dev)) @ nl @
     ''Fifo avialable entries '' @ dec (sint (avail dev)) @ nl @
     ''Fifo current number of users '' @ dec (sint (ref_cntr dev)) @ nl @
     ''Fifo size '' @ dec fsize @ nl"

definition chardrvs_read_dbgmem ::
    "(int \<Rightarrow> string) \<Rightarrow> (string \<Rightarrow> int) \<Rightarrow> 'f chardrvs_priv_dev \<Rightarrow> string" where
  "chardrvs_read_dbgmem fmt_p at dev =
     ''class at '' @ fmt_p (cd_new_class dev) @ '', cdev at '' @ fmt_p (at ''new_cdevice'') @
     '', fifo at '' @ fmt_p (at ''myfifo'') @ nl @
     ''proc file at '' @ fmt_p (cd_proc_file dev) @ '', dbg dir at '' @ fmt_p (cd_dbg_dir dev) @
     '', dbg file at '' @ fmt_p (cd_dbg_file dev) @ nl"

section \<open>Loading and unloading\<close>

definition upd_dev :: "('f chardrvs_priv_dev \<Rightarrow> 'f chardrvs_priv_dev) \<Rightarrow> ('f cd_state, unit) state" where
  "upd_dev f = modify (\<lambda>s. s\<lparr>chardrvs_ptr := map_option f (chardrvs_ptr s)\<rparr>)"

definition setup_chardrvs :: "'f kfifo_api \<Rightarrow> ('f cd_state, int) state" where
  "setup_chardrvs K = do {
     upd_dev (\<lambda>d. d\<lparr>cd_lock := False, cd_r_f_lock := False, cd_w_f_lock := False,
       usrs_cnt := DEFAULT_NR_USERS\<rparr>);
     fsize \<leftarrow> gets cd_fsize;
     ret \<leftarrow> kfifo_alloc 0 fsize;
     (if ret = 0
      then upd_dev (\<lambda>d. d\<lparr>cd_myfifo := kf_make K fsize, avail := word_of_int fsize\<rparr>)
      else return ());
     return ret
   }"

definition uninstall_chardrvs :: "('f cd_state, unit) state" where
  "uninstall_chardrvs = do { kfifo_free 0; return () }"

abbreviation proc_remove :: "string \<Rightarrow> ((chr_res, 'z) kworld_scheme, int) state" where
  "proc_remove s \<equiv> call (Put (Proc_file s))"
abbreviation debugfs_remove :: "string \<Rightarrow> ((chr_res, 'z) kworld_scheme, int) state" where
  "debugfs_remove s \<equiv> call (Put (Debug_dir s))"

definition cd_err_free_dev :: "int \<Rightarrow> ('f cd_state, int) state" where
  "cd_err_free_dev ret = do { kfree ''chardrvs''; return ret }"

definition cd_err_unregister_chrdev :: "int \<Rightarrow> ('f cd_state, int) state" where
  "cd_err_unregister_chrdev ret = do { unregister_chrdev_region; cd_err_free_dev ret }"

definition cd_err_destruct_class :: "int \<Rightarrow> ('f cd_state, int) state" where
  "cd_err_destruct_class ret = do { class_destroy; cd_err_unregister_chrdev ret }"

definition cd_err_destruct_device :: "dev_t \<Rightarrow> int \<Rightarrow> ('f cd_state, int) state" where
  "cd_err_destruct_device nr ret = do { device_destroy nr; cd_err_destruct_class ret }"

definition cd_err_unregister_cdev :: "dev_t \<Rightarrow> int \<Rightarrow> ('f cd_state, int) state" where
  "cd_err_unregister_cdev nr ret = do { cdev_del 0; cd_err_destruct_device nr ret }"

definition cd_err_setup_chardrvs :: "dev_t \<Rightarrow> int \<Rightarrow> ('f cd_state, int) state" where
  "cd_err_setup_chardrvs nr ret = do { uninstall_chardrvs; cd_err_unregister_cdev nr ret }"

definition cd_err_procfs :: "dev_t \<Rightarrow> int \<Rightarrow> ('f cd_state, int) state" where
  "cd_err_procfs nr ret = do { proc_remove ''chardrvsinfo''; cd_err_setup_chardrvs nr ret }"

definition cd_err_dbg_dir :: "dev_t \<Rightarrow> int \<Rightarrow> ('f cd_state, int) state" where
  "cd_err_dbg_dir nr ret = do { debugfs_remove ''chardrvsdbg''; cd_err_procfs nr ret }"

text \<open>The part of \<open>chardrvs_init\<close> that is compiled under \<open>CHARDRVS_DBG\<close>.\<close>

definition chardrvs_init_dbg :: "dev_t \<Rightarrow> ('f cd_state, int) state" where
  "chardrvs_init_dbg nr = do {
     proc_file \<leftarrow> call (Get (Proc_file ''chardrvsinfo'') []);
     upd_dev (\<lambda>d. d\<lparr>cd_proc_file := proc_file\<rparr>);
     if proc_file = 0 then cd_err_setup_chardrvs nr (- ENOMEM)
     else do {
       dbg_dir \<leftarrow> call (Get (Debug_dir ''chardrvsdbg'') []);
       upd_dev (\<lambda>d. d\<lparr>cd_dbg_dir := dbg_dir\<rparr>);
       if dbg_dir = 0 then cd_err_procfs nr (- ENOMEM)
       else do {
         dbg_file \<leftarrow> call (Do ''debugfs_create_file'' [dbg_dir]);
         upd_dev (\<lambda>d. d\<lparr>cd_dbg_file := dbg_file\<rparr>);
         if dbg_file = 0 then cd_err_dbg_dir nr (- ENOMEM)
         else return 0
       }}}"

definition chardrvs_init :: "'f kfifo_api \<Rightarrow> ('f cd_state, int) state" where
  "chardrvs_init K = do {
     mem \<leftarrow> kmalloc ''chardrvs'';
     if mem = 0 then do { modify (\<lambda>s. s\<lparr>chardrvs_ptr := None\<rparr>); return (- ENOMEM) }
     else do {
       modify (\<lambda>s. s\<lparr>chardrvs_ptr := Some (zeroed_priv_dev K)\<rparr>);
       (ret, nr) \<leftarrow> alloc_chrdev_region 0 1;
       if ret < 0 then cd_err_free_dev ret
       else do {
         upd_dev (\<lambda>d. d\<lparr>cd_dev_nr := word_of_int nr\<rparr>);
         new_class \<leftarrow> class_create;
         upd_dev (\<lambda>d. d\<lparr>cd_new_class := new_class\<rparr>);
         if IS_ERR new_class then cd_err_unregister_chrdev (PTR_ERR new_class)
         else do {
           device \<leftarrow> device_create (word_of_int nr);
           if IS_ERR device then cd_err_destruct_class (PTR_ERR device)
           else do {
             cdev_init 0;
             ret \<leftarrow> cdev_add 0 (word_of_int nr);
             if ret \<noteq> 0 then cd_err_destruct_device (word_of_int nr) ret
             else do {
               ret \<leftarrow> setup_chardrvs K;
               if ret \<noteq> 0 then cd_err_unregister_cdev (word_of_int nr) ret
               else chardrvs_init_dbg (word_of_int nr)
             }}}}}}"

text \<open>
  \<open>chardrvs_clean\<close> reads the pointer left by \<open>chardrvs_init\<close>; a \<open>NULL\<close> there would be dereferenced,
  which the model logs as the call \<open>oops\<close>.
\<close>

definition chardrvs_clean :: "('f cd_state, unit) state" where
  "chardrvs_clean = do {
     ptr \<leftarrow> gets chardrvs_ptr;
     (case ptr of
        None \<Rightarrow> do { call (Do ''oops'' []); return () }
      | Some dev \<Rightarrow> do {
          cdev_del 0;
          device_destroy (cd_dev_nr dev);
          class_destroy;
          unregister_chrdev_region;
          uninstall_chardrvs;
          proc_remove ''chardrvsinfo'';
          debugfs_remove ''chardrvsdbg'';
          kfree ''chardrvs'';
          return ()
        })
   }"

lemmas cd_label_defs = cd_err_free_dev_def cd_err_unregister_chrdev_def cd_err_destruct_class_def
  cd_err_destruct_device_def cd_err_unregister_cdev_def cd_err_setup_chardrvs_def cd_err_procfs_def
  cd_err_dbg_dir_def setup_chardrvs_def uninstall_chardrvs_def upd_dev_def chardrvs_init_dbg_def

section \<open>The sequential contract: an all-or-nothing pipe\<close>

text \<open>
  The specification keeps the room the driver believes in beside the queue: a write of more bytes than that
  sleeps (\<open>None\<close>), any other is appended whole.
\<close>

fun fit_run :: "nat \<Rightarrow> pipe_op list \<Rightarrow> nat \<Rightarrow> byte list \<Rightarrow> (byte list \<times> nat \<times> byte list) option" where
  "fit_run n [] a q = Some ([], a, q)"
| "fit_run n (Write_op bs # xs) a q =
     (if length bs \<le> a then fit_run n xs (n - length (q @ bs)) (q @ bs) else None)"
| "fit_run n (Read_op k # xs) a q =
     (case fit_run n xs (n - length (drop k q)) (drop k q) of
        None \<Rightarrow> None | Some (out, a', q') \<Rightarrow> Some (take k q @ out, a', q'))"

definition cd_unlocked :: "'f chardrvs_priv_dev \<Rightarrow> bool" where
  "cd_unlocked d \<longleftrightarrow> \<not> cd_r_f_lock d \<and> \<not> cd_w_f_lock d \<and> \<not> cd_lock d"

context kfifo_contract
begin

definition cd_ok :: "'f chardrvs_priv_dev \<Rightarrow> bool" where
  "cd_ok d \<longleftrightarrow> cd_unlocked d \<and> fok (cd_myfifo d) \<and>
     unat (avail d) \<le> cap (cd_myfifo d) - length (content (cd_myfifo d))"

lemma unat_avail: "fok f \<Longrightarrow> unat (of_nat (kf_avail K f) :: u32) = cap f - length (content f)"
  using avail [of f] cap_bound [of f] by (simp add: unsigned_of_nat take_bit_nat_eq_self_iff)

lemma cd_write_fits:
  assumes "cd_ok d" and "length bs \<le> unat (avail d)"
  shows "\<exists>d'. chardrvs_write_fifo K sig1 sig2 bs (length bs) d = Ret (int (length bs)) d' \<and> cd_ok d' \<and>
    cap (cd_myfifo d') = cap (cd_myfifo d) \<and> content (cd_myfifo d') = content (cd_myfifo d) @ bs \<and>
    unat (avail d') = cap (cd_myfifo d) - length (content (cd_myfifo d) @ bs)"
proof -
  have f: "fok (cd_myfifo d)" and l: "length bs \<le> cap (cd_myfifo d) - length (content (cd_myfifo d))"
    using assms by (auto simp: cd_ok_def)
  from from_user_exact [OF f, of bs] l obtain f' where
    "kf_from_user K (cd_myfifo d) bs (length bs) = (0, length bs, f')" "fok f'"
    "cap f' = cap (cd_myfifo d)" "content f' = content (cd_myfifo d) @ bs"
    by (auto simp: min_def)
  then show ?thesis
    using assms by (simp add: chardrvs_write_fifo_def cd_update_avail_def cd_ok_def cd_unlocked_def unat_avail)
qed

lemma cd_write_sleeps:
  assumes "cd_ok d" and "\<not> length bs \<le> unat (avail d)"
  shows "chardrvs_write_fifo K sig1 False bs (length bs) d = Blocked (d\<lparr>cd_w_f_lock := True\<rparr>)"
  using assms by (simp add: chardrvs_write_fifo_def cd_ok_def cd_unlocked_def)

lemma cd_read_delivers:
  assumes "cd_ok d"
  shows "\<exists>d'. chardrvs_read_fifo K sig k k d =
      Ret (int (length (take k (content (cd_myfifo d)))), take k (content (cd_myfifo d))) d' \<and> cd_ok d' \<and>
    cap (cd_myfifo d') = cap (cd_myfifo d) \<and> content (cd_myfifo d') = drop k (content (cd_myfifo d)) \<and>
    unat (avail d') = cap (cd_myfifo d) - length (drop k (content (cd_myfifo d)))"
proof -
  have f: "fok (cd_myfifo d)" using assms by (auto simp: cd_ok_def)
  from to_user_exact [OF f, of k] obtain f' where
    "kf_to_user K (cd_myfifo d) k k = (0, take k (content (cd_myfifo d)), f')" "fok f'"
    "cap f' = cap (cd_myfifo d)" "content f' = drop k (content (cd_myfifo d))"
    by auto
  then show ?thesis
    using assms by (simp add: chardrvs_read_fifo_def cd_update_avail_def cd_ok_def cd_unlocked_def unat_avail)
qed

lemma cd_run_refines:
  "cd_ok d \<Longrightarrow>
     case fit_run (cap (cd_myfifo d)) xs (unat (avail d)) (content (cd_myfifo d)) of
       None \<Rightarrow> pipe_run (chardrvs_write_fifo K False False) (chardrvs_read_fifo K False) xs d = None
     | Some (out, a, q) \<Rightarrow> \<exists>t. pipe_run (chardrvs_write_fifo K False False) (chardrvs_read_fifo K False) xs d = Some (out, t) \<and>
         cd_ok t \<and> unat (avail t) = a \<and> content (cd_myfifo t) = q"
proof (induction xs arbitrary: d)
  case Nil
  then show ?case by simp
next
  case (Cons x xs)
  show ?case
  proof (cases x)
    case (Write_op bs)
    show ?thesis
    proof (cases "length bs \<le> unat (avail d)")
      case True
      from cd_write_fits [OF Cons.prems True] obtain d1 where
        "chardrvs_write_fifo K False False bs (length bs) d = Ret (int (length bs)) d1" "cd_ok d1"
        "cap (cd_myfifo d1) = cap (cd_myfifo d)" "content (cd_myfifo d1) = content (cd_myfifo d) @ bs"
        "unat (avail d1) = cap (cd_myfifo d) - length (content (cd_myfifo d) @ bs)" by blast
      with Cons.IH [of d1] True Write_op show ?thesis by (auto split: option.splits)
    next
      case False
      with cd_write_sleeps [OF Cons.prems False] Write_op show ?thesis by simp
    qed
  next
    case (Read_op k)
    from cd_read_delivers [OF Cons.prems, of False k] obtain d1 where
      "chardrvs_read_fifo K False k k d =
         Ret (int (length (take k (content (cd_myfifo d)))), take k (content (cd_myfifo d))) d1" "cd_ok d1"
      "cap (cd_myfifo d1) = cap (cd_myfifo d)" "content (cd_myfifo d1) = drop k (content (cd_myfifo d))"
      "unat (avail d1) = cap (cd_myfifo d) - length (drop k (content (cd_myfifo d)))" by blast
    with Cons.IH [of d1] Read_op show ?thesis by (auto split: option.splits)
  qed
qed

lemma cd_run_refines_unfolded:
  assumes "fok (cd_myfifo d)" and "cd_unlocked d"
    and "unat (avail d) \<le> cap (cd_myfifo d) - length (content (cd_myfifo d))"
  shows "case fit_run (cap (cd_myfifo d)) xs (unat (avail d)) (content (cd_myfifo d)) of
       None \<Rightarrow> pipe_run (chardrvs_write_fifo K False False) (chardrvs_read_fifo K False) xs d = None
     | Some (out, a, q) \<Rightarrow> \<exists>t. pipe_run (chardrvs_write_fifo K False False) (chardrvs_read_fifo K False) xs d = Some (out, t) \<and>
         unat (avail t) = a \<and> content (cd_myfifo t) = q"
  using cd_run_refines [of d xs] assms by (auto simp: cd_ok_def split: option.splits)

end

text \<open>What the specification guarantees: order, no loss, and the bound.\<close>

fun written :: "pipe_op list \<Rightarrow> byte list" where
  "written [] = []"
| "written (Write_op bs # xs) = bs @ written xs"
| "written (Read_op k # xs) = written xs"

lemma fit_run_lossless: "fit_run n xs a q = Some (out, a', q') \<Longrightarrow> out @ q' = q @ written xs"
proof (induction n xs a q arbitrary: out a' q' rule: fit_run.induct)
  case (3 n k xs a q)
  from "3.prems" obtain out1 where 1:
    "fit_run n xs (n - length (drop k q)) (drop k q) = Some (out1, a', q')" "out = take k q @ out1"
    by (auto split: option.splits)
  from "3.IH" [OF 1(1)] 1(2) show ?case by (simp flip: append_assoc) simp
qed (auto split: if_splits)

section \<open>The driver's entry points, one call at a time\<close>

datatype cd_call =
    Cd_open
  | Cd_release
  | Cd_write bool bool "byte list" nat
  | Cd_read bool nat nat
  | Cd_ioctl bool u32 nat
  | Cd_poll

text \<open>The dispatch of \<open>chardrvs_fops\<close>, with the result of the call as an integer.\<close>

fun cd_step ::
    "'f kfifo_api \<Rightarrow> nat \<Rightarrow> cd_call \<Rightarrow> memory \<times> 'f chardrvs_priv_dev \<Rightarrow> int option \<times> memory \<times> 'f chardrvs_priv_dev" where
  "cd_step K wsz Cd_open (m, d) = (case chardrvs_open d of (r, d') \<Rightarrow> (Some r, m, d'))"
| "cd_step K wsz Cd_release (m, d) = (case chardrvs_release d of (r, d') \<Rightarrow> (Some r, m, d'))"
| "cd_step K wsz (Cd_write sig1 sig2 buf n) (m, d) =
     (let x = chardrvs_write_fifo K sig1 sig2 buf n d in (returned x, m, state_of x))"
| "cd_step K wsz (Cd_read sig room n) (m, d) =
     (let x = chardrvs_read_fifo K sig room n d in (map_option fst (returned x), m, state_of x))"
| "cd_step K wsz (Cd_ioctl adm cmd arg) (m, d) =
     (case chardrvs_ioctl wsz adm cmd arg m d of (r, m', d') \<Rightarrow> (Some r, m', d'))"
| "cd_step K wsz Cd_poll (m, d) =
     (let x = chardrvs_poll d in (map_option uint (returned x), m, state_of x))"

fun cd_calls ::
    "'f kfifo_api \<Rightarrow> nat \<Rightarrow> cd_call list \<Rightarrow> memory \<times> 'f chardrvs_priv_dev \<Rightarrow>
     int option list \<times> memory \<times> 'f chardrvs_priv_dev" where
  "cd_calls K wsz [] s = ([], s)"
| "cd_calls K wsz (c # cs) s =
     (case cd_step K wsz c s of (r, s') \<Rightarrow> case cd_calls K wsz cs s' of (rs, s'') \<Rightarrow> (r # rs, s''))"

fun is_write :: "cd_call \<Rightarrow> bool" where
  "is_write (Cd_write sig1 sig2 buf n) = True"
| "is_write _ = False"

lemma cd_open_keeps: "cd_w_f_lock (snd (chardrvs_open d)) = cd_w_f_lock d"
  by (simp add: chardrvs_open_def)
lemma cd_release_keeps: "cd_w_f_lock (snd (chardrvs_release d)) = cd_w_f_lock d"
  by (simp add: chardrvs_release_def)
lemma cd_read_keeps: "cd_w_f_lock (state_of (chardrvs_read_fifo K sig room n d)) = cd_w_f_lock d"
  by (simp add: chardrvs_read_fifo_def cd_update_avail_def Let_def split: prod.splits)
lemma cd_ioctl_keeps: "cd_w_f_lock (snd (snd (chardrvs_ioctl wsz adm cmd arg m d))) = cd_w_f_lock d"
  by (simp add: chardrvs_ioctl_def Let_def split: prod.splits)
lemma cd_ioctl_result_keeps:
  "chardrvs_ioctl wsz adm cmd arg m d = (r, m', d') \<Longrightarrow> cd_w_f_lock d' = cd_w_f_lock d"
  using cd_ioctl_keeps [of wsz adm cmd arg m d] by simp
lemma cd_poll_keeps: "state_of (chardrvs_poll d) = d"
  by (simp add: chardrvs_poll_def Let_def)
lemma cd_write_stuck:
  "cd_w_f_lock d \<Longrightarrow> state_of (chardrvs_write_fifo K sig1 sig2 buf n d) = d \<and>
     returned (chardrvs_write_fifo K sig1 sig2 buf n d) \<in> {None, Some (- ERESTARTSYS)}"
  by (simp add: chardrvs_write_fifo_def)

lemmas cd_keeps = cd_open_keeps cd_release_keeps cd_read_keeps cd_ioctl_keeps cd_poll_keeps

lemma cd_step_write_locked:
  assumes "cd_w_f_lock d" and "cd_step K wsz c (m, d) = (r, m', d')"
  shows "cd_w_f_lock d' \<and> (is_write c \<longrightarrow> r \<in> {None, Some (- ERESTARTSYS)} \<and> d' = d)"
proof (cases c)
  case (Cd_write sig1 sig2 buf n)
  with assms cd_write_stuck [OF assms(1), of K sig1 sig2 buf n] show ?thesis by (auto simp: Let_def)
qed (use assms cd_open_keeps [of d] cd_release_keeps [of d] cd_read_keeps [of K _ _ _ d]
    cd_poll_keeps [of d] in \<open>auto simp: Let_def cd_ioctl_result_keeps split: prod.splits\<close>)

lemma cd_calls_write_locked:
  "cd_w_f_lock d \<Longrightarrow> cd_calls K wsz cs (m, d) = (rs, m', d') \<Longrightarrow>
     cd_w_f_lock d' \<and> length rs = length cs \<and>
     (\<forall>i<length cs. is_write (cs ! i) \<longrightarrow> rs ! i \<in> {None, Some (- ERESTARTSYS)})"
proof (induction cs arbitrary: m d rs)
  case Nil
  then show ?case by simp
next
  case (Cons c cs)
  obtain r m1 d1 where 1: "cd_step K wsz c (m, d) = (r, m1, d1)" using prod_cases3 by blast
  with Cons.prems obtain rs1 where 2: "cd_calls K wsz cs (m1, d1) = (rs1, m', d')" "rs = r # rs1"
    by (auto split: prod.splits)
  from cd_step_write_locked [OF Cons.prems(1) 1] Cons.IH [OF _ 2(1)] 2(2) show ?case
    by (auto simp: nth_Cons split: nat.splits)
qed

end
