(* ===== verification/Chardrvs_Props.thy ===== *)
theory Chardrvs_Props
  imports Chardrvs
begin

text \<open>
  The properties of \<open>02.chardrvs\<close> taken one call at a time, and its test program \<open>app-test.c\<close>.
\<close>

definition cd_example_dev :: "ring chardrvs_priv_dev" where
  "cd_example_dev = (zeroed_priv_dev ring_api)\<lparr>cd_myfifo := kf_make ring_api 4, usrs_cnt := 2, avail := 4\<rparr>"

lemma round_pow2_numeral:
  "round_pow2 (numeral k) s =
     (if s \<le> 2 ^ pred_numeral k then round_pow2 (pred_numeral k) s else 2 ^ Suc (pred_numeral k))"
  by (simp add: numeral_eq_Suc)

lemma ring_make4: "ring_make 4 = \<lparr>rdata = replicate 4 0, rin = 0, rout = 0\<rparr>"
  by (simp add: ring_make_def round_pow2_numeral)

lemma cd_example_ok:
  "ring_ok (cd_myfifo cd_example_dev)" "cd_unlocked cd_example_dev"
  "unat (avail cd_example_dev) \<le> ring_cap (cd_myfifo cd_example_dev) - length (ring_content (cd_myfifo cd_example_dev))"
  "ring_cap (cd_myfifo cd_example_dev) = 4" "ring_content (cd_myfifo cd_example_dev) = []"
  by (simp_all add: cd_example_dev_def cd_unlocked_def zeroed_priv_dev_def ring_make4
      ring_ok_def ring_cap_def ring_len_def ring_content_def)

text \<open>
  C4. Used one call at a time the device is an all-or-nothing byte pipe: a write of at most \<open>avail\<close> bytes is
  appended whole and never short, a longer one sleeps; reads deliver in order; after every transfer \<open>avail\<close> is exactly the
  free room; and what was delivered followed by what is left is what was there followed by everything
  written.
\<close>

theorem chardrvs_refines_fit_pipe:
  assumes "kfifo_contract K content cap fok"
    and "fok (cd_myfifo d)" and "cd_unlocked d"
    and "unat (avail d) \<le> cap (cd_myfifo d) - length (content (cd_myfifo d))"
  shows "case fit_run (cap (cd_myfifo d)) xs (unat (avail d)) (content (cd_myfifo d)) of
       None \<Rightarrow> pipe_run (chardrvs_write_fifo K False False) (chardrvs_read_fifo K False) xs d = None
     | Some (out, a, q) \<Rightarrow>
         (\<exists>t. pipe_run (chardrvs_write_fifo K False False) (chardrvs_read_fifo K False) xs d = Some (out, t) \<and>
           unat (avail t) = a \<and> content (cd_myfifo t) = q) \<and>
         out @ q = content (cd_myfifo d) @ written xs"
  using kfifo_contract.cd_run_refines_unfolded [OF assms, of xs]
  by (auto dest: fit_run_lossless split: option.splits)

theorem chardrvs_refines_fit_pipe_witness:
  "(\<exists>t. pipe_run (chardrvs_write_fifo ring_api False False) (chardrvs_read_fifo ring_api False)
      [Write_op [1, 2, 3], Read_op 2, Write_op [4, 5, 6]] cd_example_dev = Some ([1, 2], t) \<and>
      ring_content (cd_myfifo t) = [3, 4, 5, 6]) \<and>
   pipe_run (chardrvs_write_fifo ring_api False False) (chardrvs_read_fifo ring_api False)
      [Write_op [1, 2, 3], Write_op [4, 5]] cd_example_dev = None"
  using chardrvs_refines_fit_pipe [OF kring.kfifo_contract_axioms cd_example_ok(1-3),
      of "[Write_op [1, 2, 3], Read_op 2, Write_op [4, 5, 6]]"]
    chardrvs_refines_fit_pipe [OF kring.kfifo_contract_axioms cd_example_ok(1-3),
      of "[Write_op [1, 2, 3], Write_op [4, 5]]"]
  by (auto simp: cd_example_ok(4,5)) (auto simp: cd_example_dev_def)

section \<open>Loading and unloading\<close>

definition cd_loaded :: "'f cd_state \<Rightarrow> chr_res list" where
  "cd_loaded t = [Priv_mem ''chardrvs'', Chrdev_region, Dev_class,
     Dev_node (case chardrvs_ptr t of None \<Rightarrow> 0 | Some d \<Rightarrow> cd_dev_nr d), Char_dev 0, Fifo 0,
     Proc_file ''chardrvsinfo''] @
     (if Debug_dir ''chardrvsdbg'' \<in> set (failures chr_conv (ktrace t)) then [] else [Debug_dir ''chardrvsdbg''])"


definition cd_example :: "ring cd_state" where
  "cd_example = \<lparr>kres = (\<lambda>n c. case c of Get (Priv_mem s) as \<Rightarrow> 1 | Get (Proc_file s) as \<Rightarrow> 1 |
       Get (Debug_dir s) as \<Rightarrow> - 19 | Do f as \<Rightarrow> 1 | _ \<Rightarrow> 0), kout = (\<lambda>n c. 0), ktrace = [],
     cd_fsize = DEFAULT_FIFO_SIZE, chardrvs_ptr = None\<rparr>"


section \<open>The limit on users\<close>

text \<open>A run of entry points that counts the files it holds open; a file is released only if there is one.\<close>

fun cd_files ::
    "'f kfifo_api \<Rightarrow> nat \<Rightarrow> cd_call list \<Rightarrow> memory \<times> 'f chardrvs_priv_dev \<Rightarrow> nat \<Rightarrow>
     nat \<times> memory \<times> 'f chardrvs_priv_dev" where
  "cd_files K wsz [] s n = (n, s)"
| "cd_files K wsz (c # cs) s n =
     (if c = Cd_release \<and> n = 0 then cd_files K wsz cs s n
      else case cd_step K wsz c s of (r, s') \<Rightarrow>
        cd_files K wsz cs s'
          (if c = Cd_open \<and> r = Some 0 then n + 1 else if c = Cd_release then n - 1 else n))"

fun is_ioctl :: "cd_call \<Rightarrow> bool" where
  "is_ioctl (Cd_ioctl adm cmd arg) = True"
| "is_ioctl _ = False"

lemma cd_step_counts:
  assumes "cd_step K wsz c (m, d) = (r, m', d')"
  shows "ref_cntr d' =
      (if c = Cd_open \<and> r = Some 0 then ref_cntr d + 1
       else if c = Cd_release \<and> 0 < sint (ref_cntr d) then ref_cntr d - 1 else ref_cntr d) \<and>
    (c = Cd_open \<longrightarrow> (r = Some 0 \<longleftrightarrow> ref_cntr d < usrs_cnt d)) \<and>
    (\<not> is_ioctl c \<longrightarrow> usrs_cnt d' = usrs_cnt d)"
  using assms
  by (cases c) (auto simp: chardrvs_open_def chardrvs_release_def chardrvs_write_fifo_def
      chardrvs_read_fifo_def cd_update_avail_def chardrvs_ioctl_def chardrvs_poll_def Let_def
      split: prod.splits if_splits)

lemma sint_small: "n < 2 ^ 31 \<Longrightarrow> sint (of_nat n :: u32) = int n"
  by (simp add: signed_of_nat signed_take_bit_int_eq_self)

lemma unat_small: "n < 2 ^ 31 \<Longrightarrow> unat (of_nat n :: u32) = n"
  by (simp add: unsigned_of_nat take_bit_nat_eq_self_iff)

lemma cd_files_count:
  "ref_cntr d = of_nat n \<Longrightarrow> n + length cs < 2 ^ 31 \<Longrightarrow>
     cd_files K wsz cs (m, d) n = (n', m', d') \<Longrightarrow>
     ref_cntr d' = of_nat n' \<and> n' \<le> n + length cs \<and>
     ((\<forall>c\<in>set cs. \<not> is_ioctl c) \<and> n \<le> unat (usrs_cnt d) \<longrightarrow>
       n' \<le> unat (usrs_cnt d) \<and> usrs_cnt d' = usrs_cnt d)"
proof (induction cs arbitrary: m d n)
  case Nil
  then show ?case by simp
next
  case (Cons c cs)
  show ?case
  proof (cases "c = Cd_release \<and> n = 0")
    case True
    with Cons.IH [OF Cons.prems(1), of m] Cons.prems show ?thesis by auto
  next
    case False
    obtain r m1 d1 where 1: "cd_step K wsz c (m, d) = (r, m1, d1)" using prod_cases3 by blast
    let ?n = "if c = Cd_open \<and> r = Some 0 then n + 1 else if c = Cd_release then n - 1 else n"
    note step = cd_step_counts [OF 1]
    have s: "0 < sint (ref_cntr d) \<longleftrightarrow> 0 < n" "unat (ref_cntr d) = n"
      using Cons.prems(1,2) by (simp_all add: sint_small unat_small)
    have c: "ref_cntr d1 = of_nat ?n"
      using step s False Cons.prems(1) by (auto simp: of_nat_diff)
    have l: "?n + length cs < 2 ^ 31" "?n \<le> n + 1" using Cons.prems(2) by auto
    have b: "?n \<le> unat (usrs_cnt d1)" if "n \<le> unat (usrs_cnt d)" "\<not> is_ioctl c"
      using that step s(2) by (auto simp: word_less_nat_alt)
    from Cons.prems(3) 1 False have "cd_files K wsz cs (m1, d1) ?n = (n', m', d')" by simp
    from Cons.IH [OF c l(1) this] b l(2) step show ?thesis by auto
  qed
qed

text \<open>
  C9. Over any sequence of calls on the device (writes, reads, \<open>ioctl\<close>s and \<open>poll\<close>s among them) the
  counter \<open>ref_cntr\<close> is the number of files open, an open succeeds exactly while fewer files than the limit
  are open, and without an \<open>ioctl\<close> there are never more than the limit. The zeroed structure of the time before
  \<open>setup_chardrvs\<close>, when the device node already exists, refuses every open.
\<close>

theorem chardrvs_users_limited:
  assumes "ref_cntr d = 0" and "length cs < 2 ^ 31"
    and "cd_files K wsz cs (m, d) 0 = (n, m', d')"
  shows "ref_cntr d' = of_nat n \<and>
    (fst (chardrvs_open d') = 0 \<longleftrightarrow> n < unat (usrs_cnt d')) \<and>
    ((\<forall>c\<in>set cs. \<not> is_ioctl c) \<longrightarrow> n \<le> unat (usrs_cnt d)) \<and>
    fst (chardrvs_open (zeroed_priv_dev K)) = - EMFILE"
proof -
  have "ref_cntr d = of_nat 0" "0 + length cs < 2 ^ 31" using assms(1,2) by simp_all
  from cd_files_count [OF this assms(3)] have c: "ref_cntr d' = of_nat n" "n \<le> length cs"
    "(\<forall>c\<in>set cs. \<not> is_ioctl c) \<longrightarrow> n \<le> unat (usrs_cnt d)" by auto
  with assms(2) have "unat (ref_cntr d') = n" using unat_small [of n] by simp
  with c show ?thesis
    by (simp add: chardrvs_open_def zeroed_priv_dev_def word_le_nat_alt not_le)
qed

theorem chardrvs_users_limited_witness:
  "fst (cd_files ring_api 8 [Cd_open, Cd_poll, Cd_open, Cd_open, Cd_release, Cd_open, Cd_open]
     (Map.empty, cd_example_dev) 0) \<le> 2 \<and>
   fst (chardrvs_open (zeroed_priv_dev ring_api)) = - EMFILE"
proof -
  let ?cs = "[Cd_open, Cd_poll, Cd_open, Cd_open, Cd_release, Cd_open, Cd_open]"
  obtain n m' d' where r: "cd_files ring_api 8 ?cs (Map.empty, cd_example_dev) 0 = (n, m', d')"
    using prod_cases3 by blast
  have "ref_cntr cd_example_dev = 0" "usrs_cnt cd_example_dev = 2"
    by (simp_all add: cd_example_dev_def zeroed_priv_dev_def)
  with chardrvs_users_limited [OF _ _ r] show ?thesis unfolding r by simp
qed

section \<open>An interrupted writer\<close>

text \<open>
  C26. A signal that interrupts a writer waiting for room makes the write return \<open>-ERESTARTSYS\<close> with
  the mutex \<open>w_f_lock\<close> still held. Nobody releases it any more: whatever calls follow, reads that make room included, no write
  ever transfers a byte again; each sleeps on the mutex or is itself interrupted.
\<close>

theorem chardrvs_interrupted_write_kills_writers:
  assumes "\<not> cd_w_f_lock d" and "unat (avail d) < count"
    and "chardrvs_write_fifo K sig1 True buf count d = w"
    and "cd_calls K wsz cs (m, state_of w) = (rs, m', d')"
  shows "returned w = Some (- ERESTARTSYS) \<and> cd_w_f_lock d' \<and> length rs = length cs \<and>
    (\<forall>i<length cs. is_write (cs ! i) \<longrightarrow> rs ! i \<in> {None, Some (- ERESTARTSYS)})"
proof -
  have w: "w = Ret (- ERESTARTSYS) (d\<lparr>cd_w_f_lock := True\<rparr>)"
    using assms(1-3) by (auto simp: chardrvs_write_fifo_def)
  with assms(4) have "cd_calls K wsz cs (m, d\<lparr>cd_w_f_lock := True\<rparr>) = (rs, m', d')" by simp
  from cd_calls_write_locked [OF _ this] w show ?thesis by simp
qed

theorem chardrvs_interrupted_write_kills_writers_witness:
  "\<exists>r m' d'. cd_calls ring_api 8 [Cd_read False 9 9, Cd_write False False [1] 1]
      (Map.empty, state_of (chardrvs_write_fifo ring_api False True [1, 2, 3, 4, 5] 5 cd_example_dev)) = ([r, None], m', d')"
proof -
  let ?w = "chardrvs_write_fifo ring_api False True [1, 2, 3, 4, 5] 5 cd_example_dev"
  let ?cs = "[Cd_read False 9 9, Cd_write False False [1] 1]"
  obtain rs m' d' where r: "cd_calls ring_api 8 ?cs (Map.empty, state_of ?w) = (rs, m', d')"
    using prod_cases3 by blast
  have l: "\<not> cd_w_f_lock cd_example_dev" "unat (avail cd_example_dev) < 5"
    by (simp_all add: cd_example_dev_def zeroed_priv_dev_def)
  from chardrvs_interrupted_write_kills_writers [OF l refl r]
  have "length rs = 2" "rs ! 1 \<in> {None, Some (- ERESTARTSYS)}" by (force, force)
  moreover have "rs ! 1 = None"
    using r l by (auto simp: chardrvs_write_fifo_def Let_def chardrvs_read_fifo_def cd_update_avail_def
        split: prod.splits if_splits)
  ultimately have "rs = [rs ! 0, None]"
    by (auto simp: list_eq_iff_nth_eq less_Suc_eq numeral_2_eq_2)
  with r show ?thesis by (metis)
qed

section \<open>The ioctl interface and its test program\<close>

lemma ioctl_numbers [simp]:
  assumes "wsz \<in> {4, 8}"
  shows "IOC_TYPE (CHARDRVS_IOCSETNRUSERS wsz) = CHARDRVS_IOC_MAGIC"
    "IOC_TYPE (CHARDRVS_IOCGETNRUSERS wsz) = CHARDRVS_IOC_MAGIC"
    "IOC_TYPE (CHARDRVS_IOCQUERYAVAILSIZE wsz) = CHARDRVS_IOC_MAGIC"
    "IOC_NR (CHARDRVS_IOCSETNRUSERS wsz) = 1" "IOC_NR (CHARDRVS_IOCGETNRUSERS wsz) = 2"
    "IOC_NR (CHARDRVS_IOCQUERYAVAILSIZE wsz) = 3"
    "CHARDRVS_IOCGETNRUSERS wsz \<noteq> CHARDRVS_IOCSETNRUSERS wsz"
    "CHARDRVS_IOCQUERYAVAILSIZE wsz \<noteq> CHARDRVS_IOCSETNRUSERS wsz"
    "CHARDRVS_IOCQUERYAVAILSIZE wsz \<noteq> CHARDRVS_IOCGETNRUSERS wsz"
  using assms
  by (auto simp: CHARDRVS_IOCSETNRUSERS_def CHARDRVS_IOCGETNRUSERS_def CHARDRVS_IOCQUERYAVAILSIZE_def
      CHARDRVS_IOC_MAGIC_def IOC_def IOC_TYPE_def IOC_NR_def)

text \<open>The three commands on mapped addresses.\<close>

lemma ioctl_set:
  "wsz \<in> {4, 8} \<Longrightarrow> mapped m a wsz \<Longrightarrow>
     chardrvs_ioctl wsz True (CHARDRVS_IOCSETNRUSERS wsz) a m d =
       (0, m, d\<lparr>usrs_cnt := word_of_int (snd (get_user 4 m a))\<rparr>)"
  using get_user_low_word [of m a wsz]
  by (auto simp: chardrvs_ioctl_def CHARDRVS_IOC_MAX_NR_def get_user_def)

lemma ioctl_get:
  "wsz \<in> {4, 8} \<Longrightarrow> mapped m b wsz \<Longrightarrow>
     chardrvs_ioctl wsz True (CHARDRVS_IOCGETNRUSERS wsz) b m d =
       (0, snd (put_user wsz (uint (usrs_cnt d)) m b), d)"
  by (simp add: chardrvs_ioctl_def CHARDRVS_IOC_MAX_NR_def put_user_def)

lemma ioctl_query:
  "wsz \<in> {4, 8} \<Longrightarrow> mapped m b wsz \<Longrightarrow>
     chardrvs_ioctl wsz adm (CHARDRVS_IOCQUERYAVAILSIZE wsz) b m d =
       (0, snd (put_user wsz (uint (avail d)) m b), d)"
  by (simp add: chardrvs_ioctl_def CHARDRVS_IOC_MAX_NR_def put_user_def)

lemma uint_word_of_int_u32: "uint (word_of_int x :: u32) = x mod 4294967296"
  by (simp add: uint_word_of_int)

lemma get_put_users:
  assumes "wsz \<in> {4, 8}" and "mapped m b wsz"
  shows "get_user wsz (snd (put_user wsz (uint (x :: u32)) m b)) b = (0, uint x)"
proof -
  have "uint x < 256 ^ wsz" using uint_lt2p [of x] assms(1) by auto
  then show ?thesis using get_put_user [OF assms(2), of "uint x"] by simp
qed


definition cd_memory :: memory where
  "cd_memory = (\<lambda>x. if 0 < x \<and> x < 64 then Some (of_nat x) else None)"


text \<open>
  \<open>app-test.c\<close> as it is built (\<open>IOCTL_TEST\<close> on, \<open>POLL_TEST\<close> off): its two \<open>int\<close> variables are the four bytes at
  \<open>wr_num\<close> and at \<open>rd_val\<close>. The result is what it prints.
\<close>

definition app_test_main ::
    "nat \<Rightarrow> bool \<Rightarrow> nat \<Rightarrow> nat \<Rightarrow> memory \<Rightarrow> 'f chardrvs_priv_dev \<Rightarrow>
     string \<times> memory \<times> 'f chardrvs_priv_dev" where
  "app_test_main wsz cap_sys_admin wr_num rd_val m dev =
     (let WR_VALUE = IOW (of_char (CHR ''c'')) 1 wsz;
          RD_VALUE = IOR (of_char (CHR ''c'')) 2 wsz;
          m0 = write_bytes (write_bytes m wr_num (le_bytes 4 2)) rd_val (le_bytes 4 0);
          (fd, dev1) = chardrvs_open dev
      in if fd < 0 then (''Can't open chardrvs driver file'' @ nl, m0, dev1)
         else
           let (ioret, m1, dev2) = chardrvs_ioctl wsz cap_sys_admin WR_VALUE wr_num m0 dev1
           in if ioret < 0
              then (''Permissions denied...'' @ nl, m1, snd (chardrvs_release dev2))
              else
                let (r, m2, dev3) = chardrvs_ioctl wsz cap_sys_admin RD_VALUE rd_val m1 dev2;
                    shown = sint (word_of_int (snd (get_user 4 m2 rd_val)) :: u32)
                in (''rd_val '' @ dec shown @ nl, m2, snd (chardrvs_release dev3)))"

lemma app_numbers:
  "IOC 1 (of_char (CHR ''c'')) 1 wsz = CHARDRVS_IOCSETNRUSERS wsz"
  "IOC 2 (of_char (CHR ''c'')) 2 wsz = CHARDRVS_IOCGETNRUSERS wsz"
  by (simp_all add: CHARDRVS_IOCSETNRUSERS_def CHARDRVS_IOCGETNRUSERS_def CHARDRVS_IOC_MAGIC_def)

text \<open>
  The test program's numbers are the driver's, so with the capability and a free slot it prints \<open>rd_val 2\<close> and
  closes what it opened. But the driver transfers an \<open>unsigned long\<close> where the program keeps an \<open>int\<close>:
  with 8-byte longs the read also overwrites the four bytes behind \<open>rd_val\<close> with zeros, whatever variable lies there.
  With 4-byte longs it does not.
\<close>

theorem app_test_reads_back_two:
  assumes "wsz \<in> {4, 8}" and "mapped m wr_num wsz" and "mapped m rd_val wsz"
    and "wr_num + 4 \<le> rd_val \<or> rd_val + 4 \<le> wr_num"
    and "ref_cntr d < usrs_cnt d" and "ref_cntr d < 1000"
    and "app_test_main wsz True wr_num rd_val m d = (out, m', d')"
  shows "out = ''rd_val 2'' @ nl \<and> usrs_cnt d' = 2 \<and> ref_cntr d' = ref_cntr d \<and>
    (wsz = 8 \<longrightarrow> get_user 4 m' (rd_val + 4) = (0, 0)) \<and>
    (wsz = 4 \<longrightarrow> (\<forall>x. (x < wr_num \<or> wr_num + 4 \<le> x) \<and> (x < rd_val \<or> rd_val + 4 \<le> x) \<longrightarrow> m' x = m x))"
proof -
  let ?m0 = "write_bytes (write_bytes m wr_num (le_bytes 4 2)) rd_val (le_bytes 4 0)"
  let ?d1 = "d\<lparr>ref_cntr := ref_cntr d + 1\<rparr>"
  have mp: "mapped ?m0 wr_num wsz" "mapped ?m0 rd_val wsz" using assms(2,3) by simp_all
  have two: "get_user 4 ?m0 wr_num = (0, 2)"
    using assms(4) by (simp add: get_write_other get_write_same)
  have sd: "sint (ref_cntr d + 1) > 0" "ref_cntr d + 1 - 1 = ref_cntr d"
  proof -
    define k where "k = unat (ref_cntr d)"
    have k: "ref_cntr d = of_nat k" "k < 1000" using assms(6) by (simp_all add: k_def word_less_nat_alt)
    then show "sint (ref_cntr d + 1) > 0" using sint_small [of "Suc k"] by (simp add: add.commute)
  qed simp
  let ?m2 = "write_bytes ?m0 rd_val (le_bytes wsz 2)"
  have m2: "snd (put_user wsz 2 ?m0 rd_val) = ?m2" using mp(2) by (simp add: put_user_def)
  have shown: "get_user 4 ?m2 rd_val = (0, 2)"
    and behind: "wsz = 8 \<Longrightarrow> get_user 4 ?m2 (rd_val + 4) = (0, 0)"
    using assms(1) le_bytes_add [of 4 4 2]
    by (auto simp: write_bytes_append get_write_other get_write_same)
  have nle: "\<not> usrs_cnt d \<le> ref_cntr d" using assms(5) by simp
  have two_text: "dec 2 = ''2''" by (simp add: dec_def dec_nat.simps digit_def char_of_def bit_0)
  from assms(7) have r: "out = ''rd_val 2'' @ nl" "m' = ?m2" "usrs_cnt d' = 2" "ref_cntr d' = ref_cntr d"
    unfolding app_test_main_def app_numbers Let_def chardrvs_open_def
    by (auto simp: nle ioctl_set [OF assms(1) mp(1)] ioctl_get [OF assms(1) mp(2)] two shown m2 sd
        two_text chardrvs_release_def)
  with behind show ?thesis by auto
qed

theorem app_test_reads_back_two_witness:
  "\<exists>m' d'. app_test_main 8 True 16 24 cd_memory cd_example_dev = (''rd_val 2'' @ nl, m', d') \<and>
     get_user 4 m' 28 = (0, 0)"
proof -
  obtain out m' d' where r: "app_test_main 8 True 16 24 cd_memory cd_example_dev = (out, m', d')"
    using prod_cases3 by blast
  have "mapped cd_memory 16 8" "mapped cd_memory 24 8" by (simp_all add: mapped_def cd_memory_def)
  moreover have "ref_cntr cd_example_dev < usrs_cnt cd_example_dev" "ref_cntr cd_example_dev < 1000"
    by (simp_all add: cd_example_dev_def zeroed_priv_dev_def)
  ultimately show ?thesis using app_test_reads_back_two [OF _ _ _ _ _ _ r] r by simp
qed



end
