(* ===== verification/Chardrvs_Conc.thy ===== *)
theory Chardrvs_Conc
  imports Chardrvs_Props
begin

text \<open>
  The calls of \<open>02.chardrvs\<close> run by several threads at once. A thread is a program counter in
  \<open>chardrvs_write_fifo\<close>, \<open>chardrvs_read_fifo\<close> or \<open>chardrvs_open\<close>; one step of a thread is one lock operation,
  one evaluation of the wait condition, one transfer, one wake-up or one access to a shared field, so that a
  schedule is a sequence of thread numbers (with a flag that delivers a signal). The shared state is the
  private device of \<open>Chardrvs\<close>; \<open>sent\<close> and \<open>delivered\<close> record the bytes that went in and out.
\<close>

section \<open>Threads\<close>

datatype pc =
    W_start "byte list" | W_cond "byte list" | W_asleep "byte list" | W_copy "byte list"
  | W_unlock int | W_lock int | W_update int | W_unlock2 int
  | R_start nat | R_copy nat | R_wake int | R_unlock int | R_lock int | R_update int | R_unlock2 int
  | O_check | O_inc | Done int

record 'f conc =
  cdev :: "'f chardrvs_priv_dev"
  threads :: "pc list"
  sent :: "byte list"
  delivered :: "byte list"

definition goto :: "nat \<Rightarrow> pc \<Rightarrow> 'f conc \<Rightarrow> 'f conc" where
  "goto i p s = s\<lparr>threads := (threads s)[i := p]\<rparr>"

definition dev_upd :: "('f chardrvs_priv_dev \<Rightarrow> 'f chardrvs_priv_dev) \<Rightarrow> 'f conc \<Rightarrow> 'f conc" where
  "dev_upd g s = s\<lparr>cdev := g (cdev s)\<rparr>"

text \<open>\<open>wake_up_interruptible\<close>: every sleeper evaluates its condition again.\<close>

fun wake :: "pc \<Rightarrow> pc" where
  "wake (W_asleep bs) = W_cond bs"
| "wake p = p"

fun write_step :: "'f kfifo_api \<Rightarrow> nat \<Rightarrow> bool \<Rightarrow> pc \<Rightarrow> 'f conc \<Rightarrow> 'f conc option" where
  "write_step K i sig (W_start bs) s =
     (if cd_w_f_lock (cdev s) then (if sig then Some (goto i (Done (- ERESTARTSYS)) s) else None)
      else Some (goto i (W_cond bs) (dev_upd (\<lambda>d. d\<lparr>cd_w_f_lock := True\<rparr>) s)))"
| "write_step K i sig (W_cond bs) s =
     (if length bs \<le> unat (avail (cdev s)) then Some (goto i (W_copy bs) s)
      else if sig then Some (goto i (Done (- ERESTARTSYS)) s)
      else Some (goto i (W_asleep bs) s))"
| "write_step K i sig (W_asleep bs) s =
     (if \<not> sig then None
      else if length bs \<le> unat (avail (cdev s)) then Some (goto i (W_copy bs) s)
      else Some (goto i (Done (- ERESTARTSYS)) s))"
| "write_step K i sig (W_copy bs) s =
     (case kf_from_user K (cd_myfifo (cdev s)) bs (length bs) of (ret, copiedin, f) \<Rightarrow>
        Some (goto i (W_unlock (if ret \<noteq> 0 then ret else int copiedin))
          (dev_upd (\<lambda>d. d\<lparr>cd_myfifo := f\<rparr>) s\<lparr>sent := sent s @ take copiedin bs\<rparr>)))"
| "write_step K i sig (W_unlock r) s =
     Some (goto i (W_lock r) (dev_upd (\<lambda>d. d\<lparr>cd_w_f_lock := False\<rparr>) s))"
| "write_step K i sig (W_lock r) s =
     (if cd_lock (cdev s) then None
      else Some (goto i (W_update r) (dev_upd (\<lambda>d. d\<lparr>cd_lock := True\<rparr>) s)))"
| "write_step K i sig (W_update r) s =
     Some (goto i (W_unlock2 r)
       (dev_upd (\<lambda>d. d\<lparr>avail := of_nat (kf_avail K (cd_myfifo d))\<rparr>) s))"
| "write_step K i sig (W_unlock2 r) s =
     Some (goto i (Done r) (dev_upd (\<lambda>d. d\<lparr>cd_lock := False\<rparr>) s))"
| "write_step K i sig _ s = None"

fun read_step :: "'f kfifo_api \<Rightarrow> nat \<Rightarrow> bool \<Rightarrow> pc \<Rightarrow> 'f conc \<Rightarrow> 'f conc option" where
  "read_step K i sig (R_start k) s =
     (if cd_r_f_lock (cdev s) then (if sig then Some (goto i (Done (- ERESTARTSYS)) s) else None)
      else Some (goto i (R_copy k) (dev_upd (\<lambda>d. d\<lparr>cd_r_f_lock := True\<rparr>) s)))"
| "read_step K i sig (R_copy k) s =
     (case kf_to_user K (cd_myfifo (cdev s)) k k of (ret, out, f) \<Rightarrow>
        Some (goto i (R_wake (if ret \<noteq> 0 then ret else int (length out)))
          (dev_upd (\<lambda>d. d\<lparr>cd_myfifo := f\<rparr>) s\<lparr>delivered := delivered s @ out\<rparr>)))"
| "read_step K i sig (R_wake r) s =
     Some (goto i (R_unlock r) (s\<lparr>threads := map wake (threads s)\<rparr>))"
| "read_step K i sig (R_unlock r) s =
     Some (goto i (R_lock r) (dev_upd (\<lambda>d. d\<lparr>cd_r_f_lock := False\<rparr>) s))"
| "read_step K i sig (R_lock r) s =
     (if cd_lock (cdev s) then None
      else Some (goto i (R_update r) (dev_upd (\<lambda>d. d\<lparr>cd_lock := True\<rparr>) s)))"
| "read_step K i sig (R_update r) s =
     Some (goto i (R_unlock2 r)
       (dev_upd (\<lambda>d. d\<lparr>avail := of_nat (kf_avail K (cd_myfifo d))\<rparr>) s))"
| "read_step K i sig (R_unlock2 r) s =
     Some (goto i (Done r) (dev_upd (\<lambda>d. d\<lparr>cd_lock := False\<rparr>) s))"
| "read_step K i sig _ s = None"

fun open_step :: "nat \<Rightarrow> pc \<Rightarrow> 'f conc \<Rightarrow> 'f conc option" where
  "open_step i O_check s =
     (if usrs_cnt (cdev s) \<le> ref_cntr (cdev s) then Some (goto i (Done (- EMFILE)) s)
      else Some (goto i O_inc s))"
| "open_step i O_inc s =
     Some (goto i (Done 0) (dev_upd (\<lambda>d. d\<lparr>ref_cntr := ref_cntr d + 1\<rparr>) s))"
| "open_step i _ s = None"

definition thread_step :: "'f kfifo_api \<Rightarrow> nat \<Rightarrow> bool \<Rightarrow> 'f conc \<Rightarrow> 'f conc option" where
  "thread_step K i sig s =
     (if i < length (threads s)
      then (case write_step K i sig (threads s ! i) s of
              Some t \<Rightarrow> Some t
            | None \<Rightarrow> (case read_step K i sig (threads s ! i) s of
                Some t \<Rightarrow> Some t | None \<Rightarrow> open_step i (threads s ! i) s))
      else None)"

inductive csteps :: "'f kfifo_api \<Rightarrow> 'f conc \<Rightarrow> 'f conc \<Rightarrow> bool" for K where
  refl: "csteps K s s"
| step: "csteps K s t \<Longrightarrow> thread_step K i sig t = Some u \<Longrightarrow> csteps K s u"

inductive_cases cstepsE: "csteps K s t"

text \<open>A schedule, run step by step; a thread that cannot move makes the schedule fail.\<close>

fun schedule :: "'f kfifo_api \<Rightarrow> (nat \<times> bool) list \<Rightarrow> 'f conc \<Rightarrow> 'f conc option" where
  "schedule K [] s = Some s"
| "schedule K ((i, sig) # xs) s =
     (case thread_step K i sig s of None \<Rightarrow> None | Some t \<Rightarrow> schedule K xs t)"

lemma csteps_head: "csteps K t u \<Longrightarrow> thread_step K i sig s = Some t \<Longrightarrow> csteps K s u"
  by (induction rule: csteps.induct) (auto intro: csteps.intros)

lemma schedule_csteps: "schedule K xs s = Some t \<Longrightarrow> csteps K s t"
  by (induction K xs s rule: schedule.induct) (auto intro: csteps.refl csteps_head split: option.splits)

section \<open>The invariant\<close>

fun in_w :: "pc \<Rightarrow> bool" where
  "in_w (W_cond bs) = True" | "in_w (W_asleep bs) = True" | "in_w (W_copy bs) = True"
| "in_w (W_unlock r) = True" | "in_w _ = False"

fun in_r :: "pc \<Rightarrow> bool" where
  "in_r (R_copy k) = True" | "in_r (R_wake r) = True" | "in_r (R_unlock r) = True" | "in_r _ = False"

fun in_l :: "pc \<Rightarrow> bool" where
  "in_l (W_update r) = True" | "in_l (W_unlock2 r) = True"
| "in_l (R_update r) = True" | "in_l (R_unlock2 r) = True" | "in_l _ = False"

definition inside :: "(pc \<Rightarrow> bool) \<Rightarrow> 'f conc \<Rightarrow> nat" where
  "inside P s = length (filter P (threads s))"

lemma count_update:
  "i < length xs \<Longrightarrow> length (filter P (xs[i := x])) + (if P (xs ! i) then 1 else 0) =
     length (filter P xs) + (if P x then 1 else 0)"
proof (induction xs arbitrary: i)
  case (Cons y ys)
  then show ?case by (cases i) auto
qed simp

lemma wake_same [simp]: "in_w (wake p) = in_w p" "in_r (wake p) = in_r p" "in_l (wake p) = in_l p"
  by (cases p; simp)+

lemma inside_goto:
  "i < length (threads s) \<Longrightarrow> inside P (goto i p s) + (if P (threads s ! i) then 1 else 0) =
     inside P s + (if P p then 1 else 0)"
  by (simp add: inside_def goto_def count_update)

lemma inside_simps [simp]:
  "inside P (dev_upd g s) = inside P s" "inside P (s\<lparr>sent := x\<rparr>) = inside P s"
  "inside P (s\<lparr>delivered := x\<rparr>) = inside P s"
  "threads (dev_upd g s) = threads s" "cdev (dev_upd g s) = g (cdev s)" "cdev (goto i p s) = cdev s"
  "sent (goto i p s) = sent s" "delivered (goto i p s) = delivered s"
  "sent (dev_upd g s) = sent s" "delivered (dev_upd g s) = delivered s"
  by (simp_all add: inside_def dev_upd_def goto_def)

lemma inside_wake:
  "inside in_w (s\<lparr>threads := map wake (threads s)\<rparr>) = inside in_w s"
  "inside in_r (s\<lparr>threads := map wake (threads s)\<rparr>) = inside in_r s"
  "inside in_l (s\<lparr>threads := map wake (threads s)\<rparr>) = inside in_l s"
  by (simp_all add: inside_def filter_map comp_def)

text \<open>At most one thread is between a lock operation and its unlock, and only while the mutex is held.\<close>

definition guards :: "(pc \<Rightarrow> bool) \<Rightarrow> ('f chardrvs_priv_dev \<Rightarrow> bool) \<Rightarrow> 'f conc \<Rightarrow> bool" where
  "guards P L s \<longleftrightarrow> inside P s \<le> (if L (cdev s) then 1 else 0)"

definition locks_ok :: "'f conc \<Rightarrow> bool" where
  "locks_ok s \<longleftrightarrow> guards in_w cd_w_f_lock s \<and> guards in_r cd_r_f_lock s \<and> guards in_l cd_lock s"

lemma inside_pos: "i < length (threads s) \<Longrightarrow> P (threads s ! i) \<Longrightarrow> 0 < inside P s"
  by (auto simp: inside_def filter_empty_conv intro!: nth_mem)

lemma inside_goto_eq:
  "i < length (threads s) \<Longrightarrow> inside P (goto i p s) =
     inside P s + (if P p then 1 else 0) - (if P (threads s ! i) then 1 else 0)"
  using inside_goto [of i s P p] by simp

lemma write_step_in_w:
  assumes "guards in_w cd_w_f_lock s" and "i < length (threads s)" and "write_step K i sig (threads s ! i) s = Some t"
  shows "guards in_w cd_w_f_lock t"
  using assms inside_pos [OF assms(2), of in_w]
  by (cases "threads s ! i")
    (auto simp: guards_def inside_goto_eq inside_wake split: if_splits prod.splits)

lemma write_step_in_r:
  assumes "guards in_r cd_r_f_lock s" and "i < length (threads s)" and "write_step K i sig (threads s ! i) s = Some t"
  shows "guards in_r cd_r_f_lock t"
  using assms inside_pos [OF assms(2), of in_r]
  by (cases "threads s ! i")
    (auto simp: guards_def inside_goto_eq inside_wake split: if_splits prod.splits)

lemma write_step_in_l:
  assumes "guards in_l cd_lock s" and "i < length (threads s)" and "write_step K i sig (threads s ! i) s = Some t"
  shows "guards in_l cd_lock t"
  using assms inside_pos [OF assms(2), of in_l]
  by (cases "threads s ! i")
    (auto simp: guards_def inside_goto_eq inside_wake split: if_splits prod.splits)

lemma read_step_in_w:
  assumes "guards in_w cd_w_f_lock s" and "i < length (threads s)" and "read_step K i sig (threads s ! i) s = Some t"
  shows "guards in_w cd_w_f_lock t"
  using assms inside_pos [OF assms(2), of in_w]
  by (cases "threads s ! i")
    (auto simp: guards_def inside_goto_eq inside_wake split: if_splits prod.splits)

lemma read_step_in_r:
  assumes "guards in_r cd_r_f_lock s" and "i < length (threads s)" and "read_step K i sig (threads s ! i) s = Some t"
  shows "guards in_r cd_r_f_lock t"
  using assms inside_pos [OF assms(2), of in_r]
  by (cases "threads s ! i")
    (auto simp: guards_def inside_goto_eq inside_wake split: if_splits prod.splits)

lemma read_step_in_l:
  assumes "guards in_l cd_lock s" and "i < length (threads s)" and "read_step K i sig (threads s ! i) s = Some t"
  shows "guards in_l cd_lock t"
  using assms inside_pos [OF assms(2), of in_l]
  by (cases "threads s ! i")
    (auto simp: guards_def inside_goto_eq inside_wake split: if_splits prod.splits)

lemma open_step_locks:
  assumes "locks_ok s" and "i < length (threads s)" and "open_step i (threads s ! i) s = Some t"
  shows "locks_ok t"
  using assms
  by (cases "threads s ! i") (auto simp: locks_ok_def guards_def inside_goto_eq split: if_splits)

lemma write_step_locks:
  "locks_ok s \<Longrightarrow> i < length (threads s) \<Longrightarrow> write_step K i sig (threads s ! i) s = Some t \<Longrightarrow> locks_ok t"
  unfolding locks_ok_def by (blast intro: write_step_in_w write_step_in_r write_step_in_l)

lemma read_step_locks:
  "locks_ok s \<Longrightarrow> i < length (threads s) \<Longrightarrow> read_step K i sig (threads s ! i) s = Some t \<Longrightarrow> locks_ok t"
  unfolding locks_ok_def by (blast intro: read_step_in_w read_step_in_r read_step_in_l)

lemma thread_step_locks:
  "thread_step K i sig s = Some t \<Longrightarrow> locks_ok s \<Longrightarrow> locks_ok t"
  by (auto simp: thread_step_def split: if_splits option.splits
      intro: write_step_locks read_step_locks open_step_locks)

text \<open>The bytes: in a FIFO, nothing lost, nothing reordered, never more than it holds.\<close>

context kfifo_contract
begin

definition stream_ok :: "nat \<Rightarrow> 'f conc \<Rightarrow> bool" where
  "stream_ok n s \<longleftrightarrow> fok (cd_myfifo (cdev s)) \<and> cap (cd_myfifo (cdev s)) = n \<and>
     sent s = delivered s @ content (cd_myfifo (cdev s))"

lemma thread_step_stream:
  assumes "thread_step K i sig s = Some t" and ok: "stream_ok n s"
  shows "stream_ok n t"
proof -
  have f: "fok (cd_myfifo (cdev s))" using ok by (simp add: stream_ok_def)
  have "stream_ok n t" if "write_step K i sig p s = Some t" for p
    using that ok
    by (cases p) (auto simp: stream_ok_def dest!: from_user_cases [OF f] split: if_splits prod.splits)
  moreover have "stream_ok n t" if "read_step K i sig p s = Some t" for p
    using that ok
    by (cases p) (auto simp: stream_ok_def goto_def dest!: to_user_cases [OF f] split: if_splits prod.splits)
  moreover have "stream_ok n t" if "open_step i p s = Some t" for p
    using that ok by (cases p) (auto simp: stream_ok_def split: if_splits)
  ultimately show ?thesis
    using assms(1) by (auto simp: thread_step_def split: if_splits option.splits)
qed

lemma csteps_stream: "csteps K s t \<Longrightarrow> stream_ok n s \<Longrightarrow> stream_ok n t"
  by (induction rule: csteps.induct) (auto intro: thread_step_stream)

end

lemma csteps_locks: "csteps K s t \<Longrightarrow> locks_ok s \<Longrightarrow> locks_ok t"
  by (induction rule: csteps.induct) (auto intro: thread_step_locks)

context kfifo_contract
begin

lemma cd_wakeup_lost:
  assumes "fok (cd_myfifo d)" and "cd_unlocked d" and "content (cd_myfifo d) = q"
    and "unat (avail d) = cap (cd_myfifo d) - length q"
    and "unat (avail d) < length bs" and "length bs \<le> cap (cd_myfifo d)"
  shows "\<exists>t. csteps K \<lparr>cdev = d, threads = [W_start bs, R_start (length q)], sent = q, delivered = []\<rparr> t \<and>
    threads t = [W_asleep bs, Done (int (length q))] \<and> length bs \<le> unat (avail (cdev t)) \<and>
    delivered t = q \<and> (\<forall>i. thread_step K i False t = None)"
proof -
  let ?s = "\<lparr>cdev = d, threads = [W_start bs, R_start (length q)], sent = q, delivered = []\<rparr>"
  let ?sched = "[(0, False), (0, False), (1, False), (1, False), (1, False), (0, False),
    (1, False), (1, False), (1, False), (1, False)]"
  from to_user_exact [OF assms(1), of "length q"] assms(3) obtain f where
    f: "kf_to_user K (cd_myfifo d) (length q) (length q) = (0, q, f)" "fok f" "cap f = cap (cd_myfifo d)"
      "content f = []"
    by auto
  have u: "unat (of_nat (kf_avail K f) :: u32) = cap (cd_myfifo d)"
    using unat_avail [OF f(2)] f(3,4) by simp
  have "\<exists>t. schedule K ?sched ?s = Some t \<and>
    threads t = [W_asleep bs, Done (int (length q))] \<and> length bs \<le> unat (avail (cdev t)) \<and>
    delivered t = q \<and> (\<forall>i. thread_step K i False t = None)"
    using assms(2,5,6) f(1) u
    by (simp add: thread_step_def goto_def dev_upd_def cd_unlocked_def not_le nth_Cons split: nat.split)
  then show ?thesis using schedule_csteps by blast
qed

lemma cd_short_write:
  assumes "fok (cd_myfifo d)" and "cd_unlocked d" and "content (cd_myfifo d) = []"
    and "unat (avail d) = cap (cd_myfifo d)" and "length bs = cap (cd_myfifo d)"
    and "length bs' \<le> length bs"
  shows "\<exists>t. csteps K \<lparr>cdev = d, threads = [W_start bs, W_start bs'], sent = [], delivered = []\<rparr> t \<and>
      threads t ! 1 = Done 0"
proof -
  let ?s = "\<lparr>cdev = d, threads = [W_start bs, W_start bs'], sent = [], delivered = []\<rparr>"
  let ?sched = "[(0, False), (0, False), (0, False), (0, False), (1, False), (1, False), (1, False),
    (1, False), (1, False), (1, False), (1, False)]"
  from from_user_exact [OF assms(1), of bs] assms(3,5) obtain f where
    f: "kf_from_user K (cd_myfifo d) bs (cap (cd_myfifo d)) = (0, cap (cd_myfifo d), f)" "fok f"
      "cap f = cap (cd_myfifo d)" "content f = bs"
    by auto
  from from_user_exact [OF f(2), of bs'] f assms(5) obtain g where
    g: "kf_from_user K f bs' (length bs') = (0, 0, g)" by auto
  have "\<exists>t. schedule K ?sched ?s = Some t \<and> threads t ! 1 = Done 0"
    using assms f(1) g by (simp add: thread_step_def goto_def dev_upd_def cd_unlocked_def)
  then show ?thesis using schedule_csteps by blast
qed

end

lemma cd_open_race:
  assumes "ref_cntr d < usrs_cnt d" and "ref_cntr d + 1 = usrs_cnt d"
  shows "\<exists>t. csteps K \<lparr>cdev = d, threads = [O_check, O_check], sent = [], delivered = []\<rparr> t \<and>
      threads t = [Done 0, Done 0] \<and> ref_cntr (cdev t) = usrs_cnt d + 1"
proof -
  have nle: "\<not> usrs_cnt d \<le> ref_cntr d" using assms(1) by simp
  have "\<exists>t. schedule K [(0, False), (1, False), (0, False), (1, False)]
      \<lparr>cdev = d, threads = [O_check, O_check], sent = [], delivered = []\<rparr> = Some t \<and>
    threads t = [Done 0, Done 0] \<and> ref_cntr (cdev t) = usrs_cnt d + 1"
    using nle by (simp add: thread_step_def goto_def dev_upd_def) (simp flip: assms(2))
  then show ?thesis using schedule_csteps by blast
qed

section \<open>Properties\<close>

text \<open>
  C1. Whatever the interleaving and whatever signals arrive, at most one thread is inside each of the three
  critical sections, so that the kfifo has one writer and one reader at a time as it requires; and the bytes
  delivered followed by the bytes in the FIFO are exactly the bytes sent, in order, never more than the FIFO holds.
\<close>

theorem chardrvs_threads_exclude:
  assumes "kfifo_contract K content cap fok"
    and "csteps K s t"
    and "\<forall>p\<in>set (threads s). \<not> in_w p \<and> \<not> in_r p \<and> \<not> in_l p"
    and "fok (cd_myfifo (cdev s))" and "sent s = delivered s @ content (cd_myfifo (cdev s))"
  shows "inside in_w t \<le> 1 \<and> inside in_r t \<le> 1 \<and> inside in_l t \<le> 1 \<and>
    sent t = delivered t @ content (cd_myfifo (cdev t)) \<and>
    length (content (cd_myfifo (cdev t))) \<le> cap (cd_myfifo (cdev s))"
proof -
  have "filter in_w (threads s) = []" "filter in_r (threads s) = []" "filter in_l (threads s) = []"
    using assms(3) by (auto simp: filter_empty_conv)
  then have "locks_ok s" by (simp add: locks_ok_def guards_def inside_def)
  from csteps_locks [OF assms(2) this] have "locks_ok t" .
  moreover have "kfifo_contract.stream_ok content cap fok (cap (cd_myfifo (cdev s))) s"
    using assms(4,5) kfifo_contract.stream_ok_def [OF assms(1)] by blast
  then have "kfifo_contract.stream_ok content cap fok (cap (cd_myfifo (cdev s))) t"
    by (rule kfifo_contract.csteps_stream [OF assms(1,2)])
  ultimately show ?thesis
    using kfifo_contract.bounded [OF assms(1), of "cd_myfifo (cdev t)"]
    by (auto simp: kfifo_contract.stream_ok_def [OF assms(1)] locks_ok_def guards_def split: if_splits)
qed

theorem chardrvs_threads_exclude_witness:
  "\<exists>t. csteps ring_api \<lparr>cdev = cd_example_dev, threads = [W_start [1, 2], R_start 1], sent = [], delivered = []\<rparr> t \<and>
     threads t = [W_unlock 2, R_copy 1] \<and> inside in_w t \<le> 1 \<and>
     length (ring_content (cd_myfifo (cdev t))) \<le> 4"
proof -
  let ?s = "\<lparr>cdev = cd_example_dev, threads = [W_start [1, 2], R_start 1], sent = [], delivered = []\<rparr>"
  have "\<exists>t. schedule ring_api [(0, False), (0, False), (0, False), (1, False)] ?s = Some t \<and>
      threads t = [W_unlock 2, R_copy 1]"
    by (simp add: thread_step_def goto_def dev_upd_def cd_example_dev_def zeroed_priv_dev_def
        ring_from_user_def ring_make4 ring_cap_def ring_len_def)
  then obtain t where t: "csteps ring_api ?s t" "threads t = [W_unlock 2, R_copy 1]"
    using schedule_csteps by blast
  from chardrvs_threads_exclude [OF kring.kfifo_contract_axioms t(1)] cd_example_ok
  have "inside in_w t \<le> 1 \<and> length (ring_content (cd_myfifo (cdev t))) \<le> 4" by simp
  with t show ?thesis by blast
qed

text \<open>
  C25. The wake-up comes too early. A writer that finds too little room goes to sleep; a reader makes enough
  room for it and wakes it, but only afterwards updates \<open>avail\<close>. There is a schedule on which the writer looks at the
  old value and sleeps again, and then no thread can move any more: the writer sleeps although its
  data fits, until another reader comes or a signal.
\<close>

theorem chardrvs_wakeup_lost:
  assumes "kfifo_contract K content cap fok"
    and "fok (cd_myfifo d)" and "cd_unlocked d" and "content (cd_myfifo d) = q"
    and "unat (avail d) = cap (cd_myfifo d) - length q"
    and "unat (avail d) < length bs" and "length bs \<le> cap (cd_myfifo d)"
  shows "\<exists>t. csteps K \<lparr>cdev = d, threads = [W_start bs, R_start (length q)], sent = q, delivered = []\<rparr> t \<and>
    threads t = [W_asleep bs, Done (int (length q))] \<and> length bs \<le> unat (avail (cdev t)) \<and>
    delivered t = q \<and> (\<forall>i. thread_step K i False t = None)"
  by (rule kfifo_contract.cd_wakeup_lost [OF assms])

definition cd_half_full :: "ring chardrvs_priv_dev" where
  "cd_half_full = cd_example_dev\<lparr>cd_myfifo := \<lparr>rdata = [1, 2, 0, 0], rin = 2, rout = 0\<rparr>, avail := 2\<rparr>"

theorem chardrvs_wakeup_lost_witness:
  "\<exists>t. csteps ring_api \<lparr>cdev = cd_half_full, threads = [W_start [3, 4, 5], R_start 2], sent = [1, 2], delivered = []\<rparr> t \<and>
    threads t = [W_asleep [3, 4, 5], Done 2] \<and> 3 \<le> unat (avail (cdev t))"
proof -
  have four: "Suc (Suc (Suc (Suc 0))) = 4" and two: "[0..<2] = [0, 1]" by (simp_all add: upt_rec)
  have "ring_ok (cd_myfifo cd_half_full)" "cd_unlocked cd_half_full"
    "ring_content (cd_myfifo cd_half_full) = [1, 2]" "ring_cap (cd_myfifo cd_half_full) = 4"
    "unat (avail cd_half_full) = 2"
    by (simp_all add: cd_half_full_def cd_example_dev_def zeroed_priv_dev_def cd_unlocked_def ring_ok_def
        ring_cap_def ring_len_def ring_content_def ring_at_def four two)
  with chardrvs_wakeup_lost [OF kring.kfifo_contract_axioms, of cd_half_full "[1, 2]" "[3, 4, 5]"]
  show ?thesis by (auto simp: numeral_2_eq_2 numeral_3_eq_3)
qed

text \<open>
  Two checks are not atomic with what they guard. The value of \<open>avail\<close> is updated outside \<open>w_f_lock\<close>, so a second
  writer can pass the wait on the room the first has just used up, and its write returns 0 instead of sleeping; and two opens can
  both pass the limit before either counts itself, so that more files are open than the limit
  allows.
\<close>

theorem chardrvs_stale_checks:
  assumes "kfifo_contract K content cap fok"
    and "fok (cd_myfifo d)" and "cd_unlocked d" and "content (cd_myfifo d) = []"
    and "unat (avail d) = cap (cd_myfifo d)" and "length bs = cap (cd_myfifo d)" and "bs' \<noteq> []"
    and "length bs' \<le> length bs" and "ref_cntr d + 1 = usrs_cnt d" and "ref_cntr d < usrs_cnt d"
  shows "(\<exists>t. csteps K \<lparr>cdev = d, threads = [W_start bs, W_start bs'], sent = [], delivered = []\<rparr> t \<and>
      threads t ! 1 = Done 0) \<and>
    (\<exists>t. csteps K \<lparr>cdev = d, threads = [O_check, O_check], sent = [], delivered = []\<rparr> t \<and>
      threads t = [Done 0, Done 0] \<and> ref_cntr (cdev t) = usrs_cnt d + 1)"
  using kfifo_contract.cd_short_write [OF assms(1-6)] assms cd_open_race [of d K] by blast

theorem chardrvs_stale_checks_witness:
  "\<exists>t. csteps ring_api \<lparr>cdev = cd_example_dev\<lparr>ref_cntr := 1\<rparr>, threads = [O_check, O_check], sent = [], delivered = []\<rparr> t \<and>
    threads t = [Done 0, Done 0] \<and> ref_cntr (cdev t) = 3"
proof -
  let ?d = "cd_example_dev\<lparr>ref_cntr := 1\<rparr>"
  have "ring_ok (cd_myfifo ?d)" "cd_unlocked ?d" "ring_content (cd_myfifo ?d) = []"
    "unat (avail ?d) = ring_cap (cd_myfifo ?d)" "length [1, 2, 3, 4 :: byte] = ring_cap (cd_myfifo ?d)"
    "ref_cntr ?d + 1 = usrs_cnt ?d" "ref_cntr ?d < usrs_cnt ?d" "usrs_cnt ?d + 1 = 3"
    using cd_example_ok by (simp_all add: cd_unlocked_def) (simp_all add: cd_example_dev_def)
  with chardrvs_stale_checks [OF kring.kfifo_contract_axioms, of ?d "[1, 2, 3, 4]" "[1]"]
  show ?thesis by (metis length_Cons length_greater_0_conv list.size(3) list.distinct(1) One_nat_def Suc_le_eq zero_less_Suc)
qed

end
