(* ===== verification/Pipe_Threads.thy ===== *)
theory Pipe_Threads
  imports Kfifo_Ring
begin

text \<open>
  Concurrent use of a device that guards its FIFO with one mutex for writers and one for readers, as the
  drivers of \<open>01\<close>, \<open>03\<close>, \<open>07\<close>, \<open>08\<close> and \<open>12\<close> do. A thread makes one call, in three steps: it takes the mutex,
  transfers the bytes, and gives the mutex back. The record \<open>two_mutex\<close> names the pieces a driver has for these steps,
  and the locale \<open>two_mutex_device\<close> says how they compose to the driver's write and read
  functions and what the transfers do to the queue.

  A schedule is a list of threads to try, each with a flag that says whether a signal is pending for it; a thread
  that cannot move is passed over. \<open>td_log\<close> records the transfers in the order in which they happen.
\<close>

section \<open>Threads and schedules\<close>

record 'd two_mutex =
  tm_w :: "'d \<Rightarrow> bool"
  tm_r :: "'d \<Rightarrow> bool"
  tm_set_w :: "bool \<Rightarrow> 'd \<Rightarrow> 'd"
  tm_set_r :: "bool \<Rightarrow> 'd \<Rightarrow> 'd"
  tm_in :: "byte list \<Rightarrow> 'd \<Rightarrow> int \<times> 'd"
  tm_out :: "nat \<Rightarrow> 'd \<Rightarrow> int \<times> byte list \<times> 'd"

datatype call_pc =
    Want_write "byte list"
  | In_write "byte list"
  | Wrote int
  | Want_read nat
  | In_read nat
  | Did_read int "byte list"
  | Finished int "byte list"

type_synonym transfer = "nat \<times> pipe_op \<times> byte list"

record 'd threads =
  td_dev :: 'd
  td_pcs :: "call_pc list"
  td_log :: "transfer list"

text \<open>A move yields the next point, the device, and the transfer if it made one.\<close>

fun call_move ::
    "'d two_mutex \<Rightarrow> bool \<Rightarrow> call_pc \<Rightarrow> 'd \<Rightarrow> (call_pc \<times> 'd \<times> (pipe_op \<times> byte list) option) option" where
  "call_move D sig (Want_write bs) d =
     (if tm_w D d then (if sig then Some (Finished (- ERESTARTSYS) [], d, None) else None)
      else Some (In_write bs, tm_set_w D True d, None))"
| "call_move D sig (In_write bs) d =
     (case tm_in D bs d of (r, d') \<Rightarrow> Some (Wrote r, d', Some (Write_op bs, [])))"
| "call_move D sig (Wrote r) d = Some (Finished r [], tm_set_w D False d, None)"
| "call_move D sig (Want_read k) d =
     (if tm_r D d then (if sig then Some (Finished (- ERESTARTSYS) [], d, None) else None)
      else Some (In_read k, tm_set_r D True d, None))"
| "call_move D sig (In_read k) d =
     (case tm_out D k d of (r, out, d') \<Rightarrow> Some (Did_read r out, d', Some (Read_op k, out)))"
| "call_move D sig (Did_read r out) d = Some (Finished r out, tm_set_r D False d, None)"
| "call_move D sig (Finished r out) d = None"

definition try_thread :: "'d two_mutex \<Rightarrow> nat \<Rightarrow> bool \<Rightarrow> 'd threads \<Rightarrow> 'd threads" where
  "try_thread D i sig s =
     (if i < length (td_pcs s)
      then (case call_move D sig (td_pcs s ! i) (td_dev s) of
              None \<Rightarrow> s
            | Some (p, d, x) \<Rightarrow> \<lparr>td_dev = d, td_pcs = (td_pcs s)[i := p],
                td_log = td_log s @ (case x of None \<Rightarrow> [] | Some (c, out) \<Rightarrow> [(i, c, out)])\<rparr>)
      else s)"

fun run_threads :: "'d two_mutex \<Rightarrow> (nat \<times> bool) list \<Rightarrow> 'd threads \<Rightarrow> 'd threads" where
  "run_threads D [] s = s"
| "run_threads D ((i, sig) # sch) s = run_threads D sch (try_thread D i sig s)"

text \<open>What the threads start from: calls not begun.\<close>

fun fresh_call :: "call_pc \<Rightarrow> bool" where
  "fresh_call (Want_write bs) = True"
| "fresh_call (Want_read k) = True"
| "fresh_call p = False"

definition start_threads :: "'d \<Rightarrow> call_pc list \<Rightarrow> 'd threads" where
  "start_threads d ps = \<lparr>td_dev = d, td_pcs = ps, td_log = []\<rparr>"

text \<open>One call, made by a thread that is alone on the device.\<close>

definition run_alone :: "'d two_mutex \<Rightarrow> bool \<Rightarrow> call_pc \<Rightarrow> 'd \<Rightarrow> (int \<times> byte list, 'd) outcome" where
  "run_alone D sig p d =
     (let u = run_threads D (replicate 3 (0, sig)) (start_threads d [p])
      in case td_pcs u of [Finished r out] \<Rightarrow> Ret (r, out) (td_dev u) | _ \<Rightarrow> Blocked (td_dev u))"

text \<open>The points inside the two critical sections, and those after the transfer.\<close>

fun holds_w :: "call_pc \<Rightarrow> bool" where
  "holds_w (In_write bs) = True" | "holds_w (Wrote r) = True" | "holds_w p = False"

fun holds_r :: "call_pc \<Rightarrow> bool" where
  "holds_r (In_read k) = True" | "holds_r (Did_read r out) = True" | "holds_r p = False"

text \<open>The steps still to be made.\<close>

fun steps_left :: "call_pc \<Rightarrow> nat" where
  "steps_left (Want_write bs) = 3" | "steps_left (In_write bs) = 2" | "steps_left (Wrote r) = 1"
| "steps_left (Want_read k) = 3" | "steps_left (In_read k) = 2" | "steps_left (Did_read r out) = 1"
| "steps_left (Finished r out) = 0"

fun is_finished :: "call_pc \<Rightarrow> bool" where
  "is_finished (Finished r out) = True"
| "is_finished p = False"

lemma is_finished_iff: "is_finished p \<longleftrightarrow> steps_left p = 0"
  by (cases p) auto

definition work_left :: "'d threads \<Rightarrow> nat" where
  "work_left s = sum_list (map steps_left (td_pcs s))"

lemma work_left_0: "work_left s = 0 \<longleftrightarrow> (\<forall>p\<in>set (td_pcs s). is_finished p)"
  by (auto simp: work_left_def is_finished_iff)

lemma length_try [simp]: "length (td_pcs (try_thread D i sig s)) = length (td_pcs s)"
  by (auto simp: try_thread_def split: option.splits)

lemma length_run [simp]: "length (td_pcs (run_threads D sch s)) = length (td_pcs s)"
  by (induction D sch s rule: run_threads.induct) auto

lemma run_threads_append: "run_threads D (xs @ ys) s = run_threads D ys (run_threads D xs s)"
  by (induction D xs s rule: run_threads.induct) auto

text \<open>A move makes a call shorter by at least one step; without a signal by exactly one.\<close>

lemma call_move_shorter:
  "call_move D sig p d = Some (q, d', x) \<Longrightarrow> steps_left q < steps_left p"
  by (cases p) (auto split: if_splits prod.splits)

lemma sum_list_update_less:
  "i < length xs \<Longrightarrow> y < xs ! i \<Longrightarrow> sum_list (xs[i := y]) < sum_list (xs :: nat list)"
  using elem_le_sum_list [of i xs] by (simp add: sum_list_update)

lemma try_thread_work:
  "try_thread D i sig s = s \<or> work_left (try_thread D i sig s) < work_left s"
  by (auto simp: try_thread_def work_left_def map_update sum_list_update_less call_move_shorter
      split: option.splits)

text \<open>Work never grows, and a schedule that leaves it as it was moved nobody.\<close>

lemma run_threads_work:
  "work_left (run_threads D sch s) \<le> work_left s \<and>
   (work_left (run_threads D sch s) = work_left s \<longrightarrow> (\<forall>(i, sig)\<in>set sch. try_thread D i sig s = s))"
proof (induction sch arbitrary: s)
  case (Cons e sch)
  obtain i sig where e: "e = (i, sig)" by (cases e)
  show ?case
    using Cons.IH [of "try_thread D i sig s"] try_thread_work [of D i sig s] unfolding e
    by (auto dest: le_less_trans)
qed simp

lemma run_threads_log: "\<exists>l. td_log (run_threads D sch s) = td_log s @ l"
proof (induction D sch s rule: run_threads.induct)
  case (2 D i sig sch s)
  then obtain l where "td_log (run_threads D sch (try_thread D i sig s)) = td_log (try_thread D i sig s) @ l" ..
  moreover have "\<exists>l. td_log (try_thread D i sig s) = td_log s @ l"
    by (auto simp: try_thread_def split: option.splits)
  ultimately show ?case by auto
qed simp

lemma try_thread_moves:
  assumes "p \<in> set (td_pcs s)" and "call_move D sig p (td_dev s) \<noteq> None"
  shows "\<exists>i<length (td_pcs s). try_thread D i sig s \<noteq> s"
proof -
  from assms obtain i q d x where i: "i < length (td_pcs s)"
      and m: "call_move D sig (td_pcs s ! i) (td_dev s) = Some (q, d, x)"
    by (auto simp: in_set_conv_nth)
  have "work_left (try_thread D i sig s) < work_left s"
    using i m call_move_shorter [OF m]
    by (simp add: try_thread_def work_left_def map_update sum_list_update_less)
  then have "try_thread D i sig s \<noteq> s" by (metis less_irrefl)
  with i show ?thesis by blast
qed

lemma holder_moves: "holds_w p \<or> holds_r p \<Longrightarrow> call_move D sig p d \<noteq> None"
  by (cases p) (auto split: prod.splits)

lemma run_alone_simps:
  "run_alone D sig (Want_write bs) d =
     (if tm_w D d then (if sig then Ret (- ERESTARTSYS, []) d else Blocked d)
      else case tm_in D bs (tm_set_w D True d) of (r, d1) \<Rightarrow> Ret (r, []) (tm_set_w D False d1))"
  "run_alone D sig (Want_read k) d =
     (if tm_r D d then (if sig then Ret (- ERESTARTSYS, []) d else Blocked d)
      else case tm_out D k (tm_set_r D True d) of (r, out, d1) \<Rightarrow> Ret (r, out) (tm_set_r D False d1))"
  by (simp_all add: run_alone_def numeral_3_eq_3 try_thread_def start_threads_def split: prod.splits)

text \<open>One round tries every thread once, with no signal pending.\<close>

definition one_round :: "nat \<Rightarrow> (nat \<times> bool) list" where
  "one_round n = map (\<lambda>i. (i, False)) [0..<n]"

fun rounds :: "nat \<Rightarrow> nat \<Rightarrow> (nat \<times> bool) list" where
  "rounds 0 n = []"
| "rounds (Suc m) n = one_round n @ rounds m n"

lemma spec_run_snoc:
  "spec_run n (xs @ [x]) q =
     (fst (spec_run n xs q) @ fst (spec_step n x (snd (spec_run n xs q))),
      snd (spec_step n x (snd (spec_run n xs q))))"
  by (induction n xs q rule: spec_run.induct) (auto split: prod.splits)

lemma count_list_update:
  "i < length xs \<Longrightarrow> length (filter P (xs[i := x])) + (if P (xs ! i) then 1 else 0) =
     length (filter P xs) + (if P x then 1 else 0)"
proof (induction xs arbitrary: i)
  case (Cons y ys)
  then show ?case by (cases i) auto
qed simp

section \<open>Devices with two mutexes\<close>

text \<open>
  How a call relates to what it was asked to do: which transfers of its thread are in the log, and what it
  returns.
\<close>

fun call_ok :: "call_pc \<Rightarrow> call_pc \<Rightarrow> (pipe_op \<times> byte list) list \<Rightarrow> bool" where
  "call_ok (Want_write bs) p xs = (case p of
       Want_write bs' \<Rightarrow> bs' = bs \<and> xs = []
     | In_write bs' \<Rightarrow> bs' = bs \<and> xs = []
     | Wrote r \<Rightarrow> r = int (length bs) \<and> xs = [(Write_op bs, [])]
     | Finished r out \<Rightarrow> out = [] \<and>
         (r = int (length bs) \<and> xs = [(Write_op bs, [])] \<or> r = - ERESTARTSYS \<and> xs = [])
     | _ \<Rightarrow> False)"
| "call_ok (Want_read k) p xs = (case p of
       Want_read k' \<Rightarrow> k' = k \<and> xs = []
     | In_read k' \<Rightarrow> k' = k \<and> xs = []
     | Did_read r out \<Rightarrow> r = int (length out) \<and> xs = [(Read_op k, out)]
     | Finished r out \<Rightarrow>
         (r = int (length out) \<and> xs = [(Read_op k, out)] \<or> r = - ERESTARTSYS \<and> out = [] \<and> xs = [])
     | _ \<Rightarrow> False)"
| "call_ok p q xs = False"

definition transfers_of :: "nat \<Rightarrow> transfer list \<Rightarrow> (pipe_op \<times> byte list) list" where
  "transfers_of j log = map snd (filter (\<lambda>e. fst e = j) log)"

definition log_ops :: "transfer list \<Rightarrow> pipe_op list" where
  "log_ops log = map (\<lambda>(j, c, out). c) log"

definition log_bytes :: "transfer list \<Rightarrow> byte list" where
  "log_bytes log = concat (map (\<lambda>(j, c, out). out) log)"

lemmas log_defs = transfers_of_def log_ops_def log_bytes_def

locale two_mutex_device =
  fixes D :: "'d two_mutex"
    and wr :: "bool \<Rightarrow> byte list \<Rightarrow> nat \<Rightarrow> 'd \<Rightarrow> (int, 'd) outcome"
    and rd :: "bool \<Rightarrow> nat \<Rightarrow> nat \<Rightarrow> 'd \<Rightarrow> (int \<times> byte list, 'd) outcome"
    and queue :: "'d \<Rightarrow> byte list"
    and room :: "'d \<Rightarrow> nat"
    and dev_inv :: "'d \<Rightarrow> bool"
  assumes wr_steps: "dev_inv d \<Longrightarrow> wr sig bs (length bs) d =
      (if tm_w D d then (if sig then Ret (- ERESTARTSYS) d else Blocked d)
       else case tm_in D bs (tm_set_w D True d) of (r, d1) \<Rightarrow> Ret r (tm_set_w D False d1))"
    and rd_steps: "dev_inv d \<Longrightarrow> rd sig k k d =
      (if tm_r D d then (if sig then Ret (- ERESTARTSYS, []) d else Blocked d)
       else case tm_out D k (tm_set_r D True d) of (r, out, d1) \<Rightarrow> Ret (r, out) (tm_set_r D False d1))"
    and set_w: "dev_inv (tm_set_w D b d) = dev_inv d" "dev_inv d \<Longrightarrow> tm_w D (tm_set_w D b d) = b"
      "dev_inv d \<Longrightarrow> tm_r D (tm_set_w D b d) = tm_r D d"
      "dev_inv d \<Longrightarrow> queue (tm_set_w D b d) = queue d" "dev_inv d \<Longrightarrow> room (tm_set_w D b d) = room d"
    and set_r: "dev_inv (tm_set_r D b d) = dev_inv d" "dev_inv d \<Longrightarrow> tm_r D (tm_set_r D b d) = b"
      "dev_inv d \<Longrightarrow> tm_w D (tm_set_r D b d) = tm_w D d"
      "dev_inv d \<Longrightarrow> queue (tm_set_r D b d) = queue d" "dev_inv d \<Longrightarrow> room (tm_set_r D b d) = room d"
    and in_law: "dev_inv d \<Longrightarrow> \<exists>d'. tm_in D bs d = (int (length bs), d') \<and> dev_inv d' \<and>
      tm_w D d' = tm_w D d \<and> tm_r D d' = tm_r D d \<and> room d' = room d \<and>
      queue d' = queue d @ take (room d - length (queue d)) bs"
    and out_law: "dev_inv d \<Longrightarrow> \<exists>d'. tm_out D k d = (int (length (take k (queue d))), take k (queue d), d') \<and>
      dev_inv d' \<and> tm_w D d' = tm_w D d \<and> tm_r D d' = tm_r D d \<and> room d' = room d \<and> queue d' = drop k (queue d)"
begin

definition counts_ok :: "'d threads \<Rightarrow> bool" where
  "counts_ok s \<longleftrightarrow> length (filter holds_w (td_pcs s)) = (if tm_w D (td_dev s) then 1 else 0) \<and>
     length (filter holds_r (td_pcs s)) = (if tm_r D (td_dev s) then 1 else 0)"

definition log_ok :: "'d \<Rightarrow> 'd threads \<Rightarrow> bool" where
  "log_ok d0 s \<longleftrightarrow> dev_inv (td_dev s) \<and> room (td_dev s) = room d0 \<and>
     spec_run (room d0) (log_ops (td_log s)) (queue d0) = (log_bytes (td_log s), queue (td_dev s))"

definition calls_ok :: "call_pc list \<Rightarrow> 'd threads \<Rightarrow> bool" where
  "calls_ok ps s \<longleftrightarrow> length (td_pcs s) = length ps \<and>
     (\<forall>j<length ps. call_ok (ps ! j) (td_pcs s ! j) (transfers_of j (td_log s)))"

text \<open>The moves, with what the laws say of the transfers.\<close>

lemma call_moveE:
  assumes "call_move D sig q d = Some (p, d', x)" and "dev_inv d"
  obtains
    (w_signal) bs where "q = Want_write bs" "p = Finished (- ERESTARTSYS) []" "d' = d" "x = None"
  | (w_lock) bs where "q = Want_write bs" "\<not> tm_w D d" "p = In_write bs" "d' = tm_set_w D True d" "x = None"
  | (w_copy) bs where "q = In_write bs" "p = Wrote (int (length bs))" "x = Some (Write_op bs, [])"
      "dev_inv d'" "tm_w D d' = tm_w D d" "tm_r D d' = tm_r D d" "room d' = room d"
      "queue d' = queue d @ take (room d - length (queue d)) bs"
  | (w_unlock) r where "q = Wrote r" "p = Finished r []" "d' = tm_set_w D False d" "x = None"
  | (r_signal) k where "q = Want_read k" "p = Finished (- ERESTARTSYS) []" "d' = d" "x = None"
  | (r_lock) k where "q = Want_read k" "\<not> tm_r D d" "p = In_read k" "d' = tm_set_r D True d" "x = None"
  | (r_copy) k where "q = In_read k" "p = Did_read (int (length (take k (queue d)))) (take k (queue d))"
      "x = Some (Read_op k, take k (queue d))" "dev_inv d'" "tm_w D d' = tm_w D d" "tm_r D d' = tm_r D d"
      "room d' = room d" "queue d' = drop k (queue d)"
  | (r_unlock) r out where "q = Did_read r out" "p = Finished r out" "d' = tm_set_r D False d" "x = None"
proof (cases q)
  case (In_write bs)
  with assms(1) in_law [OF assms(2), of bs] w_copy show ?thesis by auto
next
  case (In_read k)
  with assms(1) out_law [OF assms(2), of k] r_copy show ?thesis by auto
next
  case (Want_write bs)
  with assms(1) w_signal w_lock show ?thesis by (simp split: if_splits)
next
  case (Want_read k)
  with assms(1) r_signal r_lock show ?thesis by (simp split: if_splits)
next
  case (Wrote r)
  with assms(1) w_unlock show ?thesis by simp
next
  case (Did_read r out)
  with assms(1) r_unlock show ?thesis by simp
next
  case (Finished r out)
  with assms(1) show ?thesis by simp
qed

text \<open>One move keeps each of the three.\<close>

lemma move_counts:
  assumes "counts_ok s" and "i < length (td_pcs s)" and "dev_inv (td_dev s)"
    and "call_move D sig (td_pcs s ! i) (td_dev s) = Some (p, d, x)"
  shows "counts_ok \<lparr>td_dev = d, td_pcs = (td_pcs s)[i := p], td_log = l\<rparr>"
  using assms(4,3) assms(1) count_list_update [OF assms(2), of holds_w p] count_list_update [OF assms(2), of holds_r p]
  by (cases rule: call_moveE) (simp_all add: counts_ok_def set_w(2-5) [OF assms(3)] set_r(2-5) [OF assms(3)] split: if_splits)

lemma move_log:
  assumes "log_ok d0 s" and "call_move D sig q (td_dev s) = Some (p, d, x)"
  shows "log_ok d0 \<lparr>td_dev = d, td_pcs = ps,
    td_log = td_log s @ (case x of None \<Rightarrow> [] | Some (c, out) \<Rightarrow> [(i, c, out)])\<rparr>"
proof -
  have inv: "dev_inv (td_dev s)" using assms(1) by (simp add: log_ok_def)
  from assms(2) inv show ?thesis
    using assms(1)
    by (cases rule: call_moveE) (simp_all add: log_ok_def log_ops_def log_bytes_def spec_run_snoc set_w(1) set_r(1)
        set_w(2-5) [OF inv] set_r(2-5) [OF inv])
qed

lemma move_call_ok:
  assumes "call_ok a q xs" and "call_move D sig q d = Some (p, d', x)" and "dev_inv d"
  shows "call_ok a p (xs @ (case x of None \<Rightarrow> [] | Some y \<Rightarrow> [y]))"
  using assms(2,3) assms(1) by (cases rule: call_moveE; cases a) simp_all

lemma transfers_of_snoc:
  "transfers_of j (log @ (case x of None \<Rightarrow> [] | Some (c, out) \<Rightarrow> [(i, c, out)])) =
     transfers_of j log @ (if j = i then (case x of None \<Rightarrow> [] | Some y \<Rightarrow> [y]) else [])"
  by (auto simp: transfers_of_def split: option.splits)

lemma move_calls:
  assumes "calls_ok ps s" and "i < length (td_pcs s)" and "dev_inv (td_dev s)"
    and "call_move D sig (td_pcs s ! i) (td_dev s) = Some (p, d, x)"
  shows "calls_ok ps \<lparr>td_dev = d, td_pcs = (td_pcs s)[i := p],
    td_log = td_log s @ (case x of None \<Rightarrow> [] | Some (c, out) \<Rightarrow> [(i, c, out)])\<rparr>"
  using assms(1,2) move_call_ok [OF _ assms(4,3)]
  by (auto simp: calls_ok_def transfers_of_snoc nth_list_update)

lemma try_thread_inv:
  assumes "counts_ok s" "log_ok d0 s" "calls_ok ps s"
  shows "counts_ok (try_thread D i sig s) \<and> log_ok d0 (try_thread D i sig s) \<and> calls_ok ps (try_thread D i sig s)"
proof -
  have inv: "dev_inv (td_dev s)" using assms(2) by (simp add: log_ok_def)
  show ?thesis
    using assms move_counts [OF assms(1) _ inv] move_log [OF assms(2)] move_calls [OF assms(3) _ inv]
    by (auto simp: try_thread_def split: option.splits)
qed

lemma run_threads_inv:
  "counts_ok s \<Longrightarrow> log_ok d0 s \<Longrightarrow> calls_ok ps s \<Longrightarrow>
     counts_ok (run_threads D sch s) \<and> log_ok d0 (run_threads D sch s) \<and> calls_ok ps (run_threads D sch s)"
  using try_thread_inv by (induction D sch s rule: run_threads.induct) auto

lemma start_inv:
  assumes "dev_inv d \<and> \<not> tm_w D d \<and> \<not> tm_r D d" "\<forall>p\<in>set ps. fresh_call p"
  shows "counts_ok (start_threads d ps) \<and> log_ok d (start_threads d ps) \<and> calls_ok ps (start_threads d ps)"
proof -
  have "\<not> holds_w p \<and> \<not> holds_r p" "call_ok p p []" if "p \<in> set ps" for p
    using assms(2) that by (cases p; fastforce)+
  then show ?thesis
    using assms(1)
    by (auto simp: counts_ok_def log_ok_def calls_ok_def start_threads_def log_defs filter_empty_conv)
qed

text \<open>
  Whatever the schedule, the transfers happen as the specification of a pipe would make them in the order of the log, at
  most one thread is in either section, and every call has made the transfers it should have and returns
  what they yielded.
\<close>

lemma threads_linearize:
  assumes "dev_inv d \<and> \<not> tm_w D d \<and> \<not> tm_r D d" "\<forall>p\<in>set ps. fresh_call p"
    and "s = run_threads D sch (start_threads d ps)"
  shows "spec_run (room d) (log_ops (td_log s)) (queue d) = (log_bytes (td_log s), queue (td_dev s)) \<and>
    length (filter holds_w (td_pcs s)) \<le> 1 \<and> length (filter holds_r (td_pcs s)) \<le> 1 \<and>
    (\<forall>j<length ps. call_ok (ps ! j) (td_pcs s ! j) (transfers_of j (td_log s))) \<and>
    (\<exists>l. td_log (run_threads D sch' s) = td_log s @ l)"
proof -
  from start_inv [OF assms(1,2)] run_threads_inv
  have "counts_ok s \<and> log_ok d s \<and> calls_ok ps s" unfolding assms(3) by blast
  then show ?thesis using run_threads_log [of D sch' s] by (simp add: counts_ok_def log_ok_def calls_ok_def)
qed

text \<open>No deadlock: while a call is unfinished, some thread can move. Hence rounds finish every call.\<close>

lemma nobody_stuck:
  assumes "counts_ok s" and "p \<in> set (td_pcs s)" and "\<not> is_finished p"
  shows "\<exists>i<length (td_pcs s). try_thread D i False s \<noteq> s"
proof (cases "call_move D False p (td_dev s)")
  case None
  then have "tm_w D (td_dev s) \<or> tm_r D (td_dev s)"
    using assms(3) by (cases p) (auto split: prod.splits if_splits)
  then have "filter holds_w (td_pcs s) \<noteq> [] \<or> filter holds_r (td_pcs s) \<noteq> []"
    using assms(1) by (auto simp: counts_ok_def)
  then obtain q where "q \<in> set (td_pcs s)" "holds_w q \<or> holds_r q" by (auto simp: filter_empty_conv)
  then show ?thesis using try_thread_moves [OF _ holder_moves] by blast
next
  case (Some m)
  with try_thread_moves [OF assms(2), of D False] show ?thesis by simp
qed

lemma round_progress:
  assumes "counts_ok s" and "work_left s \<noteq> 0"
  shows "work_left (run_threads D (one_round (length (td_pcs s))) s) < work_left s"
proof -
  from assms(2) obtain p where "p \<in> set (td_pcs s)" "\<not> is_finished p" by (auto simp: work_left_0)
  from nobody_stuck [OF assms(1) this] obtain i
    where i: "i < length (td_pcs s)" "try_thread D i False s \<noteq> s" by blast
  then have "(i, False) \<in> set (one_round (length (td_pcs s)))" by (simp add: one_round_def)
  with i(2) run_threads_work [where D = D and s = s and sch = "one_round (length (td_pcs s))"]
  show ?thesis by fastforce
qed

lemma rounds_finish:
  "counts_ok s \<Longrightarrow> log_ok d0 s \<Longrightarrow> calls_ok ps s \<Longrightarrow> work_left s \<le> m \<Longrightarrow>
     work_left (run_threads D (rounds m (length (td_pcs s))) s) = 0"
proof (induction m arbitrary: s)
  case (Suc m)
  let ?t = "run_threads D (one_round (length (td_pcs s))) s"
  have inv: "counts_ok ?t" "log_ok d0 ?t" "calls_ok ps ?t" using run_threads_inv Suc.prems by blast+
  have "work_left ?t \<le> m"
    using round_progress [OF Suc.prems(1)] Suc.prems(4)
      run_threads_work [where D = D and s = s and sch = "one_round (length (td_pcs s))"]
    by (cases "work_left s = 0") auto
  from Suc.IH [OF inv this] show ?case by (simp add: run_threads_append)
qed simp

lemma calls_return:
  assumes "dev_inv d \<and> \<not> tm_w D d \<and> \<not> tm_r D d" "\<forall>p\<in>set ps. fresh_call p"
  shows "\<forall>p\<in>set (td_pcs (run_threads D (sch @ rounds (3 * length ps) (length ps)) (start_threads d ps))).
    is_finished p"
proof -
  let ?s = "run_threads D sch (start_threads d ps)"
  have len: "length (td_pcs (start_threads d ps)) = length ps" by (simp add: start_threads_def)
  from start_inv [OF assms] run_threads_inv have inv: "counts_ok ?s" "log_ok d ?s" "calls_ok ps ?s" by blast+
  have "sum_list (map steps_left qs) \<le> 3 * length qs" for qs
  proof (induction qs)
    case (Cons q qs)
    then show ?case by (cases q) auto
  qed simp
  from this [of ps] have "work_left (start_threads d ps) \<le> 3 * length ps"
    by (simp add: work_left_def start_threads_def)
  then have "work_left ?s \<le> 3 * length ps" using run_threads_work le_trans by blast
  from rounds_finish [OF inv this] show ?thesis
    by (simp add: run_threads_append work_left_0 len)
qed

text \<open>A thread on its own makes the driver's sequential call.\<close>

lemma alone_is_call:
  assumes "dev_inv d"
  shows "run_alone D sig (Want_write bs) d = map_outcome (\<lambda>r. (r, [])) id (wr sig bs (length bs) d)"
    and "run_alone D sig (Want_read k) d = rd sig k k d"
  using assms by (simp_all add: run_alone_simps wr_steps rd_steps split: prod.splits)

end

end
