(* ===== verification/Plt_Fifo.thy ===== *)
theory Plt_Fifo
  imports Kfifo_Ring
begin

text \<open>
  What the three platform drivers (\<open>07.pltdrv\<close>, \<open>08.pltdrv_attr\<close>, \<open>12.pltdrv_attr_dt\<close>) share word for
  word: the platform data, the private device structure and the driver-wide variables, and the
  contract between a platform driver and the driver core that calls its probe and remove functions.

  A platform device is identified by its address \<open>pdev\<close>; the driver data of a device is a map from
  that address. The ``session'' of a driver is any sequence of probes and removals the core
  may ask for: it probes a device that is not bound and removes one that is.
\<close>

section \<open>Shared data\<close>

record pltdata_fifo =
  version :: int
  fsize :: int

record 'f fifo_prvt_devc =
  pf_myfifo :: 'f
  pf_r_f_lock :: bool
  pf_w_f_lock :: bool
  plt_data_prv :: pltdata_fifo
  pf_devnr :: dev_t

record 'f plt_state = "chr_res kworld" +
  b_devnr :: dev_t
  nr_devcs_probed :: u32
  drvdata :: "nat \<Rightarrow> 'f fifo_prvt_devc option"

record platform_device =
  pdev :: nat
  pdev_id :: int
  platform_data :: "pltdata_fifo option"

definition dev_set_drvdata :: "nat \<Rightarrow> 'f fifo_prvt_devc \<Rightarrow> ('f plt_state, unit) state" where
  "dev_set_drvdata p d = modify (\<lambda>s. s\<lparr>drvdata := (drvdata s)(p \<mapsto> d)\<rparr>)"

definition plt_devnr :: "dev_t \<Rightarrow> platform_device \<Rightarrow> dev_t" where
  "plt_devnr base d = base + word_of_int (pdev_id d)"

section \<open>The driver core's contract with a platform driver\<close>

datatype plt_event = Probe platform_device | Remove platform_device

definition bindable :: "platform_device \<Rightarrow> platform_device list \<Rightarrow> bool" where
  "bindable d bound \<longleftrightarrow> (\<forall>e\<in>set bound. pdev e \<noteq> pdev d \<and>
     (word_of_int (pdev_id e) :: dev_t) \<noteq> word_of_int (pdev_id d))"

fun plt_session ::
    "(platform_device \<Rightarrow> ('f plt_state, int) state) \<Rightarrow> (platform_device \<Rightarrow> ('f plt_state, int) state) \<Rightarrow>
     plt_event list \<Rightarrow> platform_device list \<Rightarrow> 'f plt_state \<Rightarrow> platform_device list \<times> 'f plt_state" where
  "plt_session pr rm [] bound s = (bound, s)"
| "plt_session pr rm (Probe d # es) bound s =
     (if bindable d bound
      then (case run_state (pr d) s of (r, t) \<Rightarrow>
              plt_session pr rm es (if r = 0 then d # bound else bound) t)
      else plt_session pr rm es bound s)"
| "plt_session pr rm (Remove d # es) bound s =
     (if d \<in> set bound
      then (case run_state (rm d) s of (r, t) \<Rightarrow> plt_session pr rm es (remove1 d bound) t)
      else plt_session pr rm es bound s)"

definition bound_ok :: "platform_device \<Rightarrow> 'f plt_state \<Rightarrow> bool" where
  "bound_ok d s \<longleftrightarrow> (case drvdata s (pdev d) of None \<Rightarrow> False | Some x \<Rightarrow> pf_devnr x = plt_devnr (b_devnr s) d)"

lemma bound_ok_cong:
  "b_devnr t = b_devnr s \<Longrightarrow> drvdata t (pdev d) = drvdata s (pdev d) \<Longrightarrow> bound_ok d t \<longleftrightarrow> bound_ok d s"
  by (simp add: bound_ok_def split: option.split)

definition holds :: "chr_res set \<Rightarrow> 'f plt_state \<Rightarrow> bool" where
  "holds R s \<longleftrightarrow> (case held chr_conv s of None \<Rightarrow> False | Some H \<Rightarrow> set H = R)"

lemma holdsE:
  assumes "holds R s"
  obtains H where "held chr_conv s = Some H" and "set H = R" and "distinct H"
  using assms by (auto simp: holds_def held_def dest: ledger_distinct split: option.splits)

locale platform_driver =
  fixes pr :: "platform_device \<Rightarrow> ('f plt_state, int) state"
    and rm :: "platform_device \<Rightarrow> ('f plt_state, int) state"
    and res :: "dev_t \<Rightarrow> platform_device \<Rightarrow> chr_res set"
  assumes res_disjoint: "pdev d \<noteq> pdev e \<Longrightarrow> (word_of_int (pdev_id d) :: dev_t) \<noteq> word_of_int (pdev_id e) \<Longrightarrow>
      res base d \<inter> res base e = {}"
    and res_own: "res base d \<inter> {Chrdev_region, Dev_class} = {}"
    and probe: "holds R s \<Longrightarrow> res (b_devnr s) d \<inter> R = {} \<Longrightarrow> run_state (pr d) s = (r, t) \<Longrightarrow>
      b_devnr t = b_devnr s \<and> holds (if r = 0 then R \<union> res (b_devnr s) d else R) t \<and>
      nr_devcs_probed t = nr_devcs_probed s + (if r = 0 then 1 else 0) \<and>
      (r = 0 \<longrightarrow> bound_ok d t) \<and> (\<forall>p. p \<noteq> pdev d \<longrightarrow> drvdata t p = drvdata s p)"
    and remove: "holds R s \<Longrightarrow> res (b_devnr s) d \<subseteq> R \<Longrightarrow> bound_ok d s \<Longrightarrow>
      run_state (rm d) s = (r, t) \<Longrightarrow>
      b_devnr t = b_devnr s \<and> holds (R - res (b_devnr s) d) t \<and>
      nr_devcs_probed t = nr_devcs_probed s - 1 \<and> drvdata t = drvdata s"
begin

definition session_inv :: "platform_device list \<Rightarrow> 'f plt_state \<Rightarrow> bool" where
  "session_inv bound s \<longleftrightarrow>
     distinct (map pdev bound) \<and> distinct (map (\<lambda>d. word_of_int (pdev_id d) :: dev_t) bound) \<and>
     holds ({Chrdev_region, Dev_class} \<union> (\<Union>d\<in>set bound. res (b_devnr s) d)) s \<and>
     nr_devcs_probed s = of_nat (length bound) \<and> (\<forall>d\<in>set bound. bound_ok d s)"

lemma session_inv_probe:
  assumes inv: "session_inv bound s" and b: "bindable d bound" and run: "run_state (pr d) s = (r, t)"
  shows "session_inv (if r = 0 then d # bound else bound) t"
proof -
  let ?R = "{Chrdev_region, Dev_class} \<union> (\<Union>e\<in>set bound. res (b_devnr s) e)"
  have "res (b_devnr s) d \<inter> res (b_devnr s) e = {}" if "e \<in> set bound" for e
    using b that res_disjoint [of d e "b_devnr s"] unfolding bindable_def by metis
  then have "res (b_devnr s) d \<inter> ?R = {}" using res_own [of "b_devnr s" d] by blast
  from probe [OF _ this run] inv have p: "b_devnr t = b_devnr s"
    "holds (if r = 0 then ?R \<union> res (b_devnr s) d else ?R) t"
    "nr_devcs_probed t = nr_devcs_probed s + (if r = 0 then 1 else 0)"
    "r = 0 \<longrightarrow> bound_ok d t" "\<forall>p. p \<noteq> pdev d \<longrightarrow> drvdata t p = drvdata s p"
    by (auto simp: session_inv_def)
  moreover have "\<forall>e\<in>set bound. bound_ok e t"
  proof
    fix e assume e: "e \<in> set bound"
    then have "pdev e \<noteq> pdev d" "bound_ok e s" using inv b by (auto simp: session_inv_def bindable_def)
    with p(1,5) show "bound_ok e t" using bound_ok_cong by metis
  qed
  moreover have "?R \<union> res (b_devnr s) d =
      {Chrdev_region, Dev_class} \<union> (\<Union>e\<in>set (d # bound). res (b_devnr s) e)" by auto
  ultimately show ?thesis
    using inv b by (auto simp: session_inv_def bindable_def)
qed

lemma session_inv_remove:
  assumes inv: "session_inv bound s" and d: "d \<in> set bound" and run: "run_state (rm d) s = (r, t)"
  shows "session_inv (remove1 d bound) t"
proof -
  let ?R = "{Chrdev_region, Dev_class} \<union> (\<Union>e\<in>set bound. res (b_devnr s) e)"
  have dist: "distinct bound" using inv by (auto simp: session_inv_def distinct_map)
  have R: "holds ?R s" "bound_ok d s" using inv d by (auto simp: session_inv_def)
  have sub: "res (b_devnr s) d \<subseteq> ?R" using d by auto
  from remove [OF R(1) sub R(2) run]
  have p: "b_devnr t = b_devnr s" "holds (?R - res (b_devnr s) d) t"
    "nr_devcs_probed t = nr_devcs_probed s - 1" "drvdata t = drvdata s"
    by blast+
  have others: "pdev e \<noteq> pdev d \<and> (word_of_int (pdev_id e) :: dev_t) \<noteq> word_of_int (pdev_id d)"
    if "e \<in> set bound" "e \<noteq> d" for e
    using inv d that by (auto simp: session_inv_def distinct_map inj_on_def)
  then have disj: "res (b_devnr s) d \<inter> res (b_devnr s) e = {}" if "e \<in> set bound" "e \<noteq> d" for e
    using res_disjoint [of d e "b_devnr s"] that by metis
  have "?R - res (b_devnr s) d =
      {Chrdev_region, Dev_class} \<union> (\<Union>e\<in>set bound - {d}. res (b_devnr s) e)"
    using disj d res_own [of "b_devnr s" d] by blast
  moreover have "of_nat (length (remove1 d bound)) = (of_nat (length bound) :: u32) - 1"
    using length_pos_if_in_set [OF d] d by (simp add: length_remove1 Suc_le_eq)
  moreover have "\<forall>e\<in>set bound. bound_ok e t"
    using inv p(1,4) bound_ok_cong unfolding session_inv_def by metis
  ultimately show ?thesis
    using inv p(1-3) dist
    by (auto simp: session_inv_def set_remove1_eq distinct_map intro: inj_on_subset)
qed

lemma session_keeps_inv:
  "session_inv bound s \<Longrightarrow> plt_session pr rm es bound s = (bound', t) \<Longrightarrow> session_inv bound' t"
proof (induction es arbitrary: bound s)
  case Nil
  then show ?case by simp
next
  case (Cons e es)
  show ?case
  proof (cases e)
    case (Probe d)
    show ?thesis
      using Cons.IH [OF session_inv_probe [OF Cons.prems(1)]] Cons.IH [OF Cons.prems(1)] Cons.prems(2) Probe
      by (auto split: if_splits prod.splits)
  next
    case (Remove d)
    show ?thesis
      using Cons.IH [OF session_inv_remove [OF Cons.prems(1)]] Cons.IH [OF Cons.prems(1)] Cons.prems(2) Remove
      by (auto split: if_splits prod.splits)
  qed
qed

end

section \<open>A concrete run for the examples\<close>

text \<open>A kernel whose calls all succeed, and devices like those of \<open>06.pltdevs_load\<close>.\<close>

definition all_well :: "nat \<Rightarrow> chr_res kcall \<Rightarrow> int" where
  "all_well n c = (case c of Do f as \<Rightarrow> 1 | Get r as \<Rightarrow> 0 | Put r \<Rightarrow> 0)"

definition plt_example :: "ring plt_state" where
  "plt_example = \<lparr>kres = all_well, kout = (\<lambda>n c. 0), ktrace = [],
     b_devnr = 0, nr_devcs_probed = 0, drvdata = Map.empty\<rparr>"

definition plt_pdev :: "nat \<Rightarrow> int \<Rightarrow> platform_device" where
  "plt_pdev p i = \<lparr>pdev = p, pdev_id = i, platform_data = Some \<lparr>version = 170, fsize = 8\<rparr>\<rparr>"

lemma plt_pdev_simps [simp]:
  "pdev (plt_pdev p i) = p" "pdev_id (plt_pdev p i) = i"
  "platform_data (plt_pdev p i) = Some \<lparr>version = 170, fsize = 8\<rparr>"
  "plt_pdev p i = plt_pdev q j \<longleftrightarrow> p = q \<and> i = j"
  by (simp_all add: plt_pdev_def)

lemma plt_example_simps [simp]:
  "kres plt_example = all_well" "ktrace plt_example = []" "nr_devcs_probed plt_example = 0"
  by (simp_all add: plt_example_def)

end
