(* ===== verification/Pltdrv.thy ===== *)
theory Pltdrv
  imports Plt_Fifo
begin

text \<open>
  The platform driver of \<open>07.pltdrv/pltdrv.c\<close>: its file operations, probe and remove, init and exit.
  The file operations take the address of the device they were opened on (\<open>container_of\<close> on the
  inode's \<open>cdev\<close>) and work on its private data. Removing a device that has no driver data would
  dereference \<open>NULL\<close>, which the model logs as the call \<open>oops\<close>; the core only removes bound devices.
\<close>

section \<open>File operations\<close>

definition pltdrv_open :: "nat \<Rightarrow> 'f plt_state \<Rightarrow> (int \<times> nat, 'f plt_state) outcome" where
  "pltdrv_open i_cdev s = Ret (0, i_cdev) s"

definition pltdrv_release :: "nat \<Rightarrow> 'f plt_state \<Rightarrow> (int, 'f plt_state) outcome" where
  "pltdrv_release p s = Ret 0 s"

definition pltdrv_write ::
    "'f kfifo_api \<Rightarrow> bool \<Rightarrow> byte list \<Rightarrow> nat \<Rightarrow> 'f fifo_prvt_devc \<Rightarrow> (int, 'f fifo_prvt_devc) outcome" where
  "pltdrv_write K sig buf count dev =
     (if pf_w_f_lock dev then (if sig then Ret (- ERESTARTSYS) dev else Blocked dev)
      else
        let dev1 = dev\<lparr>pf_w_f_lock := True\<rparr>;
            (ret, copiedin, f) = kf_from_user K (pf_myfifo dev1) buf count;
            dev2 = dev1\<lparr>pf_myfifo := f, pf_w_f_lock := False\<rparr>
        in if ret \<noteq> 0 then Ret ret dev2 else Ret (int count) dev2)"

definition pltdrv_read ::
    "'f kfifo_api \<Rightarrow> bool \<Rightarrow> nat \<Rightarrow> nat \<Rightarrow> 'f fifo_prvt_devc \<Rightarrow> (int \<times> byte list, 'f fifo_prvt_devc) outcome" where
  "pltdrv_read K sig room count dev =
     (if pf_r_f_lock dev then (if sig then Ret (- ERESTARTSYS, []) dev else Blocked dev)
      else
        let dev1 = dev\<lparr>pf_r_f_lock := True\<rparr>;
            (ret, out, f) = kf_to_user K (pf_myfifo dev1) room count;
            dev2 = dev1\<lparr>pf_myfifo := f, pf_r_f_lock := False\<rparr>
        in if ret \<noteq> 0 then Ret (ret, out) dev2 else Ret (int (length out), out) dev2)"

section \<open>Probe and remove\<close>

text \<open>\<open>setup_pltdrv_dev\<close>: initialise both mutexes, then allocate the FIFO of the requested size.\<close>

definition setup_pltdrv_dev ::
    "'f kfifo_api \<Rightarrow> nat \<Rightarrow> 'f fifo_prvt_devc \<Rightarrow> ('f plt_state, int) state" where
  "setup_pltdrv_dev K p dev = do {
     let sz = fsize (plt_data_prv dev);
     let dev1 = dev\<lparr>pf_r_f_lock := False, pf_w_f_lock := False\<rparr>;
     dev_set_drvdata p dev1;
     ret \<leftarrow> kfifo_alloc p sz;
     (if ret = 0 then dev_set_drvdata p (dev1\<lparr>pf_myfifo := kf_make K sz\<rparr>) else return ());
     return ret
   }"

definition uninstall_pltdrv_dev :: "nat \<Rightarrow> ('f plt_state, unit) state" where
  "uninstall_pltdrv_dev p = do { kfifo_free p; return () }"

definition pltdrv_err_destruct_device :: "dev_t \<Rightarrow> int \<Rightarrow> ('f plt_state, int) state" where
  "pltdrv_err_destruct_device devnr ret = do { device_destroy devnr; return ret }"

definition pltdrv_err_unregister_cdev :: "nat \<Rightarrow> dev_t \<Rightarrow> int \<Rightarrow> ('f plt_state, int) state" where
  "pltdrv_err_unregister_cdev p devnr ret = do { cdev_del p; pltdrv_err_destruct_device devnr ret }"

definition pltdrv_probe :: "'f kfifo_api \<Rightarrow> platform_device \<Rightarrow> ('f plt_state, int) state" where
  "pltdrv_probe K ofdev =
     (case platform_data ofdev of
        None \<Rightarrow> return (- ENOMEM)
      | Some plt_data \<Rightarrow> do {
          mem \<leftarrow> call (Do ''devm_kzalloc'' [int (pdev ofdev)]);
          if mem = 0 then return (- EINVAL)
          else do {
            base \<leftarrow> gets b_devnr;
            let devnr = plt_devnr base ofdev;
            let dev_data = \<lparr>pf_myfifo = kf_zero K, pf_r_f_lock = False, pf_w_f_lock = False,
              plt_data_prv = \<lparr>version = version plt_data, fsize = fsize plt_data\<rparr>, pf_devnr = devnr\<rparr>;
            dev_set_drvdata (pdev ofdev) dev_data;
            device \<leftarrow> device_create devnr;
            if IS_ERR device then return (PTR_ERR device)
            else do {
              cdev_init (pdev ofdev);
              ret \<leftarrow> cdev_add (pdev ofdev) devnr;
              if ret \<noteq> 0 then pltdrv_err_destruct_device devnr ret
              else do {
                ret \<leftarrow> setup_pltdrv_dev K (pdev ofdev) dev_data;
                if ret \<noteq> 0 then pltdrv_err_unregister_cdev (pdev ofdev) devnr ret
                else do {
                  modify (\<lambda>s. s\<lparr>nr_devcs_probed := nr_devcs_probed s + 1\<rparr>);
                  return 0
                }}}}})"

definition pltdrv_remove :: "platform_device \<Rightarrow> ('f plt_state, int) state" where
  "pltdrv_remove ofdev = do {
     data \<leftarrow> gets drvdata;
     (case data (pdev ofdev) of
        None \<Rightarrow> do { call (Do ''oops'' []); return 0 }
      | Some dev_data \<Rightarrow> do {
          uninstall_pltdrv_dev (pdev ofdev);
          cdev_del (pdev ofdev);
          device_destroy (pf_devnr dev_data);
          modify (\<lambda>s. s\<lparr>nr_devcs_probed := nr_devcs_probed s - 1\<rparr>);
          return 0
        })
   }"

section \<open>Loading and unloading\<close>

definition pltdrv_err_unregister_chrdev :: "int \<Rightarrow> ('f plt_state, int) state" where
  "pltdrv_err_unregister_chrdev ret = do { unregister_chrdev_region; return ret }"

definition pltdrv_init :: "('f plt_state, int) state" where
  "pltdrv_init = do {
     (ret, nr) \<leftarrow> alloc_chrdev_region 0 2;
     if ret < 0 then return ret
     else do {
       modify (\<lambda>s. s\<lparr>b_devnr := word_of_int nr\<rparr>);
       new_class \<leftarrow> class_create;
       if IS_ERR new_class then pltdrv_err_unregister_chrdev (PTR_ERR new_class)
       else do {
         call (Do ''platform_driver_register'' []);
         return 0
       }}}"

definition pltdrv_exit :: "('f plt_state, unit) state" where
  "pltdrv_exit = do {
     call (Do ''platform_driver_unregister'' []);
     class_destroy;
     unregister_chrdev_region;
     return ()
   }"

lemmas pltdrv_probe_defs = pltdrv_probe_def pltdrv_err_destruct_device_def
  pltdrv_err_unregister_cdev_def setup_pltdrv_dev_def dev_set_drvdata_def

section \<open>The calls as a byte pipe\<close>

definition pf_ok :: "('f \<Rightarrow> bool) \<Rightarrow> 'f fifo_prvt_devc \<Rightarrow> bool" where
  "pf_ok fok d \<longleftrightarrow> fok (pf_myfifo d) \<and> \<not> pf_r_f_lock d \<and> \<not> pf_w_f_lock d"

sublocale kfifo_contract \<subseteq> pltdrv: byte_pipe "pltdrv_write K False" "pltdrv_read K False"
  "\<lambda>d. content (pf_myfifo d)" "\<lambda>d. cap (pf_myfifo d)" "pf_ok fok"
proof
  fix d :: "'f fifo_prvt_devc" and bs :: "byte list"
  assume ok: "pf_ok fok d"
  then have "fok (pf_myfifo d)" by (simp add: pf_ok_def)
  from from_user_exact [OF this, of bs] ok
  show "\<exists>r d'. pltdrv_write K False bs (length bs) d = Ret r d' \<and> pf_ok fok d' \<and>
      cap (pf_myfifo d') = cap (pf_myfifo d) \<and>
      content (pf_myfifo d') =
        content (pf_myfifo d) @ take (cap (pf_myfifo d) - length (content (pf_myfifo d))) bs"
    by (auto simp: pltdrv_write_def pf_ok_def)
next
  fix d :: "'f fifo_prvt_devc" and k
  assume ok: "pf_ok fok d"
  then have "fok (pf_myfifo d)" by (simp add: pf_ok_def)
  from to_user_exact [OF this, of k] ok
  show "\<exists>d'. pltdrv_read K False k k d =
      Ret (int (length (take k (content (pf_myfifo d)))), take k (content (pf_myfifo d))) d' \<and>
      pf_ok fok d' \<and> cap (pf_myfifo d') = cap (pf_myfifo d) \<and>
      content (pf_myfifo d') = drop k (content (pf_myfifo d))"
    by (auto simp: pltdrv_read_def pf_ok_def)
qed

section \<open>The driver meets the driver core's contract\<close>

definition pltdrv_res :: "dev_t \<Rightarrow> platform_device \<Rightarrow> chr_res set" where
  "pltdrv_res base d = {Dev_node (plt_devnr base d), Char_dev (pdev d), Fifo (pdev d)}"

lemma pltdrv_probe_law:
  assumes "holds R s" and "pltdrv_res (b_devnr s) d \<inter> R = {}" and "run_state (pltdrv_probe K d) s = (r, t)"
  shows "b_devnr t = b_devnr s \<and> holds (if r = 0 then R \<union> pltdrv_res (b_devnr s) d else R) t \<and>
    nr_devcs_probed t = nr_devcs_probed s + (if r = 0 then 1 else 0) \<and>
    (r = 0 \<longrightarrow> bound_ok d t) \<and> (\<forall>p. p \<noteq> pdev d \<longrightarrow> drvdata t p = drvdata s p)"
proof -
  from assms(1) obtain H where H: "held chr_conv s = Some H" "set H = R" "distinct H" by (rule holdsE)
  with assms(2) have "Dev_node (plt_devnr (b_devnr s) d) \<notin> set H" "Char_dev (pdev d) \<notin> set H"
    "Fifo (pdev d) \<notin> set H" by (auto simp: pltdrv_res_def)
  with H(1) assms(3) show ?thesis
    by (auto simp: pltdrv_probe_defs holds_def held_def ledger_append bound_ok_def pltdrv_res_def
        H(2) [symmetric] PTR_ERR_def remove1_append Let_def split: if_splits option.splits)
qed

lemma pltdrv_remove_law:
  assumes "holds R s" and "pltdrv_res (b_devnr s) d \<subseteq> R" and "bound_ok d s"
    and "run_state (pltdrv_remove d) s = (r, t)"
  shows "b_devnr t = b_devnr s \<and> holds (R - pltdrv_res (b_devnr s) d) t \<and>
    nr_devcs_probed t = nr_devcs_probed s - 1 \<and> drvdata t = drvdata s"
proof -
  from assms(1) obtain H where H: "held chr_conv s = Some H" "set H = R" "distinct H" by (rule holdsE)
  with assms(2) have "Dev_node (plt_devnr (b_devnr s) d) \<in> set H" "Char_dev (pdev d) \<in> set H"
    "Fifo (pdev d) \<in> set H" by (auto simp: pltdrv_res_def)
  with H assms(3,4) show ?thesis
    by (auto simp: pltdrv_remove_def uninstall_pltdrv_dev_def holds_def held_def ledger_append
        bound_ok_def pltdrv_res_def set_remove1_eq distinct_remove1 split: option.splits)
qed

interpretation plt07: platform_driver "pltdrv_probe K" pltdrv_remove pltdrv_res for K
proof
  show "pltdrv_res base d \<inter> pltdrv_res base e = {}"
    if "pdev d \<noteq> pdev e" "(word_of_int (pdev_id d) :: dev_t) \<noteq> word_of_int (pdev_id e)" for base d e
    using that by (auto simp: pltdrv_res_def plt_devnr_def)
  show "pltdrv_res base d \<inter> {Chrdev_region, Dev_class} = {}" for base d
    by (simp add: pltdrv_res_def)
qed (rule pltdrv_probe_law pltdrv_remove_law, assumption+)+

context kfifo_contract
begin

lemma pltdrv_probed_is_pipe:
  assumes "platform_data d = Some pd" and "2 \<le> fsize pd" and "fsize pd \<le> 2 ^ 31"
    and "run_state (pltdrv_probe K d) s = (0, t)"
  shows "\<exists>x n x'. drvdata t (pdev d) = Some x \<and> pf_devnr x = plt_devnr (b_devnr s) d \<and>
    nat (fsize pd) \<le> n \<and>
    pipe_run (pltdrv_write K False) (pltdrv_read K False) xs x = Some (fst (spec_run n xs []), x')"
proof -
  from assms(1,4) obtain x where x: "drvdata t (pdev d) = Some x" "pf_devnr x = plt_devnr (b_devnr s) d"
    "pf_myfifo x = kf_make K (fsize pd)" "\<not> pf_r_f_lock x" "\<not> pf_w_f_lock x"
    by (auto simp: pltdrv_probe_defs PTR_ERR_def Let_def split: if_splits)
  with make [OF assms(2,3)] have "pf_ok fok x" by (simp add: pf_ok_def)
  from pltdrv.run_refines_spec [OF this, of xs] x make [OF assms(2,3)] show ?thesis by auto
qed

end

section \<open>Properties\<close>

text \<open>The state after a first \<open>pltdrv_init\<close> that succeeded starts every session.\<close>

lemma pltdrv_init_session:
  assumes "ktrace s = []" and "nr_devcs_probed s = 0"
    and "run_state pltdrv_init s = (0, s1)" and "failures chr_conv (ktrace s1) = []"
  shows "platform_driver.session_inv pltdrv_res [] s1"
  using assms unfolding plt07.session_inv_def holds_def held_def ledger_def
  by (simp add: pltdrv_init_def pltdrv_err_unregister_chrdev_def split: if_splits; clarsimp)

lemma pltdrv_exit_empties:
  "holds {Chrdev_region, Dev_class} s \<Longrightarrow> held chr_conv (exec pltdrv_exit s) = Some []"
  by (elim holdsE)
    (auto simp: exec_def pltdrv_exit_def held_def ledger_append set_remove1_eq distinct_remove1
      simp flip: set_empty)

text \<open>
  C5. After \<open>pltdrv_init\<close>, whatever devices the driver core probes and removes, and whichever of the
  driver's calls the kernel fails, the driver holds the region, the class and exactly the
  node, character device and FIFO of each bound device; \<open>nr_devcs_probed\<close> counts the bound devices; and once
  every device is removed, \<open>pltdrv_exit\<close> leaves nothing acquired.
\<close>

theorem pltdrv_sessions_hold_what_is_bound:
  assumes "ktrace s = []" and "nr_devcs_probed s = 0"
    and "run_state pltdrv_init s = (0, s1)" and "failures chr_conv (ktrace s1) = []"
    and "plt_session (pltdrv_probe K) pltdrv_remove es [] s1 = (bound, t)"
  shows "holds ({Chrdev_region, Dev_class} \<union> (\<Union>d\<in>set bound.
      {Dev_node (b_devnr t + word_of_int (pdev_id d)), Char_dev (pdev d), Fifo (pdev d)})) t \<and>
    nr_devcs_probed t = of_nat (length bound) \<and>
    (bound = [] \<longrightarrow> held chr_conv (exec pltdrv_exit t) = Some [])"
  using plt07.session_keeps_inv [OF pltdrv_init_session [OF assms(1-4)] assms(5)]
  by (auto simp: plt07.session_inv_def pltdrv_res_def plt_devnr_def intro: pltdrv_exit_empties)

lemma pltdrv_example_init:
  "run_state pltdrv_init plt_example = (0, exec pltdrv_init plt_example)"
  "failures chr_conv (ktrace (exec pltdrv_init plt_example)) = []"
  "kres (exec pltdrv_init plt_example) = all_well"
  by (simp_all add: pltdrv_init_def plt_example_def exec_def IS_ERR_def all_well_def)

lemma pltdrv_probe_well:
  "kres s = all_well \<Longrightarrow> \<exists>t. run_state (pltdrv_probe K (plt_pdev p i)) s = (0, t) \<and> kres t = all_well"
  by (simp add: pltdrv_probe_defs plt_pdev_def all_well_def Let_def)

theorem pltdrv_sessions_hold_what_is_bound_witness:
  "\<exists>t. plt_session (pltdrv_probe ring_api) pltdrv_remove
      [Probe (plt_pdev 5 0), Probe (plt_pdev 6 1), Remove (plt_pdev 5 0), Remove (plt_pdev 6 1)] []
      (exec pltdrv_init plt_example) = ([], t) \<and> held chr_conv (exec pltdrv_exit t) = Some []"
proof -
  obtain s2 where s2: "run_state (pltdrv_probe ring_api (plt_pdev 5 0)) (exec pltdrv_init plt_example) = (0, s2)"
    "kres s2 = all_well" using pltdrv_probe_well [OF pltdrv_example_init(3)] by blast
  obtain s3 where s3: "run_state (pltdrv_probe ring_api (plt_pdev 6 1)) s2 = (0, s3)"
    using pltdrv_probe_well [OF s2(2)] by blast
  obtain t where t: "plt_session (pltdrv_probe ring_api) pltdrv_remove
      [Probe (plt_pdev 5 0), Probe (plt_pdev 6 1), Remove (plt_pdev 5 0), Remove (plt_pdev 6 1)] []
      (exec pltdrv_init plt_example) = ([], t)"
    by (simp add: s2 s3 bindable_def case_prod_unfold)
  have "ktrace plt_example = []" "nr_devcs_probed plt_example = 0" by (simp_all add: plt_example_def)
  from pltdrv_sessions_hold_what_is_bound [OF this pltdrv_example_init(1,2) t] t show ?thesis by blast
qed

text \<open>
  A device whose probe succeeds gets its FIFO and free locks, so that its file operations are from then on a
  bounded byte pipe that starts empty and has room for the size the platform data asked for.
\<close>

theorem pltdrv_probed_device_is_pipe:
  assumes "kfifo_contract K content cap fok"
    and "platform_data d = Some pd" and "2 \<le> fsize pd" and "fsize pd \<le> 2 ^ 31"
    and "run_state (pltdrv_probe K d) s = (0, t)"
  shows "\<exists>x n x'. drvdata t (pdev d) = Some x \<and> pf_devnr x = plt_devnr (b_devnr s) d \<and>
    nat (fsize pd) \<le> n \<and>
    pipe_run (pltdrv_write K False) (pltdrv_read K False) xs x = Some (fst (spec_run n xs []), x')"
  by (rule kfifo_contract.pltdrv_probed_is_pipe [OF assms])

theorem pltdrv_probed_device_is_pipe_witness:
  "\<exists>x x'. drvdata (exec (pltdrv_probe ring_api (plt_pdev 5 0)) plt_example) 5 = Some x \<and>
    pipe_run (pltdrv_write ring_api False) (pltdrv_read ring_api False)
      [Write_op [1, 2, 3], Read_op 2] x = Some ([1, 2], x')"
proof -
  have "kres plt_example = all_well" by (simp add: plt_example_def)
  then obtain t where r: "run_state (pltdrv_probe ring_api (plt_pdev 5 0)) plt_example = (0, t)"
    using pltdrv_probe_well by blast
  have d: "platform_data (plt_pdev 5 0) = Some \<lparr>version = 170, fsize = 8\<rparr>" by (simp add: plt_pdev_def)
  from pltdrv_probed_device_is_pipe [OF kring.kfifo_contract_axioms d _ _ r,
      of "[Write_op [1, 2, 3], Read_op 2]"]
  obtain x n x' where "drvdata t 5 = Some x" "8 \<le> n"
    "pipe_run (pltdrv_write ring_api False) (pltdrv_read ring_api False) [Write_op [1, 2, 3], Read_op 2] x =
       Some (fst (spec_run n [Write_op [1, 2, 3], Read_op 2] []), x')"
    by (auto simp: plt_pdev_def)
  with r show ?thesis by (auto simp: exec_def take_Cons')
qed

end
