(* ===== verification/Pltdevs_Load.thy ===== *)
theory Pltdevs_Load
  imports Pltdrv
begin

text \<open>
  The module of \<open>06.pltdevs_load/pltdevs_load.c\<close>, which registers the two devices the platform drivers
  bind. A device's address is its index in \<open>pltdevices\<close>. The registrations are kernel calls; the
  properties run the drivers' probe functions on the two devices, as the driver core does.
\<close>

definition pltdata_fifo_lst :: "pltdata_fifo list" where
  "pltdata_fifo_lst = [\<lparr>version = 0xAA, fsize = 8\<rparr>, \<lparr>version = 0xBB, fsize = 8\<rparr>]"

definition plt_dev0 :: platform_device where
  "plt_dev0 = \<lparr>pdev = 0, pdev_id = 0, platform_data = Some (pltdata_fifo_lst ! 0)\<rparr>"

definition plt_dev1 :: platform_device where
  "plt_dev1 = \<lparr>pdev = 1, pdev_id = 1, platform_data = Some (pltdata_fifo_lst ! 1)\<rparr>"

definition pltdevices :: "platform_device list" where
  "pltdevices = [plt_dev0, plt_dev1]"

text \<open>The result of \<open>platform_add_devices\<close> is not looked at.\<close>

definition pltdevs_load_init :: "('r kworld, int) state" where
  "pltdevs_load_init = do {
     call (Do ''platform_add_devices'' (map (\<lambda>d. int (pdev d)) pltdevices));
     return 0
   }"

definition pltdevs_load_exit :: "('r kworld, unit) state" where
  "pltdevs_load_exit = do {
     call (Do ''platform_device_unregister'' [int (pdev plt_dev0)]);
     call (Do ''platform_device_unregister'' [int (pdev plt_dev1)]);
     return ()
   }"

lemma pltdevices_simps [simp]:
  "pdev plt_dev0 = 0" "pdev plt_dev1 = 1" "pdev_id plt_dev0 = 0" "pdev_id plt_dev1 = 1"
  "platform_data plt_dev0 = Some \<lparr>version = 0xAA, fsize = 8\<rparr>"
  "platform_data plt_dev1 = Some \<lparr>version = 0xBB, fsize = 8\<rparr>"
  by (simp_all add: plt_dev0_def plt_dev1_def pltdata_fifo_lst_def)

lemma plt_devs_differ [simp]: "plt_dev1 \<noteq> plt_dev0"
  by (simp add: plt_dev0_def plt_dev1_def)

lemma pltdevices_bindable [simp]: "bindable plt_dev1 [plt_dev0]" "bindable plt_dev0 []" "bindable plt_dev1 []"
  by (simp_all add: bindable_def)

lemma pltdevs_registrations:
  "ktrace (exec pltdevs_load_init s) = ktrace s @ [(Do ''platform_add_devices'' [0, 1],
     kres s (length (ktrace s)) (Do ''platform_add_devices'' [0, 1]))]"
  by (simp add: pltdevs_load_init_def exec_def pltdevices_def)

lemma bound_okD: "bound_ok d t \<Longrightarrow> map_option pf_devnr (drvdata t (pdev d)) = Some (plt_devnr (b_devnr t) d)"
  by (auto simp: bound_ok_def split: option.splits)

section \<open>Properties\<close>

text \<open>
  Probing the two registered devices in order binds some of them: each one that binds has its own minor inside the two the driver
  reserved, and the node, character device and FIFO held are those of the
  bound devices. When both probes succeed the devices have the numbers \<open>b_devnr\<close> and \<open>b_devnr + 1\<close> and carry
  the versions of the table.
\<close>

theorem pltdevs_bind_in_order:
  assumes "ktrace s = []" and "nr_devcs_probed s = 0"
    and "run_state pltdrv_init s = (0, s1)" and "failures chr_conv (ktrace s1) = []"
    and "plt_session (pltdrv_probe K) pltdrv_remove (map Probe pltdevices) [] s1 = (bound, t)"
  shows "set bound \<subseteq> set pltdevices \<and> distinct bound \<and>
    (\<forall>d\<in>set bound. \<exists>x. drvdata t (pdev d) = Some x \<and> pf_devnr x \<in> {b_devnr t, b_devnr t + 1}) \<and>
    (length bound = 2 \<longrightarrow> holds {Chrdev_region, Dev_class,
      Dev_node (b_devnr t), Char_dev 0, Fifo 0, Dev_node (b_devnr t + 1), Char_dev 1, Fifo 1} t \<and>
      map_option pf_devnr (drvdata t 0) = Some (b_devnr t) \<and>
      map_option pf_devnr (drvdata t 1) = Some (b_devnr t + 1))"
proof -
  have inv: "platform_driver.session_inv pltdrv_res bound t"
    by (rule plt07.session_keeps_inv [OF pltdrv_init_session [OF assms(1-4)] assms(5)])
  have b: "bound \<in> {[], [plt_dev0], [plt_dev1], [plt_dev1, plt_dev0]}"
    using assms(5) by (auto simp: pltdevices_def split: prod.splits if_splits)
  have "{Chrdev_region, Dev_class} \<union> (\<Union>d\<in>{plt_dev1, plt_dev0}. pltdrv_res (b_devnr t) d) =
    {Chrdev_region, Dev_class, Dev_node (b_devnr t), Char_dev 0, Fifo 0, Dev_node (b_devnr t + 1),
      Char_dev 1, Fifo 1}"
    by (auto simp: pltdrv_res_def plt_devnr_def)
  with inv have h: "bound = [plt_dev1, plt_dev0] \<Longrightarrow> holds {Chrdev_region, Dev_class, Dev_node (b_devnr t),
      Char_dev 0, Fifo 0, Dev_node (b_devnr t + 1), Char_dev 1, Fifo 1} t"
    by (simp add: plt07.session_inv_def)
  have d0: "map_option pf_devnr (drvdata t 0) = Some (b_devnr t)" if "plt_dev0 \<in> set bound"
    using inv that bound_okD [of plt_dev0 t] by (auto simp: plt07.session_inv_def plt_devnr_def)
  have d1: "map_option pf_devnr (drvdata t 1) = Some (b_devnr t + 1)" if "plt_dev1 \<in> set bound"
    using inv that bound_okD [of plt_dev1 t] by (auto simp: plt07.session_inv_def plt_devnr_def)
  from b d0 d1 h show ?thesis by (elim insertE emptyE) (auto simp: pltdevices_def)
qed

theorem pltdevs_bind_in_order_witness:
  "\<exists>t. plt_session (pltdrv_probe ring_api) pltdrv_remove (map Probe pltdevices) []
      (exec pltdrv_init plt_example) = ([plt_dev1, plt_dev0], t) \<and>
    map_option pf_devnr (drvdata t 1) = Some (b_devnr t + 1)"
proof -
  have w: "\<exists>t'. run_state (pltdrv_probe ring_api d) s = (0, t') \<and> kres t' = all_well"
    if "kres s = all_well" "d = plt_dev0 \<or> d = plt_dev1" for s :: "ring plt_state" and d
    using that by (auto simp: pltdrv_probe_defs all_well_def Let_def)
  obtain s2 where s2: "run_state (pltdrv_probe ring_api plt_dev0) (exec pltdrv_init plt_example) = (0, s2)"
    "kres s2 = all_well" using w [OF pltdrv_example_init(3)] by blast
  obtain t where t: "run_state (pltdrv_probe ring_api plt_dev1) s2 = (0, t)" using w [OF s2(2)] by blast
  have r: "plt_session (pltdrv_probe ring_api) pltdrv_remove (map Probe pltdevices) []
      (exec pltdrv_init plt_example) = ([plt_dev1, plt_dev0], t)"
    by (simp add: pltdevices_def s2 t)
  from pltdevs_bind_in_order [OF _ _ pltdrv_example_init(1,2) r] r show ?thesis by simp
qed

end
