(* ===== verification/Sysfs.thy ===== *)
theory Sysfs
  imports Kernel_Prelude
begin

text \<open>
  The attribute files of a device, as the drivers of \<open>08\<close>, \<open>12\<close>, \<open>14\<close> and \<open>20\<close> declare them with the macros
  \<open>DEVICE_ATTR\<close>, \<open>DEVICE_ATTR_RO\<close>, \<open>DEVICE_ATTR_WO\<close> and \<open>DEVICE_ATTR_RW\<close>, and what the kernel does with them: an access to a
  file calls the driver's function for it, and fails with \<open>-EIO\<close> when there is none.

  The locale \<open>attribute_group\<close> is the contract of such a table. It asks that a file can be read or written exactly when it
  has a function for that; that a show function returns the length of its text, which fits the one page it is given;
  and that a store function keeps the device's data within its types. A session is any sequence of reads
  and writes of the files.
\<close>

abbreviation (input) ENOENT :: int where "ENOENT \<equiv> 2"

definition PAGE_SIZE :: nat where
  "PAGE_SIZE = 4096"

definition S_IRUGO :: nat where "S_IRUGO = 292"
definition S_IWUSR :: nat where "S_IWUSR = 128"
definition S_IWUGO :: nat where "S_IWUGO = 146"

record 'd device_attribute =
  attr_name :: string
  attr_mode :: nat
  attr_show :: "('d \<Rightarrow> int \<times> string) option"
  attr_store :: "(string \<Rightarrow> nat \<Rightarrow> 'd \<Rightarrow> int \<times> 'd) option"

definition DEVICE_ATTR ::
    "string \<Rightarrow> nat \<Rightarrow> ('d \<Rightarrow> int \<times> string) option \<Rightarrow> (string \<Rightarrow> nat \<Rightarrow> 'd \<Rightarrow> int \<times> 'd) option \<Rightarrow>
     'd device_attribute" where
  "DEVICE_ATTR n m sh st = \<lparr>attr_name = n, attr_mode = m, attr_show = sh, attr_store = st\<rparr>"

definition DEVICE_ATTR_RO :: "string \<Rightarrow> ('d \<Rightarrow> int \<times> string) \<Rightarrow> 'd device_attribute" where
  "DEVICE_ATTR_RO n sh = DEVICE_ATTR n S_IRUGO (Some sh) None"

definition DEVICE_ATTR_WO :: "string \<Rightarrow> (string \<Rightarrow> nat \<Rightarrow> 'd \<Rightarrow> int \<times> 'd) \<Rightarrow> 'd device_attribute" where
  "DEVICE_ATTR_WO n st = DEVICE_ATTR n S_IWUSR None (Some st)"

definition DEVICE_ATTR_RW ::
    "string \<Rightarrow> ('d \<Rightarrow> int \<times> string) \<Rightarrow> (string \<Rightarrow> nat \<Rightarrow> 'd \<Rightarrow> int \<times> 'd) \<Rightarrow> 'd device_attribute" where
  "DEVICE_ATTR_RW n sh st = DEVICE_ATTR n (S_IRUGO OR S_IWUSR) (Some sh) (Some st)"

lemmas device_attr_defs = DEVICE_ATTR_def DEVICE_ATTR_RO_def DEVICE_ATTR_WO_def DEVICE_ATTR_RW_def
  S_IRUGO_def S_IWUSR_def S_IWUGO_def

definition attr_coherent :: "'d device_attribute \<Rightarrow> bool" where
  "attr_coherent a \<longleftrightarrow> (attr_mode a AND S_IRUGO \<noteq> 0 \<longleftrightarrow> attr_show a \<noteq> None) \<and>
     (attr_mode a AND S_IWUGO \<noteq> 0 \<longleftrightarrow> attr_store a \<noteq> None)"

lemma macros_coherent [simp]:
  "attr_coherent (DEVICE_ATTR_RO n sh)" "attr_coherent (DEVICE_ATTR_WO n st)" "attr_coherent (DEVICE_ATTR_RW n sh st)"
  by (simp_all add: attr_coherent_def device_attr_defs)

section \<open>Access to the files\<close>

datatype attr_op = Attr_read string | Attr_write string string

definition attr_lookup :: "'d device_attribute list \<Rightarrow> string \<Rightarrow> 'd device_attribute option" where
  "attr_lookup attrs n = find (\<lambda>a. attr_name a = n) attrs"

text \<open>The result of an access, the text read (nothing for a write) and the device.\<close>

fun attr_step :: "'d device_attribute list \<Rightarrow> attr_op \<Rightarrow> 'd \<Rightarrow> (int \<times> string) \<times> 'd" where
  "attr_step attrs (Attr_read n) d =
     (case attr_lookup attrs n of None \<Rightarrow> ((- ENOENT, []), d)
      | Some a \<Rightarrow> (case attr_show a of None \<Rightarrow> ((- EIO, []), d) | Some sh \<Rightarrow> (sh d, d)))"
| "attr_step attrs (Attr_write n buf) d =
     (case attr_lookup attrs n of None \<Rightarrow> ((- ENOENT, []), d)
      | Some a \<Rightarrow> (case attr_store a of None \<Rightarrow> ((- EIO, []), d)
          | Some st \<Rightarrow> (case st buf (length buf) d of (r, d') \<Rightarrow> ((r, []), d'))))"

fun attr_session :: "'d device_attribute list \<Rightarrow> attr_op list \<Rightarrow> 'd \<Rightarrow> (int \<times> string) list \<times> 'd" where
  "attr_session attrs [] d = ([], d)"
| "attr_session attrs (x # xs) d =
     (case attr_step attrs x d of (r, d1) \<Rightarrow> case attr_session attrs xs d1 of (rs, d2) \<Rightarrow> (r # rs, d2))"

lemma attr_lookupD: "attr_lookup attrs n = Some a \<Longrightarrow> a \<in> set attrs \<and> attr_name a = n"
  by (auto simp: attr_lookup_def find_Some_iff)

section \<open>The contract\<close>

text \<open>A show function's result is the length of its text, and the text with its final zero fits a page.\<close>

definition shows_page :: "int \<times> string \<Rightarrow> bool" where
  "shows_page x \<longleftrightarrow> fst x = int (length (snd x)) \<and> length (snd x) < PAGE_SIZE"

locale attribute_group =
  fixes attrs :: "'d device_attribute list"
    and typed :: "'d \<Rightarrow> bool"
  assumes names: "distinct (map attr_name attrs)"
    and coherent: "a \<in> set attrs \<Longrightarrow> attr_coherent a"
    and show_law: "a \<in> set attrs \<Longrightarrow> attr_show a = Some sh \<Longrightarrow> typed d \<Longrightarrow> shows_page (sh d)"
    and store_law: "a \<in> set attrs \<Longrightarrow> attr_store a = Some st \<Longrightarrow> typed d \<Longrightarrow> typed (snd (st buf n d))"
begin

lemma step_typed:
  assumes "typed d" and "attr_step attrs x d = (r, d')"
  shows "typed d' \<and> (snd r = [] \<or> shows_page r)"
proof (cases x)
  case (Attr_read n)
  with assms show_law show ?thesis by (auto split: option.splits dest!: attr_lookupD)
next
  case (Attr_write n buf)
  have "typed d'" if "attr_lookup attrs n = Some a" "attr_store a = Some st" "st buf (length buf) d = (k, d')" for a st k
    using store_law [of a st d buf "length buf"] assms(1) that by (auto dest!: attr_lookupD)
  with assms Attr_write show ?thesis by (auto split: option.splits prod.splits)
qed

lemma session_typed:
  "typed d \<Longrightarrow> attr_session attrs xs d = (rs, d') \<Longrightarrow> typed d' \<and> (\<forall>r\<in>set rs. snd r = [] \<or> shows_page r)"
proof (induction xs arbitrary: d rs d')
  case (Cons x xs)
  obtain r d1 where 1: "attr_step attrs x d = (r, d1)" by fastforce
  obtain rs1 d2 where 2: "attr_session attrs xs d1 = (rs1, d2)" by fastforce
  from step_typed [OF Cons.prems(1) 1] Cons.IH [OF _ 2] Cons.prems(2) 1 2 show ?case by auto
qed simp

text \<open>A file whose mode lets nobody read it answers a read with \<open>-EIO\<close>, and likewise for writes.\<close>

lemma access_follows_mode:
  assumes "attr_lookup attrs n = Some a"
  shows "(attr_mode a AND S_IRUGO = 0 \<longrightarrow> attr_step attrs (Attr_read n) d = ((- EIO, []), d)) \<and>
    (attr_mode a AND S_IWUGO = 0 \<longrightarrow> attr_step attrs (Attr_write n buf) d = ((- EIO, []), d))"
  using coherent [of a] assms by (auto simp: attr_coherent_def dest!: attr_lookupD)

end

end
