(* ===== verification/Pltdrv_Attr.thy ===== *)
theory Pltdrv_Attr
  imports Plt_Fifo Sysfs
begin

text \<open>
  The platform driver of \<open>08.pltdrv_attr/pltdrv_attr.c\<close>: the driver of \<open>07.pltdrv\<close> with two sysfs
  attributes per device, \<open>fifosize\<close> (read only) and \<open>fifoversion\<close>, created as a group by probe
  and removed last by remove. \<open>kstrtol\<close> is the kernel's number parser, a parameter that
  returns the error code and the number.
\<close>

section \<open>File operations\<close>

definition pattr_open :: "nat \<Rightarrow> 'f plt_state \<Rightarrow> (int \<times> nat, 'f plt_state) outcome" where
  "pattr_open i_cdev s = Ret (0, i_cdev) s"

definition pattr_release :: "nat \<Rightarrow> 'f plt_state \<Rightarrow> (int, 'f plt_state) outcome" where
  "pattr_release p s = Ret 0 s"

definition pattr_write ::
    "'f kfifo_api \<Rightarrow> bool \<Rightarrow> byte list \<Rightarrow> nat \<Rightarrow> 'f fifo_prvt_devc \<Rightarrow> (int, 'f fifo_prvt_devc) outcome" where
  "pattr_write K sig buf count dev =
     (if pf_w_f_lock dev then (if sig then Ret (- ERESTARTSYS) dev else Blocked dev)
      else
        let dev1 = dev\<lparr>pf_w_f_lock := True\<rparr>;
            (ret, copiedin, f) = kf_from_user K (pf_myfifo dev1) buf count;
            dev2 = dev1\<lparr>pf_myfifo := f, pf_w_f_lock := False\<rparr>
        in if ret \<noteq> 0 then Ret ret dev2 else Ret (int count) dev2)"

definition pattr_read ::
    "'f kfifo_api \<Rightarrow> bool \<Rightarrow> nat \<Rightarrow> nat \<Rightarrow> 'f fifo_prvt_devc \<Rightarrow> (int \<times> byte list, 'f fifo_prvt_devc) outcome" where
  "pattr_read K sig room count dev =
     (if pf_r_f_lock dev then (if sig then Ret (- ERESTARTSYS, []) dev else Blocked dev)
      else
        let dev1 = dev\<lparr>pf_r_f_lock := True\<rparr>;
            (ret, out, f) = kf_to_user K (pf_myfifo dev1) room count;
            dev2 = dev1\<lparr>pf_myfifo := f, pf_r_f_lock := False\<rparr>
        in if ret \<noteq> 0 then Ret (ret, out) dev2 else Ret (int (length out), out) dev2)"

section \<open>Sysfs attributes\<close>

definition show_fsize :: "'f fifo_prvt_devc \<Rightarrow> int \<times> string" where
  "show_fsize dev_data =
     (let buf = ''sysfs show : device fifo size '' @ dec (fsize (plt_data_prv dev_data)) @ [CHR 0x0A]
      in (int (length buf), buf))"

definition show_fversion :: "'f fifo_prvt_devc \<Rightarrow> int \<times> string" where
  "show_fversion dev_data =
     (let buf = ''sysfs show : device fifo version '' @ dec (version (plt_data_prv dev_data)) @ [CHR 0x0A]
      in (int (length buf), buf))"

definition store_fversion ::
    "(string \<Rightarrow> int \<times> int) \<Rightarrow> string \<Rightarrow> nat \<Rightarrow> 'f fifo_prvt_devc \<Rightarrow> int \<times> 'f fifo_prvt_devc" where
  "store_fversion kstrtol buf count dev_data =
     (case kstrtol buf of (ret, ver) \<Rightarrow>
        if ret \<noteq> 0 then (ret, dev_data)
        else (int count, dev_data\<lparr>plt_data_prv := (plt_data_prv dev_data)\<lparr>version := to_s32 ver\<rparr>\<rparr>))"

definition fifo_attrs :: "(string \<Rightarrow> int \<times> int) \<Rightarrow> 'f fifo_prvt_devc device_attribute list" where
  "fifo_attrs kstrtol =
     [DEVICE_ATTR ''fifosize'' S_IRUGO (Some show_fsize) None,
      DEVICE_ATTR ''fifoversion'' (S_IRUGO OR S_IWUSR) (Some show_fversion) (Some (store_fversion kstrtol))]"

text \<open>The members of the platform data are of type \<open>int\<close>.\<close>

definition fifo_typed :: "'f fifo_prvt_devc \<Rightarrow> bool" where
  "fifo_typed d \<longleftrightarrow> c_int (version (plt_data_prv d)) \<and> c_int (fsize (plt_data_prv d))"

interpretation fifo08: attribute_group "fifo_attrs kstrtol" fifo_typed for kstrtol
proof
  fix a :: "'f fifo_prvt_devc device_attribute" and sh and d :: "'f fifo_prvt_devc"
  assume "a \<in> set (fifo_attrs kstrtol)" "attr_show a = Some sh" "fifo_typed d"
  then show "shows_page (sh d)"
    using length_dec_c_int [of "fsize (plt_data_prv d)"] length_dec_c_int [of "version (plt_data_prv d)"]
    by (auto simp: fifo_attrs_def DEVICE_ATTR_def shows_page_def show_fsize_def show_fversion_def Let_def
        fifo_typed_def PAGE_SIZE_def)
qed (auto simp: fifo_attrs_def device_attr_defs attr_coherent_def fifo_typed_def store_fversion_def
    split: prod.splits if_splits)

section \<open>Probe and remove\<close>

text \<open>\<open>setup_pattr_dev\<close>: initialise both mutexes, then allocate the FIFO of the requested size.\<close>

definition setup_pattr_dev ::
    "'f kfifo_api \<Rightarrow> nat \<Rightarrow> 'f fifo_prvt_devc \<Rightarrow> ('f plt_state, int) state" where
  "setup_pattr_dev K p dev = do {
     let sz = fsize (plt_data_prv dev);
     let dev1 = dev\<lparr>pf_r_f_lock := False, pf_w_f_lock := False\<rparr>;
     dev_set_drvdata p dev1;
     ret \<leftarrow> kfifo_alloc p sz;
     (if ret = 0 then dev_set_drvdata p (dev1\<lparr>pf_myfifo := kf_make K sz\<rparr>) else return ());
     return ret
   }"

definition uninstall_pattr_dev :: "nat \<Rightarrow> ('f plt_state, unit) state" where
  "uninstall_pattr_dev p = do { kfifo_free p; return () }"

definition pattr_err_destruct_device :: "dev_t \<Rightarrow> int \<Rightarrow> ('f plt_state, int) state" where
  "pattr_err_destruct_device devnr ret = do { device_destroy devnr; return ret }"

definition pattr_err_unregister_cdev :: "nat \<Rightarrow> dev_t \<Rightarrow> int \<Rightarrow> ('f plt_state, int) state" where
  "pattr_err_unregister_cdev p devnr ret = do { cdev_del p; pattr_err_destruct_device devnr ret }"

definition pattr_err_setup :: "nat \<Rightarrow> dev_t \<Rightarrow> int \<Rightarrow> ('f plt_state, int) state" where
  "pattr_err_setup p devnr ret = do { uninstall_pattr_dev p; pattr_err_unregister_cdev p devnr ret }"

definition pattr_probe :: "'f kfifo_api \<Rightarrow> platform_device \<Rightarrow> ('f plt_state, int) state" where
  "pattr_probe K ofdev =
     (case platform_data ofdev of
        None \<Rightarrow> return (- ENOMEM)
      | Some plt_data \<Rightarrow> do {
          mem \<leftarrow> call (Do ''devm_kzalloc'' [int (pdev ofdev)]);
          if mem = 0 then return (- EINVAL)
          else do {
            base \<leftarrow> gets b_devnr;
            let devnr = plt_devnr base ofdev;
            let dev_data = \<lparr>pf_myfifo = kf_zero K, pf_r_f_lock = False, pf_w_f_lock = False,
              plt_data_prv = \<lparr>version = version plt_data, fsize = fsize plt_data\<rparr>, pf_devnr = devnr\<rparr>;
            dev_set_drvdata (pdev ofdev) dev_data;
            device \<leftarrow> device_create devnr;
            if IS_ERR device then return (PTR_ERR device)
            else do {
              cdev_init (pdev ofdev);
              ret \<leftarrow> cdev_add (pdev ofdev) devnr;
              if ret \<noteq> 0 then pattr_err_destruct_device devnr ret
              else do {
                ret \<leftarrow> setup_pattr_dev K (pdev ofdev) dev_data;
                if ret \<noteq> 0 then pattr_err_unregister_cdev (pdev ofdev) devnr ret
                else do {
                  ret \<leftarrow> call (Get (Sysfs_group (pdev ofdev)) []);
                  if ret \<noteq> 0 then pattr_err_setup (pdev ofdev) devnr ret
                  else do {
                    modify (\<lambda>s. s\<lparr>nr_devcs_probed := nr_devcs_probed s + 1\<rparr>);
                    return 0
                  }}}}}})"

definition pattr_remove :: "platform_device \<Rightarrow> ('f plt_state, int) state" where
  "pattr_remove ofdev = do {
     data \<leftarrow> gets drvdata;
     (case data (pdev ofdev) of
        None \<Rightarrow> do { call (Do ''oops'' []); return 0 }
      | Some dev_data \<Rightarrow> do {
          uninstall_pattr_dev (pdev ofdev);
          cdev_del (pdev ofdev);
          device_destroy (pf_devnr dev_data);
          call (Put (Sysfs_group (pdev ofdev)));
          modify (\<lambda>s. s\<lparr>nr_devcs_probed := nr_devcs_probed s - 1\<rparr>);
          return 0
        })
   }"

section \<open>Loading and unloading\<close>

definition pattr_err_unregister_chrdev :: "int \<Rightarrow> ('f plt_state, int) state" where
  "pattr_err_unregister_chrdev ret = do { unregister_chrdev_region; return ret }"

definition pattr_init :: "('f plt_state, int) state" where
  "pattr_init = do {
     (ret, nr) \<leftarrow> alloc_chrdev_region 0 2;
     if ret < 0 then return ret
     else do {
       modify (\<lambda>s. s\<lparr>b_devnr := word_of_int nr\<rparr>);
       new_class \<leftarrow> class_create;
       if IS_ERR new_class then pattr_err_unregister_chrdev (PTR_ERR new_class)
       else do {
         call (Do ''platform_driver_register'' []);
         return 0
       }}}"

definition pattr_exit :: "('f plt_state, unit) state" where
  "pattr_exit = do {
     call (Do ''platform_driver_unregister'' []);
     class_destroy;
     unregister_chrdev_region;
     return ()
   }"

lemmas pattr_probe_defs = pattr_probe_def pattr_err_destruct_device_def
  pattr_err_unregister_cdev_def pattr_err_setup_def uninstall_pattr_dev_def setup_pattr_dev_def dev_set_drvdata_def

section \<open>The calls as a byte pipe\<close>

definition pattr_ok :: "('f \<Rightarrow> bool) \<Rightarrow> 'f fifo_prvt_devc \<Rightarrow> bool" where
  "pattr_ok fok d \<longleftrightarrow> fok (pf_myfifo d) \<and> \<not> pf_r_f_lock d \<and> \<not> pf_w_f_lock d"

sublocale kfifo_contract \<subseteq> pattr: byte_pipe "pattr_write K False" "pattr_read K False"
  "\<lambda>d. content (pf_myfifo d)" "\<lambda>d. cap (pf_myfifo d)" "pattr_ok fok"
proof
  fix d :: "'f fifo_prvt_devc" and bs :: "byte list"
  assume ok: "pattr_ok fok d"
  then have "fok (pf_myfifo d)" by (simp add: pattr_ok_def)
  from from_user_exact [OF this, of bs] ok
  show "\<exists>r d'. pattr_write K False bs (length bs) d = Ret r d' \<and> pattr_ok fok d' \<and>
      cap (pf_myfifo d') = cap (pf_myfifo d) \<and>
      content (pf_myfifo d') =
        content (pf_myfifo d) @ take (cap (pf_myfifo d) - length (content (pf_myfifo d))) bs"
    by (auto simp: pattr_write_def pattr_ok_def)
next
  fix d :: "'f fifo_prvt_devc" and k
  assume ok: "pattr_ok fok d"
  then have "fok (pf_myfifo d)" by (simp add: pattr_ok_def)
  from to_user_exact [OF this, of k] ok
  show "\<exists>d'. pattr_read K False k k d =
      Ret (int (length (take k (content (pf_myfifo d)))), take k (content (pf_myfifo d))) d' \<and>
      pattr_ok fok d' \<and> cap (pf_myfifo d') = cap (pf_myfifo d) \<and>
      content (pf_myfifo d') = drop k (content (pf_myfifo d))"
    by (auto simp: pattr_read_def pattr_ok_def)
qed

section \<open>The driver meets the driver core's contract\<close>

definition pattr_res :: "dev_t \<Rightarrow> platform_device \<Rightarrow> chr_res set" where
  "pattr_res base d = {Dev_node (plt_devnr base d), Char_dev (pdev d), Fifo (pdev d),
     Sysfs_group (pdev d)}"

lemma pattr_probe_law:
  assumes "holds R s" and "pattr_res (b_devnr s) d \<inter> R = {}" and "run_state (pattr_probe K d) s = (r, t)"
  shows "b_devnr t = b_devnr s \<and> holds (if r = 0 then R \<union> pattr_res (b_devnr s) d else R) t \<and>
    nr_devcs_probed t = nr_devcs_probed s + (if r = 0 then 1 else 0) \<and>
    (r = 0 \<longrightarrow> bound_ok d t) \<and> (\<forall>p. p \<noteq> pdev d \<longrightarrow> drvdata t p = drvdata s p)"
proof -
  from assms(1) obtain H where H: "held chr_conv s = Some H" "set H = R" "distinct H" by (rule holdsE)
  with assms(2) have "Dev_node (plt_devnr (b_devnr s) d) \<notin> set H" "Char_dev (pdev d) \<notin> set H"
    "Fifo (pdev d) \<notin> set H" "Sysfs_group (pdev d) \<notin> set H" by (auto simp: pattr_res_def)
  with H(1) assms(3) show ?thesis
    by (auto simp: pattr_probe_defs holds_def held_def ledger_append bound_ok_def pattr_res_def
        H(2) [symmetric] PTR_ERR_def remove1_append Let_def split: if_splits option.splits)
qed

lemma pattr_remove_law:
  assumes "holds R s" and "pattr_res (b_devnr s) d \<subseteq> R" and "bound_ok d s"
    and "run_state (pattr_remove d) s = (r, t)"
  shows "b_devnr t = b_devnr s \<and> holds (R - pattr_res (b_devnr s) d) t \<and>
    nr_devcs_probed t = nr_devcs_probed s - 1 \<and> drvdata t = drvdata s"
proof -
  from assms(1) obtain H where H: "held chr_conv s = Some H" "set H = R" "distinct H" by (rule holdsE)
  with assms(2) have "Dev_node (plt_devnr (b_devnr s) d) \<in> set H" "Char_dev (pdev d) \<in> set H"
    "Fifo (pdev d) \<in> set H" "Sysfs_group (pdev d) \<in> set H" by (auto simp: pattr_res_def)
  with H assms(3,4) show ?thesis
    by (auto simp: pattr_remove_def uninstall_pattr_dev_def holds_def held_def ledger_append
        bound_ok_def pattr_res_def set_remove1_eq distinct_remove1 split: option.splits)
qed

interpretation plt08: platform_driver "pattr_probe K" pattr_remove pattr_res for K
proof
  show "pattr_res base d \<inter> pattr_res base e = {}"
    if "pdev d \<noteq> pdev e" "(word_of_int (pdev_id d) :: dev_t) \<noteq> word_of_int (pdev_id e)" for base d e
    using that by (auto simp: pattr_res_def plt_devnr_def)
  show "pattr_res base d \<inter> {Chrdev_region, Dev_class} = {}" for base d
    by (simp add: pattr_res_def)
qed (rule pattr_probe_law pattr_remove_law, assumption+)+

section \<open>Properties\<close>

text \<open>The state after a first \<open>pattr_init\<close> that succeeded starts every session.\<close>

lemma pattr_init_session:
  assumes "ktrace s = []" and "nr_devcs_probed s = 0"
    and "run_state pattr_init s = (0, s1)" and "failures chr_conv (ktrace s1) = []"
  shows "platform_driver.session_inv pattr_res [] s1"
  using assms unfolding plt08.session_inv_def holds_def held_def ledger_def
  by (simp add: pattr_init_def pattr_err_unregister_chrdev_def split: if_splits; clarsimp)

lemma pattr_exit_empties:
  "holds {Chrdev_region, Dev_class} s \<Longrightarrow> held chr_conv (exec pattr_exit s) = Some []"
  by (elim holdsE)
    (auto simp: exec_def pattr_exit_def held_def ledger_append set_remove1_eq distinct_remove1
      simp flip: set_empty)

text \<open>
  After \<open>pattr_init\<close>, whatever devices the driver core probes and removes, and whichever of the
  driver's calls the kernel fails, the driver holds the region, the class and exactly the
  node, character device, FIFO and attribute group of each bound device; \<open>nr_devcs_probed\<close> counts the bound devices; and once
  every device is removed, \<open>pattr_exit\<close> leaves nothing acquired.
\<close>

theorem pattr_sessions_hold_what_is_bound:
  assumes "ktrace s = []" and "nr_devcs_probed s = 0"
    and "run_state pattr_init s = (0, s1)" and "failures chr_conv (ktrace s1) = []"
    and "plt_session (pattr_probe K) pattr_remove es [] s1 = (bound, t)"
  shows "holds ({Chrdev_region, Dev_class} \<union> (\<Union>d\<in>set bound.
      {Dev_node (b_devnr t + word_of_int (pdev_id d)), Char_dev (pdev d), Fifo (pdev d), Sysfs_group (pdev d)})) t \<and>
    nr_devcs_probed t = of_nat (length bound) \<and>
    (bound = [] \<longrightarrow> held chr_conv (exec pattr_exit t) = Some [])"
  using plt08.session_keeps_inv [OF pattr_init_session [OF assms(1-4)] assms(5)]
  by (auto simp: plt08.session_inv_def pattr_res_def plt_devnr_def intro: pattr_exit_empties)

lemma pattr_example_init:
  "run_state pattr_init plt_example = (0, exec pattr_init plt_example)"
  "failures chr_conv (ktrace (exec pattr_init plt_example)) = []"
  "kres (exec pattr_init plt_example) = all_well"
  by (simp_all add: pattr_init_def plt_example_def exec_def IS_ERR_def all_well_def)

lemma pattr_probe_well:
  "kres s = all_well \<Longrightarrow> \<exists>t. run_state (pattr_probe K (plt_pdev p i)) s = (0, t) \<and> kres t = all_well"
  by (simp add: pattr_probe_defs plt_pdev_def all_well_def Let_def)

theorem pattr_sessions_hold_what_is_bound_witness:
  "\<exists>t. plt_session (pattr_probe ring_api) pattr_remove
      [Probe (plt_pdev 5 0), Probe (plt_pdev 6 1), Remove (plt_pdev 5 0), Remove (plt_pdev 6 1)] []
      (exec pattr_init plt_example) = ([], t) \<and> held chr_conv (exec pattr_exit t) = Some []"
proof -
  obtain s2 where s2: "run_state (pattr_probe ring_api (plt_pdev 5 0)) (exec pattr_init plt_example) = (0, s2)"
    "kres s2 = all_well" using pattr_probe_well [OF pattr_example_init(3)] by blast
  obtain s3 where s3: "run_state (pattr_probe ring_api (plt_pdev 6 1)) s2 = (0, s3)"
    using pattr_probe_well [OF s2(2)] by blast
  obtain t where t: "plt_session (pattr_probe ring_api) pattr_remove
      [Probe (plt_pdev 5 0), Probe (plt_pdev 6 1), Remove (plt_pdev 5 0), Remove (plt_pdev 6 1)] []
      (exec pattr_init plt_example) = ([], t)"
    by (simp add: s2 s3 bindable_def case_prod_unfold)
  have "ktrace plt_example = []" "nr_devcs_probed plt_example = 0" by (simp_all add: plt_example_def)
  from pattr_sessions_hold_what_is_bound [OF this pattr_example_init(1,2) t] t show ?thesis by blast
qed


definition attr_kstrtol :: "string \<Rightarrow> int \<times> int" where
  "attr_kstrtol s = (if s = ''5'' then (0, 5) else if s = ''4294967301'' then (0, 4294967301) else (- EINVAL, 0))"

definition attr_dev :: "ring fifo_prvt_devc" where
  "attr_dev = \<lparr>pf_myfifo = \<lparr>rdata = [], rin = 0, rout = 0\<rparr>, pf_r_f_lock = False, pf_w_f_lock = False,
     plt_data_prv = \<lparr>version = 170, fsize = 8\<rparr>, pf_devnr = 0\<rparr>"


end
