(* ===== verification/Pltdrv_Attr_Dt.thy ===== *)
theory Pltdrv_Attr_Dt
  imports Plt_Fifo Sysfs
begin

text \<open>
  The platform driver of \<open>12.pltdrv_attr_dt/pltdrv_attr_dt.c\<close>: the driver of \<open>08.pltdrv_attr\<close> that also
  binds devices described in the device tree. A device that matches the driver's table reads its
  version and size from its node and takes as its number the count of devices probed so far; any
  other device brings its platform data and its own number.

  A device carries the \<open>compatible\<close> strings of its node, if it has a node; it matches when one of them is in the
  driver's table (\<open>of_match_device\<close>). The property reads of \<open>parse_dt_arg_devcs\<close> are kernel calls with an output parameter. The variable
  \<open>prv_drv.device\<close>, which only holds the pointer just returned, is a local variable here.
\<close>

section \<open>File operations\<close>

definition dt_open :: "nat \<Rightarrow> 'f plt_state \<Rightarrow> (int \<times> nat, 'f plt_state) outcome" where
  "dt_open i_cdev s = Ret (0, i_cdev) s"

definition dt_release :: "nat \<Rightarrow> 'f plt_state \<Rightarrow> (int, 'f plt_state) outcome" where
  "dt_release p s = Ret 0 s"

definition dt_write ::
    "'f kfifo_api \<Rightarrow> bool \<Rightarrow> byte list \<Rightarrow> nat \<Rightarrow> 'f fifo_prvt_devc \<Rightarrow> (int, 'f fifo_prvt_devc) outcome" where
  "dt_write K sig buf count dev =
     (if pf_w_f_lock dev then (if sig then Ret (- ERESTARTSYS) dev else Blocked dev)
      else
        let dev1 = dev\<lparr>pf_w_f_lock := True\<rparr>;
            (ret, copiedin, f) = kf_from_user K (pf_myfifo dev1) buf count;
            dev2 = dev1\<lparr>pf_myfifo := f, pf_w_f_lock := False\<rparr>
        in if ret \<noteq> 0 then Ret ret dev2 else Ret (int count) dev2)"

definition dt_read ::
    "'f kfifo_api \<Rightarrow> bool \<Rightarrow> nat \<Rightarrow> nat \<Rightarrow> 'f fifo_prvt_devc \<Rightarrow> (int \<times> byte list, 'f fifo_prvt_devc) outcome" where
  "dt_read K sig room count dev =
     (if pf_r_f_lock dev then (if sig then Ret (- ERESTARTSYS, []) dev else Blocked dev)
      else
        let dev1 = dev\<lparr>pf_r_f_lock := True\<rparr>;
            (ret, out, f) = kf_to_user K (pf_myfifo dev1) room count;
            dev2 = dev1\<lparr>pf_myfifo := f, pf_r_f_lock := False\<rparr>
        in if ret \<noteq> 0 then Ret (ret, out) dev2 else Ret (int (length out), out) dev2)"

section \<open>Sysfs attributes\<close>

definition dt_show_fsize :: "'f fifo_prvt_devc \<Rightarrow> int \<times> string" where
  "dt_show_fsize dev_data =
     (let buf = ''sysfs show : device fifo size '' @ dec (fsize (plt_data_prv dev_data)) @ [CHR 0x0A]
      in (int (length buf), buf))"

definition dt_show_fversion :: "'f fifo_prvt_devc \<Rightarrow> int \<times> string" where
  "dt_show_fversion dev_data =
     (let buf = ''sysfs show : device fifo version '' @ dec (version (plt_data_prv dev_data)) @ [CHR 0x0A]
      in (int (length buf), buf))"

definition dt_store_fversion ::
    "(string \<Rightarrow> int \<times> int) \<Rightarrow> string \<Rightarrow> nat \<Rightarrow> 'f fifo_prvt_devc \<Rightarrow> int \<times> 'f fifo_prvt_devc" where
  "dt_store_fversion kstrtol buf count dev_data =
     (case kstrtol buf of (ret, ver) \<Rightarrow>
        if ret \<noteq> 0 then (ret, dev_data)
        else (int count, dev_data\<lparr>plt_data_prv := (plt_data_prv dev_data)\<lparr>version := to_s32 ver\<rparr>\<rparr>))"

definition dt_fifo_attrs :: "(string \<Rightarrow> int \<times> int) \<Rightarrow> 'f fifo_prvt_devc device_attribute list" where
  "dt_fifo_attrs kstrtol =
     [DEVICE_ATTR ''fifosize'' S_IRUGO (Some dt_show_fsize) None,
      DEVICE_ATTR ''fifoversion'' (S_IRUGO OR S_IWUSR) (Some dt_show_fversion) (Some (dt_store_fversion kstrtol))]"

section \<open>Probe and remove\<close>

text \<open>\<open>setup_dt_dev\<close>: initialise both mutexes, then allocate the FIFO of the requested size.\<close>

definition setup_dt_dev ::
    "'f kfifo_api \<Rightarrow> nat \<Rightarrow> 'f fifo_prvt_devc \<Rightarrow> ('f plt_state, int) state" where
  "setup_dt_dev K p dev = do {
     let sz = fsize (plt_data_prv dev);
     let dev1 = dev\<lparr>pf_r_f_lock := False, pf_w_f_lock := False\<rparr>;
     dev_set_drvdata p dev1;
     ret \<leftarrow> kfifo_alloc p sz;
     (if ret = 0 then dev_set_drvdata p (dev1\<lparr>pf_myfifo := kf_make K sz\<rparr>) else return ());
     return ret
   }"

definition uninstall_dt_dev :: "nat \<Rightarrow> ('f plt_state, unit) state" where
  "uninstall_dt_dev p = do { kfifo_free p; return () }"

definition dt_err_destruct_device :: "dev_t \<Rightarrow> int \<Rightarrow> ('f plt_state, int) state" where
  "dt_err_destruct_device devnr ret = do { device_destroy devnr; return ret }"

definition dt_err_unregister_cdev :: "nat \<Rightarrow> dev_t \<Rightarrow> int \<Rightarrow> ('f plt_state, int) state" where
  "dt_err_unregister_cdev p devnr ret = do { cdev_del p; dt_err_destruct_device devnr ret }"

definition dt_err_setup :: "nat \<Rightarrow> dev_t \<Rightarrow> int \<Rightarrow> ('f plt_state, int) state" where
  "dt_err_setup p devnr ret = do { uninstall_dt_dev p; dt_err_unregister_cdev p devnr ret }"

text \<open>
  \<open>parse_dt_arg_devcs\<close> returns \<open>NULL\<close>, an error pointer or the data it read.
\<close>

datatype plt_ptr = Null_data | Err_data int | Plt_data pltdata_fifo

record dt_device = platform_device +
  of_node :: "string list option"

definition pltdrv_dt_matchtbl_devcs :: "string list" where
  "pltdrv_dt_matchtbl_devcs = [''org,pltdrv-fifo-0'', ''org,pltdrv-fifo-1'']"

definition dt_match :: "dt_device \<Rightarrow> bool" where
  "dt_match d = (case of_node d of None \<Rightarrow> False
     | Some compatible \<Rightarrow> list_ex (\<lambda>c. c \<in> set pltdrv_dt_matchtbl_devcs) compatible)"

definition parse_dt_arg_devcs :: "dt_device \<Rightarrow> ('f plt_state, plt_ptr) state" where
  "parse_dt_arg_devcs d =
     (if of_node d = None then return Null_data
      else do {
        mem \<leftarrow> call (Do ''devm_kzalloc plt_data'' [int (pdev d)]);
        if mem = 0 then return (Err_data (- ENOMEM))
        else do {
          (r1, ver) \<leftarrow> call_out (Do ''of_property_read_s32 org,version'' [int (pdev d)]);
          if r1 \<noteq> 0 then return (Err_data (- EINVAL))
          else do {
            (r2, sz) \<leftarrow> call_out (Do ''of_property_read_s32 org,fsize'' [int (pdev d)]);
            if r2 \<noteq> 0 then return (Err_data (- EINVAL))
            else return (Plt_data \<lparr>version = to_s32 ver, fsize = to_s32 sz\<rparr>)
          }}})"

text \<open>The body of \<open>dt_probe\<close> from the check of \<open>plt_data\<close> on.\<close>

definition dt_probe_data :: "'f kfifo_api \<Rightarrow> dt_device \<Rightarrow> plt_ptr \<Rightarrow> int \<Rightarrow> ('f plt_state, int) state" where
  "dt_probe_data K ofdev ptr data_id =
     (case ptr of
        Null_data \<Rightarrow> return (- EINVAL)
      | Err_data e \<Rightarrow> return (- ENOMEM)
      | Plt_data plt_data \<Rightarrow> do {
          mem \<leftarrow> call (Do ''devm_kzalloc'' [int (pdev ofdev)]);
          if mem = 0 then return (- EINVAL)
          else do {
            base \<leftarrow> gets b_devnr;
            let devnr = base + word_of_int data_id;
            let dev_data = \<lparr>pf_myfifo = kf_zero K, pf_r_f_lock = False, pf_w_f_lock = False,
              plt_data_prv = \<lparr>version = version plt_data, fsize = fsize plt_data\<rparr>, pf_devnr = devnr\<rparr>;
            dev_set_drvdata (pdev ofdev) dev_data;
            device \<leftarrow> device_create devnr;
            if IS_ERR device then return (PTR_ERR device)
            else do {
              cdev_init (pdev ofdev);
              ret \<leftarrow> cdev_add (pdev ofdev) devnr;
              if ret \<noteq> 0 then dt_err_destruct_device devnr ret
              else do {
                ret \<leftarrow> setup_dt_dev K (pdev ofdev) dev_data;
                if ret \<noteq> 0 then dt_err_unregister_cdev (pdev ofdev) devnr ret
                else do {
                  ret \<leftarrow> call (Get (Sysfs_group (pdev ofdev)) []);
                  if ret \<noteq> 0 then dt_err_setup (pdev ofdev) devnr ret
                  else do {
                    modify (\<lambda>s. s\<lparr>nr_devcs_probed := nr_devcs_probed s + 1\<rparr>);
                    return 0
                  }}}}}})"

definition dt_probe :: "'f kfifo_api \<Rightarrow> dt_device \<Rightarrow> ('f plt_state, int) state" where
  "dt_probe K ofdev =
     (if dt_match ofdev
      then do {
        ptr \<leftarrow> parse_dt_arg_devcs ofdev;
        nr \<leftarrow> gets nr_devcs_probed;
        dt_probe_data K ofdev ptr (sint nr)
      }
      else dt_probe_data K ofdev
        (case platform_data ofdev of None \<Rightarrow> Null_data | Some x \<Rightarrow> Plt_data x) (pdev_id ofdev))"

definition dt_remove :: "dt_device \<Rightarrow> ('f plt_state, int) state" where
  "dt_remove ofdev = do {
     data \<leftarrow> gets drvdata;
     (case data (pdev ofdev) of
        None \<Rightarrow> do { call (Do ''oops'' []); return 0 }
      | Some dev_data \<Rightarrow> do {
          call (Put (Sysfs_group (pdev ofdev)));
          uninstall_dt_dev (pdev ofdev);
          cdev_del (pdev ofdev);
          device_destroy (pf_devnr dev_data);
          modify (\<lambda>s. s\<lparr>nr_devcs_probed := nr_devcs_probed s - 1\<rparr>);
          return 0
        })
   }"

section \<open>Loading and unloading\<close>

definition dt_err_unregister_chrdev :: "int \<Rightarrow> ('f plt_state, int) state" where
  "dt_err_unregister_chrdev ret = do { unregister_chrdev_region; return ret }"

definition dt_init :: "('f plt_state, int) state" where
  "dt_init = do {
     (ret, nr) \<leftarrow> alloc_chrdev_region 0 2;
     if ret < 0 then return ret
     else do {
       modify (\<lambda>s. s\<lparr>b_devnr := word_of_int nr\<rparr>);
       new_class \<leftarrow> class_create;
       if IS_ERR new_class then dt_err_unregister_chrdev (PTR_ERR new_class)
       else do {
         call (Do ''platform_driver_register'' []);
         return 0
       }}}"

definition dt_exit :: "('f plt_state, unit) state" where
  "dt_exit = do {
     call (Do ''platform_driver_unregister'' []);
     class_destroy;
     unregister_chrdev_region;
     return ()
   }"

lemmas dt_probe_defs = dt_probe_def dt_probe_data_def parse_dt_arg_devcs_def dt_err_destruct_device_def
  dt_err_unregister_cdev_def dt_err_setup_def uninstall_dt_dev_def setup_dt_dev_def dev_set_drvdata_def

section \<open>The calls as a byte pipe\<close>

definition dt_ok :: "('f \<Rightarrow> bool) \<Rightarrow> 'f fifo_prvt_devc \<Rightarrow> bool" where
  "dt_ok fok d \<longleftrightarrow> fok (pf_myfifo d) \<and> \<not> pf_r_f_lock d \<and> \<not> pf_w_f_lock d"

sublocale kfifo_contract \<subseteq> dt: byte_pipe "dt_write K False" "dt_read K False"
  "\<lambda>d. content (pf_myfifo d)" "\<lambda>d. cap (pf_myfifo d)" "dt_ok fok"
proof
  fix d :: "'f fifo_prvt_devc" and bs :: "byte list"
  assume ok: "dt_ok fok d"
  then have "fok (pf_myfifo d)" by (simp add: dt_ok_def)
  from from_user_exact [OF this, of bs] ok
  show "\<exists>r d'. dt_write K False bs (length bs) d = Ret r d' \<and> dt_ok fok d' \<and>
      cap (pf_myfifo d') = cap (pf_myfifo d) \<and>
      content (pf_myfifo d') =
        content (pf_myfifo d) @ take (cap (pf_myfifo d) - length (content (pf_myfifo d))) bs"
    by (auto simp: dt_write_def dt_ok_def)
next
  fix d :: "'f fifo_prvt_devc" and k
  assume ok: "dt_ok fok d"
  then have "fok (pf_myfifo d)" by (simp add: dt_ok_def)
  from to_user_exact [OF this, of k] ok
  show "\<exists>d'. dt_read K False k k d =
      Ret (int (length (take k (content (pf_myfifo d)))), take k (content (pf_myfifo d))) d' \<and>
      dt_ok fok d' \<and> cap (pf_myfifo d') = cap (pf_myfifo d) \<and>
      content (pf_myfifo d') = drop k (content (pf_myfifo d))"
    by (auto simp: dt_read_def dt_ok_def)
qed

section \<open>What probe and remove do to the ledger\<close>

text \<open>The number a device gets: the count of probed devices, or its own.\<close>

definition dt_devnr :: "dt_device \<Rightarrow> 'f plt_state \<Rightarrow> dev_t" where
  "dt_devnr d s = b_devnr s + (if dt_match d then nr_devcs_probed s else word_of_int (pdev_id d))"

definition dt_res :: "nat \<Rightarrow> dev_t \<Rightarrow> chr_res set" where
  "dt_res p n = {Dev_node n, Char_dev p, Fifo p, Sysfs_group p}"

definition dt_bound :: "dt_device \<Rightarrow> dev_t \<Rightarrow> 'f plt_state \<Rightarrow> bool" where
  "dt_bound d n s \<longleftrightarrow> map_option pf_devnr (drvdata s (pdev d)) = Some n"

lemma dt_probe_law:
  assumes "holds R s" and "dt_res (pdev d) (dt_devnr d s) \<inter> R = {}"
    and "run_state (dt_probe K d) s = (r, t)"
  shows "b_devnr t = b_devnr s \<and>
    holds (if r = 0 then R \<union> dt_res (pdev d) (dt_devnr d s) else R) t \<and>
    nr_devcs_probed t = nr_devcs_probed s + (if r = 0 then 1 else 0) \<and>
    (r = 0 \<longrightarrow> dt_bound d (dt_devnr d s) t) \<and> (\<forall>p. p \<noteq> pdev d \<longrightarrow> drvdata t p = drvdata s p)"
proof -
  from assms(1) obtain H where H: "held chr_conv s = Some H" "set H = R" "distinct H" by (rule holdsE)
  with assms(2) have "Dev_node (dt_devnr d s) \<notin> set H" "Char_dev (pdev d) \<notin> set H"
    "Fifo (pdev d) \<notin> set H" "Sysfs_group (pdev d) \<notin> set H" by (auto simp: dt_res_def)
  with H(1) assms(3) show ?thesis
    by (auto simp: dt_probe_defs holds_def held_def ledger_append dt_bound_def dt_res_def dt_devnr_def
        H(2) [symmetric] PTR_ERR_def remove1_append Let_def
        split: if_splits option.splits plt_ptr.splits prod.splits)
qed

lemma dt_remove_law:
  assumes "holds R s" and "dt_res (pdev d) n \<subseteq> R" and "dt_bound d n s"
    and "run_state (dt_remove d) s = (r, t)"
  shows "b_devnr t = b_devnr s \<and> holds (R - dt_res (pdev d) n) t \<and>
    nr_devcs_probed t = nr_devcs_probed s - 1 \<and> drvdata t = drvdata s"
proof -
  from assms(1) obtain H where H: "held chr_conv s = Some H" "set H = R" "distinct H" by (rule holdsE)
  with assms(2) have "Dev_node n \<in> set H" "Char_dev (pdev d) \<in> set H"
    "Fifo (pdev d) \<in> set H" "Sysfs_group (pdev d) \<in> set H" by (auto simp: dt_res_def)
  with H assms(3,4) show ?thesis
    by (auto simp: dt_remove_def uninstall_dt_dev_def holds_def held_def ledger_append
        dt_bound_def dt_res_def set_remove1_eq distinct_remove1 split: option.splits)
qed

text \<open>A probe that chooses a number already in use does not leave a sound ledger when it succeeds.\<close>

lemma dt_probe_over_held:
  assumes "holds R s" and "Dev_node (dt_devnr d s) \<in> R" and "run_state (dt_probe K d) s = (r, t)"
  shows "r = 0 \<longrightarrow> held chr_conv t = None"
proof -
  from assms(1) obtain H where H: "held chr_conv s = Some H" "set H = R" by (rule holdsE)
  with assms(2) have "Dev_node (dt_devnr d s) \<in> set H" by simp
  with H(1) assms(3) show ?thesis
    by (auto simp: dt_probe_defs held_def ledger_append dt_devnr_def PTR_ERR_def Let_def
        split: if_splits option.splits plt_ptr.splits prod.splits)
qed

section \<open>Properties\<close>

text \<open>
  C32. A probe acquires exactly the node, character device, FIFO and attribute group of its device, or
  nothing when it fails at any point, and the removal of a bound device takes the ledger and the count of
  devices back to what they were before its probe, provided the number the probe chose was free.
\<close>

theorem dt_probe_then_remove:
  assumes "holds R s" and "dt_res (pdev d) (dt_devnr d s) \<inter> R = {}"
    and "run_state (dt_probe K d) s = (r, t)" and "run_state (dt_remove d) t = (r', u)"
  shows "(r \<noteq> 0 \<longrightarrow> holds R t \<and> nr_devcs_probed t = nr_devcs_probed s) \<and>
    (r = 0 \<longrightarrow> holds (R \<union> dt_res (pdev d) (dt_devnr d s)) t \<and> nr_devcs_probed t = nr_devcs_probed s + 1 \<and>
      holds R u \<and> nr_devcs_probed u = nr_devcs_probed s)"
proof (cases "r = 0")
  case True
  have p: "b_devnr t = b_devnr s" "holds (R \<union> dt_res (pdev d) (dt_devnr d s)) t"
    "nr_devcs_probed t = nr_devcs_probed s + 1" "dt_bound d (dt_devnr d s) t"
    using dt_probe_law [OF assms(1-3)] True by auto
  from dt_remove_law [OF p(2) _ p(4) assms(4)] have
    "holds (R \<union> dt_res (pdev d) (dt_devnr d s) - dt_res (pdev d) (dt_devnr d s)) u"
    "nr_devcs_probed u = nr_devcs_probed t - 1"
    by auto
  moreover have "R \<union> dt_res (pdev d) (dt_devnr d s) - dt_res (pdev d) (dt_devnr d s) = R"
    using assms(2) by auto
  ultimately show ?thesis using p True by simp
next
  case False
  then show ?thesis using dt_probe_law [OF assms(1-3)] by simp
qed

text \<open>A kernel whose calls all succeed, and matched devices with a node.\<close>

definition dt_dev :: "nat \<Rightarrow> dt_device" where
  "dt_dev p = \<lparr>pdev = p, pdev_id = - 1, platform_data = None, of_node = Some [''org,pltdrv-fifo-0'']\<rparr>"

lemma dt_dev_simps [simp]:
  "pdev (dt_dev p) = p" "dt_match (dt_dev p)" "of_node (dt_dev p) = Some [''org,pltdrv-fifo-0'']"
  by (simp_all add: dt_dev_def dt_match_def pltdrv_dt_matchtbl_devcs_def)

definition dt_well :: "nat \<Rightarrow> chr_res kcall \<Rightarrow> int" where
  "dt_well n c = (case c of
     Do f as \<Rightarrow> if f \<in> {''devm_kzalloc'', ''devm_kzalloc plt_data''} then 1 else 0 | _ \<Rightarrow> 0)"

definition dt_example :: "ring plt_state" where
  "dt_example = plt_example\<lparr>kres := dt_well, kout := (\<lambda>n c. 8), ktrace := [(Get Chrdev_region [0, 2], 0), (Get Dev_class [], 0)]\<rparr>"

lemma dt_example_holds: "holds {Chrdev_region, Dev_class} dt_example"
  by (simp add: holds_def held_def ledger_def dt_example_def)

lemma dt_probe_well:
  "kres s = dt_well \<Longrightarrow> \<exists>t. run_state (dt_probe K (dt_dev p)) s = (0, t) \<and> kres t = dt_well"
  by (simp add: dt_probe_defs dt_well_def Let_def)

lemma dt_remove_keeps_kres: "kres (snd (run_state (dt_remove d) s)) = kres s"
  by (simp add: dt_remove_def uninstall_dt_dev_def split: option.split)

theorem dt_probe_then_remove_witness:
  "holds {Chrdev_region, Dev_class}
     (exec (dt_remove (dt_dev 5)) (exec (dt_probe ring_api (dt_dev 5)) dt_example))"
proof -
  obtain t where t: "run_state (dt_probe ring_api (dt_dev 5)) dt_example = (0, t)"
    using dt_probe_well [of dt_example] by (auto simp: dt_example_def)
  obtain r' u where u: "run_state (dt_remove (dt_dev 5)) t = (r', u)" by fastforce
  have "dt_res (pdev (dt_dev 5)) (dt_devnr (dt_dev 5) dt_example) \<inter> {Chrdev_region, Dev_class} = {}"
    by (simp add: dt_res_def)
  from dt_probe_then_remove [OF dt_example_holds this t u] t u show ?thesis by (simp add: exec_def)
qed

text \<open>
  C33. A matched device is numbered by the count of devices bound, not by a free number. After two probes
  and the removal of the first device the next matched device is given the number the second one still
  holds: either its probe fails, or its device node is created over the one that exists.
\<close>

theorem dt_numbers_collide:
  assumes "holds R s" and "dt_match a" and "dt_match b" and "dt_match c"
    and "R \<inter> (dt_res (pdev a) (dt_devnr a s) \<union> dt_res (pdev b) (dt_devnr a s + 1)) = {}"
    and "pdev a \<noteq> pdev b"
    and "run_state (dt_probe K a) s = (0, s1)" and "run_state (dt_probe K b) s1 = (0, s2)"
    and "run_state (dt_remove a) s2 = (r, s3)" and "run_state (dt_probe K c) s3 = (rc, t)"
  shows "holds (R \<union> dt_res (pdev b) (dt_devnr c s3)) s3 \<and> (rc = 0 \<longrightarrow> held chr_conv t = None)"
proof -
  let ?n = "dt_devnr a s"
  have 1: "b_devnr s1 = b_devnr s" "holds (R \<union> dt_res (pdev a) ?n) s1"
    "nr_devcs_probed s1 = nr_devcs_probed s + 1" "dt_bound a ?n s1"
    using dt_probe_law [OF assms(1) _ assms(7)] assms(5) by auto
  have nb: "dt_devnr b s1 = ?n + 1" using 1 assms(2,3) by (simp add: dt_devnr_def)
  have "dt_res (pdev b) (dt_devnr b s1) \<inter> (R \<union> dt_res (pdev a) ?n) = {}"
    using assms(5,6) nb by (auto simp: dt_res_def)
  from dt_probe_law [OF 1(2) this assms(8)] have 2: "b_devnr s2 = b_devnr s"
    "holds (R \<union> dt_res (pdev a) ?n \<union> dt_res (pdev b) (?n + 1)) s2"
    "nr_devcs_probed s2 = nr_devcs_probed s + 2" "dt_bound a ?n s2"
    using 1 nb assms(6) by (auto simp: dt_bound_def)
  from dt_remove_law [OF 2(2) _ 2(4) assms(9)] have 3: "b_devnr s3 = b_devnr s"
    "holds (R \<union> dt_res (pdev a) ?n \<union> dt_res (pdev b) (?n + 1) - dt_res (pdev a) ?n) s3"
    "nr_devcs_probed s3 = nr_devcs_probed s + 1"
    using 2 by (auto simp: add.commute)
  have nc: "dt_devnr c s3 = ?n + 1" using 3 assms(2,4) by (simp add: dt_devnr_def)
  have "R \<union> dt_res (pdev a) ?n \<union> dt_res (pdev b) (?n + 1) - dt_res (pdev a) ?n = R \<union> dt_res (pdev b) (?n + 1)"
    using assms(5,6) by (auto simp: dt_res_def)
  with 3(2) nc have h: "holds (R \<union> dt_res (pdev b) (dt_devnr c s3)) s3" by simp
  have "Dev_node (dt_devnr c s3) \<in> R \<union> dt_res (pdev b) (dt_devnr c s3)" by (simp add: dt_res_def)
  with dt_probe_over_held [OF h this assms(10)] h show ?thesis by blast
qed

theorem dt_numbers_collide_witness:
  "held chr_conv (exec (dt_probe ring_api (dt_dev 7)) (exec (dt_remove (dt_dev 5))
     (exec (dt_probe ring_api (dt_dev 6)) (exec (dt_probe ring_api (dt_dev 5)) dt_example)))) = None"
proof -
  obtain s1 where s1: "run_state (dt_probe ring_api (dt_dev 5)) dt_example = (0, s1)" "kres s1 = dt_well"
    using dt_probe_well [of dt_example] by (auto simp: dt_example_def)
  obtain s2 where s2: "run_state (dt_probe ring_api (dt_dev 6)) s1 = (0, s2)" "kres s2 = dt_well"
    using dt_probe_well [OF s1(2)] by blast
  obtain r s3 where s3: "run_state (dt_remove (dt_dev 5)) s2 = (r, s3)" by fastforce
  with s2(2) dt_remove_keeps_kres [of "dt_dev 5" s2] have "kres s3 = dt_well" by simp
  then obtain t where t: "run_state (dt_probe ring_api (dt_dev 7)) s3 = (0, t)"
    using dt_probe_well by blast
  have "{Chrdev_region, Dev_class} \<inter> (dt_res (pdev (dt_dev 5)) (dt_devnr (dt_dev 5) dt_example) \<union>
      dt_res (pdev (dt_dev 6)) (dt_devnr (dt_dev 5) dt_example + 1)) = {}"
    by (simp add: dt_res_def)
  from dt_numbers_collide [OF dt_example_holds _ _ _ this _ s1(1) s2(1) s3 t] s1 s2 s3 t
  show ?thesis by (simp add: exec_def)
qed

end
