(* ===== verification/Plt_Same.thy ===== *)
theory Plt_Same
  imports Pltdevs_Load Pltdrv_Attr Pltdrv_Attr_Dt "HOL-Library.Multiset"
begin

text \<open>
  The drivers of \<open>07\<close>, \<open>08\<close> and \<open>12\<close> are successive versions of one driver. This theory says how far they are the same:
  file operations, attributes, loading and unloading are equal functions, and on a device that has platform data and does not
  match the device tree table the probe of \<open>12\<close> is the probe of \<open>08\<close>. Removal gives back the same resources,
  in another order. So a driver of \<open>12\<close> bound to the devices that \<open>06\<close> registers inherits what is proved of \<open>08\<close>.
\<close>

section \<open>Equal functions\<close>

lemma plt_same_calls:
  "pattr_write K = pltdrv_write K" "dt_write K = pltdrv_write K"
  "pattr_read K = pltdrv_read K" "dt_read K = pltdrv_read K"
  by (simp_all add: fun_eq_iff pattr_write_def pltdrv_write_def dt_write_def pattr_read_def pltdrv_read_def dt_read_def)

lemma plt_same_attrs: "dt_fifo_attrs kstrtol = fifo_attrs kstrtol"
proof -
  have "dt_show_fsize = (show_fsize :: 'a fifo_prvt_devc \<Rightarrow> _)"
    "dt_show_fversion = (show_fversion :: 'a fifo_prvt_devc \<Rightarrow> _)"
    "dt_store_fversion kstrtol = (store_fversion kstrtol :: _ \<Rightarrow> _ \<Rightarrow> 'a fifo_prvt_devc \<Rightarrow> _)"
    by (simp_all add: fun_eq_iff dt_show_fsize_def show_fsize_def dt_show_fversion_def show_fversion_def
        dt_store_fversion_def store_fversion_def)
  then show ?thesis by (simp add: dt_fifo_attrs_def fifo_attrs_def)
qed

interpretation fifo12: attribute_group "dt_fifo_attrs kstrtol" fifo_typed for kstrtol
  unfolding plt_same_attrs by (rule fifo08.attribute_group_axioms)

lemma plt_same_load: "pattr_init = pltdrv_init" "dt_init = pltdrv_init" "pattr_exit = pltdrv_exit" "dt_exit = pltdrv_exit"
  unfolding pattr_init_def pltdrv_init_def dt_init_def pattr_exit_def pltdrv_exit_def dt_exit_def
    pattr_err_unregister_chrdev_def pltdrv_err_unregister_chrdev_def dt_err_unregister_chrdev_def
  by (rule refl)+

section \<open>The probe functions\<close>

text \<open>A device of the platform bus, seen by the driver of \<open>12\<close>: it has no node.\<close>

definition plain_device :: "platform_device \<Rightarrow> dt_device" where
  "plain_device d = \<lparr>pdev = pdev d, pdev_id = pdev_id d, platform_data = platform_data d, of_node = None\<rparr>"

lemma plain_device_simps [simp]:
  "pdev (plain_device d) = pdev d" "pdev_id (plain_device d) = pdev_id d"
  "platform_data (plain_device d) = platform_data d" "\<not> dt_match (plain_device d)"
  by (simp_all add: plain_device_def dt_match_def)

lemma setup_same: "setup_dt_dev K p d = setup_pattr_dev K p d"
  by (simp add: setup_dt_dev_def setup_pattr_dev_def)

lemma probe_labels_same:
  "dt_err_destruct_device = pattr_err_destruct_device" "dt_err_unregister_cdev = pattr_err_unregister_cdev"
  "dt_err_setup = pattr_err_setup" "setup_dt_dev = setup_pattr_dev"
  unfolding dt_err_destruct_device_def pattr_err_destruct_device_def dt_err_unregister_cdev_def
    pattr_err_unregister_cdev_def dt_err_setup_def pattr_err_setup_def uninstall_dt_dev_def uninstall_pattr_dev_def
    setup_dt_dev_def setup_pattr_dev_def fun_eq_iff
  by (intro allI refl)+

lemma dt_probe_plain:
  "dt_probe K (plain_device d) = (if platform_data d = None then return (- EINVAL) else pattr_probe K d)"
  unfolding dt_probe_def dt_probe_data_def pattr_probe_def probe_labels_same plt_devnr_def plain_device_simps
  by (cases "platform_data d") simp_all

lemma pattr_probe_none: "platform_data d = None \<Longrightarrow> pattr_probe K d = return (- ENOMEM)"
  by (simp add: pattr_probe_def)

text \<open>Removal: the same calls but for the place of the attribute group.\<close>

lemma dt_remove_plain:
  assumes "drvdata s (pdev d) = Some x"
  shows "\<exists>xs ys. ktrace (exec (dt_remove (plain_device d)) s) = ktrace s @ xs \<and>
      ktrace (exec (pattr_remove d) s) = ktrace s @ ys \<and> mset (map fst xs) = mset (map fst ys) \<and>
      nr_devcs_probed (exec (dt_remove (plain_device d)) s) = nr_devcs_probed (exec (pattr_remove d) s)"
  using assms
  by (simp add: exec_def dt_remove_def pattr_remove_def uninstall_dt_dev_def uninstall_pattr_dev_def)

text \<open>So the driver of \<open>12\<close>, on devices of the platform bus, meets the contract of the driver core that \<open>07\<close> and \<open>08\<close> meet.\<close>

lemma dt_res_plain:
  "dt_res (pdev (plain_device d)) (dt_devnr (plain_device d) s) = pattr_res (b_devnr s) d"
  "dt_bound (plain_device d) (plt_devnr (b_devnr s) d) s = bound_ok d s"
  by (auto simp: dt_res_def dt_devnr_def pattr_res_def plt_devnr_def dt_bound_def bound_ok_def split: option.splits)

interpretation plt12: platform_driver "\<lambda>d. dt_probe K (plain_device d)" "\<lambda>d. dt_remove (plain_device d)" pattr_res for K
proof
  fix R s d r t
  assume 1: "holds R s" "pattr_res (b_devnr s) d \<inter> R = {}" "run_state (dt_probe K (plain_device d)) s = (r, t)"
  show "b_devnr t = b_devnr s \<and> holds (if r = 0 then R \<union> pattr_res (b_devnr s) d else R) t \<and>
      nr_devcs_probed t = nr_devcs_probed s + (if r = 0 then 1 else 0) \<and>
      (r = 0 \<longrightarrow> bound_ok d t) \<and> (\<forall>p. p \<noteq> pdev d \<longrightarrow> drvdata t p = drvdata s p)"
  proof (cases "platform_data d = None")
    case False
    with 1(3) have "run_state (pattr_probe K d) s = (r, t)" by (simp add: dt_probe_plain)
    from pattr_probe_law [OF 1(1,2) this] show ?thesis .
  qed (use 1 in \<open>auto simp: dt_probe_plain\<close>)
next
  fix R s d r t
  assume 1: "holds R s" "pattr_res (b_devnr s) d \<subseteq> R" "bound_ok d s" "run_state (dt_remove (plain_device d)) s = (r, t)"
  have "pattr_res (b_devnr s) d = dt_res (pdev (plain_device d)) (plt_devnr (b_devnr s) d)"
    by (simp add: pattr_res_def dt_res_def)
  with 1 show "b_devnr t = b_devnr s \<and> holds (R - pattr_res (b_devnr s) d) t \<and>
      nr_devcs_probed t = nr_devcs_probed s - 1 \<and> drvdata t = drvdata s"
    using dt_remove_law [of R s "plain_device d" "plt_devnr (b_devnr s) d" r t]
    by (simp add: dt_bound_def bound_ok_def split: option.splits)
qed (rule plt08.res_disjoint, assumption+, simp add: pattr_res_def)

section \<open>Properties\<close>


text \<open>
  The drivers of \<open>07\<close>, \<open>08\<close> and \<open>12\<close> make a device live before it works: in every successful probe the kernel is asked for
  the FIFO only after it has accepted the character device, so a process that opens the device in between writes to a FIFO
  that has no memory and locks a mutex that is not initialised.
\<close>

definition live_before_fifo :: "nat \<Rightarrow> (chr_res kcall \<times> int) list \<Rightarrow> bool" where
  "live_before_fifo p tr \<longleftrightarrow> (\<exists>xs as bs zs. tr = xs @ (Get (Char_dev p) as, 0) # (Get (Fifo p) bs, 0) # zs)"

lemma live_before_fifo_simps [simp]:
  "live_before_fifo p ((Get (Char_dev p) as, 0) # (Get (Fifo p) bs, 0) # zs)"
  "live_before_fifo p tr \<Longrightarrow> live_before_fifo p (e # tr)"
  unfolding live_before_fifo_def by (fastforce, metis append_Cons)

theorem device_live_before_fifo:
  assumes "run_state (pltdrv_probe K d) s = (0, t) \<or> run_state (pattr_probe K d) s = (0, t) \<or>
    run_state (dt_probe K (plain_device d)) s = (0, t)"
  shows "\<exists>ev. ktrace t = ktrace s @ ev \<and> live_before_fifo (pdev d) ev"
proof -
  have "run_state (pltdrv_probe K d) s = (0, t) \<or> run_state (pattr_probe K d) s = (0, t)"
    using assms by (auto simp: dt_probe_plain split: if_splits)
  then show ?thesis
    by (elim disjE) (auto simp: pltdrv_probe_defs pattr_probe_defs PTR_ERR_def Let_def split: option.splits if_splits)
qed

theorem device_live_before_fifo_witness:
  "\<exists>ev. ktrace (exec (pltdrv_probe ring_api (plt_pdev 5 0)) plt_example) = ktrace plt_example @ ev \<and>
    live_before_fifo 5 ev"
proof -
  have "kres plt_example = all_well" by (simp add: plt_example_def)
  then obtain t where r: "run_state (pltdrv_probe ring_api (plt_pdev 5 0)) plt_example = (0, t)"
    using pltdrv_probe_well by blast
  have "pdev (plt_pdev 5 0) = 5" by (simp add: plt_pdev_def)
  with device_live_before_fifo [OF disjI1 [OF r]] r show ?thesis by (simp add: exec_def)
qed



end
