(* ===== verification/Fifo_Conc.thy ===== *)
theory Fifo_Conc
  imports Pipe_Threads Kernelnewbies Mcdevdrvs Plt_Same
begin

text \<open>
  Concurrent callers of the FIFO drivers of \<open>01\<close>, \<open>03\<close>, \<open>07\<close>, \<open>08\<close> and \<open>12\<close>. Each driver's write function is cut
  at its \<open>mutex_lock_interruptible\<close> and \<open>mutex_unlock\<close>, which gives the steps of \<open>Pipe_Threads\<close>; the interpretations
  prove that the steps make up the functions. A transfer is one step: with one writer and one
  reader at a time, which the two mutexes ensure, \<open>kfifo_from_user\<close> and \<open>kfifo_to_user\<close> need no further
  locking, as the kernel documents. (The driver of \<open>02\<close>, whose threads share more, is in \<open>Chardrvs_Conc\<close>.)
\<close>

section \<open>The steps of the drivers\<close>

definition kn_ops :: "'f kfifo_api \<Rightarrow> 'f kn_state two_mutex" where
  "kn_ops K = \<lparr>
     tm_w = kn_write_access, tm_r = kn_read_access,
     tm_set_w = (\<lambda>b s. s\<lparr>kn_write_access := b\<rparr>), tm_set_r = (\<lambda>b s. s\<lparr>kn_read_access := b\<rparr>),
     tm_in = (\<lambda>buf s. case kf_from_user K (kn_myfifo s) buf (length buf) of (ret, copiedin, f) \<Rightarrow>
       (if ret \<noteq> 0 then ret else int (length buf), s\<lparr>kn_myfifo := f\<rparr>)),
     tm_out = (\<lambda>count s. case kf_to_user K (kn_myfifo s) count count of (ret, out, f) \<Rightarrow>
       (if ret \<noteq> 0 then ret else int (length out), out, s\<lparr>kn_myfifo := f\<rparr>))\<rparr>"

text \<open>For the driver of \<open>03\<close> the steps are those of the device with minor \<open>i\<close>.\<close>

definition mc_update :: "nat \<Rightarrow> ('f prvt_devc \<Rightarrow> 'f prvt_devc) \<Rightarrow> 'f mc_state \<Rightarrow> 'f mc_state" where
  "mc_update i g s = s\<lparr>mc_devcs := (mc_devcs s)[i := g (mc_devcs s ! i)]\<rparr>"

definition mc_ops :: "'f kfifo_api \<Rightarrow> nat \<Rightarrow> 'f mc_state two_mutex" where
  "mc_ops K i = \<lparr>
     tm_w = (\<lambda>s. mcd_w_f_lock (mc_devcs s ! i)), tm_r = (\<lambda>s. mcd_r_f_lock (mc_devcs s ! i)),
     tm_set_w = (\<lambda>b. mc_update i (\<lambda>dev. dev\<lparr>mcd_w_f_lock := b\<rparr>)),
     tm_set_r = (\<lambda>b. mc_update i (\<lambda>dev. dev\<lparr>mcd_r_f_lock := b\<rparr>)),
     tm_in = (\<lambda>buf s. case kf_from_user K (mcd_myfifo (mc_devcs s ! i)) buf (length buf) of (ret, copiedin, f) \<Rightarrow>
       (if ret \<noteq> 0 then ret else int (length buf), mc_update i (\<lambda>dev. dev\<lparr>mcd_myfifo := f\<rparr>) s)),
     tm_out = (\<lambda>count s. case kf_to_user K (mcd_myfifo (mc_devcs s ! i)) count count of (ret, out, f) \<Rightarrow>
       (if ret \<noteq> 0 then ret else int (length out), out, mc_update i (\<lambda>dev. dev\<lparr>mcd_myfifo := f\<rparr>) s))\<rparr>"

definition plt_ops :: "'f kfifo_api \<Rightarrow> 'f fifo_prvt_devc two_mutex" where
  "plt_ops K = \<lparr>
     tm_w = pf_w_f_lock, tm_r = pf_r_f_lock,
     tm_set_w = (\<lambda>b dev. dev\<lparr>pf_w_f_lock := b\<rparr>), tm_set_r = (\<lambda>b dev. dev\<lparr>pf_r_f_lock := b\<rparr>),
     tm_in = (\<lambda>buf dev. case kf_from_user K (pf_myfifo dev) buf (length buf) of (ret, copiedin, f) \<Rightarrow>
       (if ret \<noteq> 0 then ret else int (length buf), dev\<lparr>pf_myfifo := f\<rparr>)),
     tm_out = (\<lambda>count dev. case kf_to_user K (pf_myfifo dev) count count of (ret, out, f) \<Rightarrow>
       (if ret \<noteq> 0 then ret else int (length out), out, dev\<lparr>pf_myfifo := f\<rparr>))\<rparr>"

section \<open>They are devices with two mutexes\<close>

definition kn_inv :: "('f \<Rightarrow> bool) \<Rightarrow> 'f kn_state \<Rightarrow> bool" where
  "kn_inv fok s \<longleftrightarrow> fok (kn_myfifo s)"

definition mc_inv :: "('f \<Rightarrow> bool) \<Rightarrow> nat \<Rightarrow> 'f mc_state \<Rightarrow> bool" where
  "mc_inv fok i s \<longleftrightarrow> i < length (mc_devcs s) \<and> fok (mcd_myfifo (mc_devcs s ! i))"

definition plt_inv :: "('f \<Rightarrow> bool) \<Rightarrow> 'f fifo_prvt_devc \<Rightarrow> bool" where
  "plt_inv fok dev \<longleftrightarrow> fok (pf_myfifo dev)"

sublocale kfifo_contract \<subseteq> kn_thr: two_mutex_device "kn_ops K" "kn_write K" "kn_read K"
  "\<lambda>s. content (kn_myfifo s)" "\<lambda>s. cap (kn_myfifo s)" "kn_inv fok"
proof
  fix d :: "'f kn_state" and bs k
  assume "kn_inv fok d"
  then have ok: "fok (kn_myfifo d)" by (simp add: kn_inv_def)
  show "\<exists>d'. tm_in (kn_ops K) bs d = (int (length bs), d') \<and> kn_inv fok d' \<and>
      tm_w (kn_ops K) d' = tm_w (kn_ops K) d \<and> tm_r (kn_ops K) d' = tm_r (kn_ops K) d \<and>
      cap (kn_myfifo d') = cap (kn_myfifo d) \<and>
      content (kn_myfifo d') = content (kn_myfifo d) @ take (cap (kn_myfifo d) - length (content (kn_myfifo d))) bs"
    using from_user_exact [OF ok, of bs] by (auto simp: kn_ops_def kn_inv_def)
  show "\<exists>d'. tm_out (kn_ops K) k d = (int (length (take k (content (kn_myfifo d)))), take k (content (kn_myfifo d)), d') \<and>
      kn_inv fok d' \<and> tm_w (kn_ops K) d' = tm_w (kn_ops K) d \<and> tm_r (kn_ops K) d' = tm_r (kn_ops K) d \<and>
      cap (kn_myfifo d') = cap (kn_myfifo d) \<and> content (kn_myfifo d') = drop k (content (kn_myfifo d))"
    using to_user_exact [OF ok, of k] by (auto simp: kn_ops_def kn_inv_def)
qed (simp_all add: kn_ops_def kn_inv_def kn_write_def kn_read_def split: prod.splits)

sublocale kfifo_contract \<subseteq> mc_thr: two_mutex_device "mc_ops K i"
  "\<lambda>sig buf count s. mc_write K i sig buf count s" "\<lambda>sig room count s. mc_read K i sig room count s"
  "\<lambda>s. content (mcd_myfifo (mc_devcs s ! i))" "\<lambda>s. cap (mcd_myfifo (mc_devcs s ! i))" "mc_inv fok i" for i
proof
  fix d :: "'f mc_state" and bs k
  assume inv: "mc_inv fok i d"
  then have ok: "fok (mcd_myfifo (mc_devcs d ! i))" by (simp add: mc_inv_def)
  show "\<exists>d'. tm_in (mc_ops K i) bs d = (int (length bs), d') \<and> mc_inv fok i d' \<and>
      tm_w (mc_ops K i) d' = tm_w (mc_ops K i) d \<and> tm_r (mc_ops K i) d' = tm_r (mc_ops K i) d \<and>
      cap (mcd_myfifo (mc_devcs d' ! i)) = cap (mcd_myfifo (mc_devcs d ! i)) \<and>
      content (mcd_myfifo (mc_devcs d' ! i)) = content (mcd_myfifo (mc_devcs d ! i)) @
        take (cap (mcd_myfifo (mc_devcs d ! i)) - length (content (mcd_myfifo (mc_devcs d ! i)))) bs"
    using from_user_exact [OF ok, of bs] inv by (auto simp: mc_ops_def mc_inv_def mc_update_def)
  show "\<exists>d'. tm_out (mc_ops K i) k d = (int (length (take k (content (mcd_myfifo (mc_devcs d ! i))))),
        take k (content (mcd_myfifo (mc_devcs d ! i))), d') \<and> mc_inv fok i d' \<and>
      tm_w (mc_ops K i) d' = tm_w (mc_ops K i) d \<and> tm_r (mc_ops K i) d' = tm_r (mc_ops K i) d \<and>
      cap (mcd_myfifo (mc_devcs d' ! i)) = cap (mcd_myfifo (mc_devcs d ! i)) \<and>
      content (mcd_myfifo (mc_devcs d' ! i)) = drop k (content (mcd_myfifo (mc_devcs d ! i)))"
    using to_user_exact [OF ok, of k] inv by (auto simp: mc_ops_def mc_inv_def mc_update_def)
qed (auto simp: mc_ops_def mc_inv_def mc_update_def mc_write_def mc_read_def Let_def split: prod.splits)

sublocale kfifo_contract \<subseteq> plt_thr: two_mutex_device "plt_ops K" "pltdrv_write K" "pltdrv_read K"
  "\<lambda>d. content (pf_myfifo d)" "\<lambda>d. cap (pf_myfifo d)" "plt_inv fok"
proof
  fix d :: "'f fifo_prvt_devc" and bs k
  assume "plt_inv fok d"
  then have ok: "fok (pf_myfifo d)" by (simp add: plt_inv_def)
  show "\<exists>d'. tm_in (plt_ops K) bs d = (int (length bs), d') \<and> plt_inv fok d' \<and>
      tm_w (plt_ops K) d' = tm_w (plt_ops K) d \<and> tm_r (plt_ops K) d' = tm_r (plt_ops K) d \<and>
      cap (pf_myfifo d') = cap (pf_myfifo d) \<and>
      content (pf_myfifo d') = content (pf_myfifo d) @ take (cap (pf_myfifo d) - length (content (pf_myfifo d))) bs"
    using from_user_exact [OF ok, of bs] by (auto simp: plt_ops_def plt_inv_def)
  show "\<exists>d'. tm_out (plt_ops K) k d = (int (length (take k (content (pf_myfifo d)))), take k (content (pf_myfifo d)), d') \<and>
      plt_inv fok d' \<and> tm_w (plt_ops K) d' = tm_w (plt_ops K) d \<and> tm_r (plt_ops K) d' = tm_r (plt_ops K) d \<and>
      cap (pf_myfifo d') = cap (pf_myfifo d) \<and> content (pf_myfifo d') = drop k (content (pf_myfifo d))"
    using to_user_exact [OF ok, of k] by (auto simp: plt_ops_def plt_inv_def)
qed (simp_all add: plt_ops_def plt_inv_def pltdrv_write_def pltdrv_read_def split: prod.splits)

section \<open>Properties\<close>

lemma kn_ok_inv: "kn_ok fok s \<Longrightarrow> kn_inv fok s \<and> \<not> tm_w (kn_ops K) s \<and> \<not> tm_r (kn_ops K) s"
  by (simp add: kn_ok_def kn_inv_def kn_ops_def)

lemma pf_ok_inv: "pf_ok fok d \<Longrightarrow> plt_inv fok d \<and> \<not> tm_w (plt_ops K) d \<and> \<not> tm_r (plt_ops K) d"
  by (simp add: pf_ok_def plt_inv_def plt_ops_def)

lemma mc_ok_inv:
  "mc_ok fok s \<Longrightarrow> i < length (mc_devcs s) \<Longrightarrow> mc_inv fok i s \<and> \<not> tm_w (mc_ops K i) s \<and> \<not> tm_r (mc_ops K i) s"
  by (auto simp: mc_ok_def mc_dev_ok_def mc_inv_def mc_ops_def)

context kfifo_contract
begin

lemmas kn_thr_linear = kn_thr.threads_linearize [OF kn_ok_inv]
lemmas kn_thr_return = kn_thr.calls_return [OF kn_ok_inv]
lemmas mc_thr_linear = mc_thr.threads_linearize [OF mc_ok_inv]
lemmas mc_thr_return = mc_thr.calls_return [OF mc_ok_inv]
lemmas plt_thr_linear = plt_thr.threads_linearize [OF pf_ok_inv]
lemmas plt_thr_return = plt_thr.calls_return [OF pf_ok_inv]

end

text \<open>
  C3. However the calls of any number of threads on the kernelnewbies device interleave, the device behaves like a bounded
  pipe that makes the transfers one after the other: what the reads deliver and what is left in the
  FIFO is what the specification yields for the transfers in the order they happened. At most one thread is in
  the write section and at most one in the read section; every call has transferred exactly what it was asked
  to (nothing, if a signal interrupted it) and returns the result of its own transfer; and the order
  of transfers only ever grows, so a call that has returned precedes every call that begins later.
\<close>

theorem kn_threads_linearize:
  assumes "kfifo_contract K content cap fok"
    and "kn_ok fok s0"
    and "\<forall>p\<in>set ps. fresh_call p"
    and "s = run_threads (kn_ops K) sch (start_threads s0 ps)"
  shows "spec_run (cap (kn_myfifo s0)) (log_ops (td_log s)) (content (kn_myfifo s0)) =
      (log_bytes (td_log s), content (kn_myfifo (td_dev s))) \<and>
    length (filter holds_w (td_pcs s)) \<le> 1 \<and> length (filter holds_r (td_pcs s)) \<le> 1 \<and>
    (\<forall>j<length ps. call_ok (ps ! j) (td_pcs s ! j) (transfers_of j (td_log s))) \<and>
    (\<exists>l. td_log (run_threads (kn_ops K) sch' s) = td_log s @ l)"
  by (rule kfifo_contract.kn_thr_linear [OF assms])

definition kn_example_threads :: "ring kn_state threads" where
  "kn_example_threads = run_threads (kn_ops ring_api)
     [(0, False), (1, False), (2, True), (0, False), (1, False), (0, False), (1, False), (3, False), (3, False)]
     (start_threads kn_example [Want_write [1, 2, 3], Want_read 2, Want_write [9], Want_write [4, 5]])"

theorem kn_threads_linearize_witness:
  "spec_run 4 (log_ops (td_log kn_example_threads)) [] =
     (log_bytes (td_log kn_example_threads), ring_content (kn_myfifo (td_dev kn_example_threads))) \<and>
   length (filter holds_w (td_pcs kn_example_threads)) \<le> 1"
proof -
  have f: "\<forall>p\<in>set [Want_write [1, 2, 3], Want_read 2, Want_write [9], Want_write [4, 5]]. fresh_call p" by simp
  have e: "ring_content (kn_myfifo kn_example) = []" "ring_cap (kn_myfifo kn_example) = 4"
    by (simp_all add: kn_example_def ring_content_def ring_len_def ring_cap_def)
  from kn_threads_linearize [OF kring.kfifo_contract_axioms kn_example_ok f kn_example_threads_def] e
  show ?thesis by simp
qed

text \<open>
  No call on the kernelnewbies device waits for ever: whatever has happened so far, once the threads
  are scheduled in rounds, every call returns within three rounds per thread, even if no signal comes.
\<close>

theorem kn_calls_return:
  assumes "kfifo_contract K content cap fok"
    and "kn_ok fok s0"
    and "\<forall>p\<in>set ps. fresh_call p"
  shows "\<forall>p\<in>set (td_pcs (run_threads (kn_ops K) (sch @ rounds (3 * length ps) (length ps)) (start_threads s0 ps))).
    is_finished p"
  by (rule kfifo_contract.kn_thr_return [OF assms])

theorem kn_calls_return_witness:
  "\<forall>p\<in>set (td_pcs (run_threads (kn_ops ring_api)
      ([(1, False), (0, False)] @ rounds (3 * length [Want_write [1, 2, 3], Want_write [7]])
        (length [Want_write [1, 2, 3], Want_write [7]]))
      (start_threads kn_example [Want_write [1, 2, 3], Want_write [7]]))). is_finished p"
  by (rule kn_calls_return [OF kring.kfifo_contract_axioms kn_example_ok]) simp

lemma kn_alone:
  "run_alone (kn_ops K) sig (Want_write bs) s = map_outcome (\<lambda>r. (r, [])) id (kn_write K sig bs (length bs) s)"
  "run_alone (kn_ops K) sig (Want_read k) s = kn_read K sig k k s"
  by (simp_all add: run_alone_simps kn_ops_def kn_write_def kn_read_def split: prod.splits)

lemma mc_set_other [simp]: "mc_devcs (mc_update i g u) ! i = (if i < length (mc_devcs u) then g (mc_devcs u ! i) else mc_devcs u ! i)"
  by (simp add: mc_update_def list_update_beyond)

lemma mc_update_twice: "mc_update i g (mc_update i h u) = mc_update i (\<lambda>d. g (h d)) u"
  by (cases "i < length (mc_devcs u)") (simp_all add: mc_update_def list_update_beyond)

lemma mc_alone_write:
  "run_alone (mc_ops K i) sig (Want_write bs) u = map_outcome (\<lambda>r. (r, [])) id (mc_write K i sig bs (length bs) u)"
proof -
  obtain r c f where 1: "kf_from_user K (mcd_myfifo (mc_devcs u ! i)) bs (length bs) = (r, c, f)"
    by (cases "kf_from_user K (mcd_myfifo (mc_devcs u ! i)) bs (length bs)")
  show ?thesis
    by (cases "i < length (mc_devcs u)")
      (simp_all add: run_alone_simps mc_ops_def mc_write_def 1 mc_update_twice Let_def, simp_all add: mc_update_def list_update_beyond)
qed

lemma mc_alone_read:
  "run_alone (mc_ops K i) sig (Want_read k) u = mc_read K i sig k k u"
proof -
  obtain r out f where 1: "kf_to_user K (mcd_myfifo (mc_devcs u ! i)) k k = (r, out, f)"
    by (cases "kf_to_user K (mcd_myfifo (mc_devcs u ! i)) k k")
  show ?thesis
    by (cases "i < length (mc_devcs u)")
      (simp_all add: run_alone_simps mc_ops_def mc_read_def 1 mc_update_twice Let_def, simp_all add: mc_update_def list_update_beyond)
qed

lemma plt_alone:
  "run_alone (plt_ops K) sig (Want_write bs) d = map_outcome (\<lambda>r. (r, [])) id (pltdrv_write K sig bs (length bs) d)"
  "run_alone (plt_ops K) sig (Want_read k) d = pltdrv_read K sig k k d"
  by (simp_all add: run_alone_simps plt_ops_def pltdrv_write_def pltdrv_read_def split: prod.splits)


context kfifo_contract
begin

lemma probed_ready:
  assumes "platform_data d = Some pd" and "2 \<le> fsize pd" and "fsize pd \<le> 2 ^ 31"
    and "run_state (pltdrv_probe K d) s = (0, t)"
  shows "\<exists>x. drvdata t (pdev d) = Some x \<and> pf_ok fok x \<and> content (pf_myfifo x) = [] \<and>
    nat (fsize pd) \<le> cap (pf_myfifo x)"
proof -
  from assms(1,4) obtain x where "drvdata t (pdev d) = Some x"
    "pf_myfifo x = kf_make K (fsize pd)" "\<not> pf_r_f_lock x" "\<not> pf_w_f_lock x"
    by (auto simp: pltdrv_probe_defs PTR_ERR_def Let_def split: if_splits)
  with make [OF assms(2,3)] show ?thesis by (simp add: pf_ok_def)
qed

lemma probed_device_threads:
  assumes "platform_data d = Some pd" and "2 \<le> fsize pd" and "fsize pd \<le> 2 ^ 31"
    and "run_state (pltdrv_probe K d) s = (0, t)" and "\<forall>p\<in>set ps. fresh_call p"
  shows "\<exists>x n. drvdata t (pdev d) = Some x \<and> nat (fsize pd) \<le> n \<and>
    (let u = run_threads (plt_ops K) sch (start_threads x ps)
     in fst (spec_run n (log_ops (td_log u)) []) = log_bytes (td_log u) \<and>
       (\<forall>j<length ps. call_ok (ps ! j) (td_pcs u ! j) (transfers_of j (td_log u)))) \<and>
    (\<forall>p\<in>set (td_pcs (run_threads (plt_ops K) (sch @ rounds (3 * length ps) (length ps)) (start_threads x ps))).
       is_finished p)"
proof -
  from probed_ready [OF assms(1-4)] obtain x where x: "drvdata t (pdev d) = Some x" "pf_ok fok x"
    "content (pf_myfifo x) = []" "nat (fsize pd) \<le> cap (pf_myfifo x)" by blast
  from plt_thr_linear [OF x(2) assms(5) refl, of sch] plt_thr_return [OF x(2) assms(5), of sch] x
  show ?thesis by (auto simp: Let_def)
qed

end

text \<open>
  C16. A device that \<open>pltdrv_probe\<close> accepted serves any number of concurrent callers as a bounded pipe that starts empty and has
  room for the size the platform data asked for: whatever the schedule, the reads deliver what the
  specification yields for the transfers in their order, every call returns the result of its own
  transfer, and in rounds of scheduling every call returns.
\<close>

theorem probed_device_serves_threads:
  assumes "kfifo_contract K content cap fok"
    and "platform_data d = Some pd" and "2 \<le> fsize pd" and "fsize pd \<le> 2 ^ 31"
    and "run_state (pltdrv_probe K d) s = (0, t)" and "\<forall>p\<in>set ps. fresh_call p"
  shows "\<exists>x n. drvdata t (pdev d) = Some x \<and> nat (fsize pd) \<le> n \<and>
    (let u = run_threads (plt_ops K) sch (start_threads x ps)
     in fst (spec_run n (log_ops (td_log u)) []) = log_bytes (td_log u) \<and>
       (\<forall>j<length ps. call_ok (ps ! j) (td_pcs u ! j) (transfers_of j (td_log u)))) \<and>
    (\<forall>p\<in>set (td_pcs (run_threads (plt_ops K) (sch @ rounds (3 * length ps) (length ps)) (start_threads x ps))).
       is_finished p)"
  by (rule kfifo_contract.probed_device_threads [OF assms])

theorem probed_device_serves_threads_witness:
  "\<exists>x. drvdata (exec (pltdrv_probe ring_api (plt_pdev 5 0)) plt_example) 5 = Some x \<and>
    (\<forall>p\<in>set (td_pcs (run_threads (plt_ops ring_api) ([] @ rounds (3 * length [Want_write [1, 2], Want_read 1])
      (length [Want_write [1, 2], Want_read 1])) (start_threads x [Want_write [1, 2], Want_read 1]))). is_finished p)"
proof -
  have "kres plt_example = all_well" by (simp add: plt_example_def)
  then obtain t where r: "run_state (pltdrv_probe ring_api (plt_pdev 5 0)) plt_example = (0, t)"
    using pltdrv_probe_well by blast
  have d: "platform_data (plt_pdev 5 0) = Some \<lparr>version = 170, fsize = 8\<rparr>" "pdev (plt_pdev 5 0) = 5"
    by (simp_all add: plt_pdev_def)
  have f: "\<forall>p\<in>set [Want_write [1, 2], Want_read 1]. fresh_call p" by simp
  from probed_device_serves_threads [OF kring.kfifo_contract_axioms d(1) _ _ r f, where sch = "[]"] r d(2)
  show ?thesis by (auto simp: exec_def simp del: append_Nil list.size)
qed

end
