(* ===== verification/Plt_Files.thy ===== *)
theory Plt_Files
  imports Plt_Same
begin

text \<open>
  Open files of the platform drivers: the tables \<open>fops\<close> of \<open>07\<close>, \<open>08\<close> and \<open>12\<close>, and what the kernel does with them. An
  open finds the device of the minor and keeps the pointer that the driver's open function computes; a read or write on the
  file gives the driver the private structure that pointer leads to. A session is any sequence of opens, closes, reads and writes
  on all bound devices by one process; the bytes to write and the room to read into are accessible.
\<close>

section \<open>The tables\<close>

abbreviation (input) EBADF :: int where "EBADF \<equiv> 9"
abbreviation (input) ENXIO :: int where "ENXIO \<equiv> 6"

record 'f file_operations =
  fo_open :: "nat \<Rightarrow> 'f plt_state \<Rightarrow> (int \<times> nat, 'f plt_state) outcome"
  fo_release :: "nat \<Rightarrow> 'f plt_state \<Rightarrow> (int, 'f plt_state) outcome"
  fo_read :: "bool \<Rightarrow> nat \<Rightarrow> nat \<Rightarrow> 'f fifo_prvt_devc \<Rightarrow> (int \<times> byte list, 'f fifo_prvt_devc) outcome"
  fo_write :: "bool \<Rightarrow> byte list \<Rightarrow> nat \<Rightarrow> 'f fifo_prvt_devc \<Rightarrow> (int, 'f fifo_prvt_devc) outcome"

definition pltdrv_fops :: "'f kfifo_api \<Rightarrow> 'f file_operations" where
  "pltdrv_fops K = \<lparr>fo_open = pltdrv_open, fo_release = pltdrv_release, fo_read = pltdrv_read K,
     fo_write = pltdrv_write K\<rparr>"

definition pattr_fops :: "'f kfifo_api \<Rightarrow> 'f file_operations" where
  "pattr_fops K = \<lparr>fo_open = pattr_open, fo_release = pattr_release, fo_read = pattr_read K,
     fo_write = pattr_write K\<rparr>"

definition dt_fops :: "'f kfifo_api \<Rightarrow> 'f file_operations" where
  "dt_fops K = \<lparr>fo_open = dt_open, fo_release = dt_release, fo_read = dt_read K, fo_write = dt_write K\<rparr>"

lemma same_fops: "pattr_fops K = pltdrv_fops K" "dt_fops K = pltdrv_fops K"
  by (simp_all add: pattr_fops_def pltdrv_fops_def dt_fops_def plt_same_calls fun_eq_iff pattr_open_def pltdrv_open_def
      dt_open_def pattr_release_def pltdrv_release_def dt_release_def)

section \<open>Sessions of open files\<close>

datatype file_op = F_open nat | F_release nat | F_write nat "byte list" | F_read nat nat

text \<open>\<open>fs_table\<close> lists the file descriptors given out, each with its device or closed.\<close>

record 'f files =
  fs_drv :: "'f plt_state"
  fs_table :: "nat option list"

definition fd_device :: "nat option list \<Rightarrow> nat \<Rightarrow> nat option" where
  "fd_device tab fd = (if fd < length tab then tab ! fd else None)"

text \<open>The result of a call and the transfer it made, if it made one; \<open>None\<close> when it sleeps.\<close>

type_synonym file_result = "int \<times> (nat \<times> pipe_op \<times> byte list) option"

fun file_step :: "'f file_operations \<Rightarrow> file_op \<Rightarrow> 'f files \<Rightarrow> (file_result \<times> 'f files) option" where
  "file_step F (F_open p) s =
     (case drvdata (fs_drv s) p of None \<Rightarrow> Some ((- ENXIO, None), s)
      | Some dev \<Rightarrow> (case fo_open F p (fs_drv s) of Blocked t \<Rightarrow> None
          | Ret (ret, private_data) t \<Rightarrow>
              if ret \<noteq> 0 then Some ((ret, None), s\<lparr>fs_drv := t\<rparr>)
              else Some ((int (length (fs_table s)), None),
                \<lparr>fs_drv = t, fs_table = fs_table s @ [Some private_data]\<rparr>)))"
| "file_step F (F_release fd) s =
     (case fd_device (fs_table s) fd of None \<Rightarrow> Some ((- EBADF, None), s)
      | Some p \<Rightarrow> (case fo_release F p (fs_drv s) of Blocked t \<Rightarrow> None
          | Ret ret t \<Rightarrow> Some ((ret, None), \<lparr>fs_drv = t, fs_table = (fs_table s)[fd := None]\<rparr>)))"
| "file_step F (F_write fd bs) s =
     (case fd_device (fs_table s) fd of None \<Rightarrow> Some ((- EBADF, None), s)
      | Some p \<Rightarrow> (case fo_write F False bs (length bs) (the (drvdata (fs_drv s) p)) of Blocked t \<Rightarrow> None
          | Ret ret dev \<Rightarrow> Some ((ret, Some (p, Write_op bs, [])),
              s\<lparr>fs_drv := (fs_drv s)\<lparr>drvdata := (drvdata (fs_drv s))(p \<mapsto> dev)\<rparr>\<rparr>)))"
| "file_step F (F_read fd k) s =
     (case fd_device (fs_table s) fd of None \<Rightarrow> Some ((- EBADF, None), s)
      | Some p \<Rightarrow> (case fo_read F False k k (the (drvdata (fs_drv s) p)) of Blocked t \<Rightarrow> None
          | Ret (ret, out) dev \<Rightarrow> Some ((ret, Some (p, Read_op k, out)),
              s\<lparr>fs_drv := (fs_drv s)\<lparr>drvdata := (drvdata (fs_drv s))(p \<mapsto> dev)\<rparr>\<rparr>)))"

fun file_session :: "'f file_operations \<Rightarrow> file_op list \<Rightarrow> 'f files \<Rightarrow> (file_result list \<times> 'f files) option" where
  "file_session F [] s = Some ([], s)"
| "file_session F (x # xs) s =
     (case file_step F x s of None \<Rightarrow> None
      | Some (r, t) \<Rightarrow> (case file_session F xs t of None \<Rightarrow> None | Some (rs, u) \<Rightarrow> Some (r # rs, u)))"

text \<open>The transfers on one device.\<close>

definition on_device :: "nat \<Rightarrow> file_result list \<Rightarrow> (pipe_op \<times> byte list) list" where
  "on_device p rs = map snd (filter (\<lambda>x. fst x = p) (List.map_filter snd rs))"

lemma on_device_simps [simp]:
  "on_device p [] = []"
  "on_device p ((r, None) # rs) = on_device p rs"
  "on_device p ((r, Some (q, x)) # rs) = (if q = p then x # on_device p rs else on_device p rs)"
  by (simp_all add: on_device_def map_filter_def)

section \<open>Each device is a pipe of its own\<close>

definition files_ok :: "('f \<Rightarrow> bool) \<Rightarrow> 'f files \<Rightarrow> bool" where
  "files_ok fok s \<longleftrightarrow> (\<forall>p d. drvdata (fs_drv s) p = Some d \<longrightarrow> pf_ok fok d) \<and>
     (\<forall>fd p. fd_device (fs_table s) fd = Some p \<longrightarrow> drvdata (fs_drv s) p \<noteq> None)"

lemma files_okD:
  "files_ok fok s \<Longrightarrow> fd_device (fs_table s) fd = Some p \<Longrightarrow> \<exists>d. drvdata (fs_drv s) p = Some d \<and> pf_ok fok d"
  unfolding files_ok_def by blast

lemma fd_device_append: "fd_device (tab @ [x]) fd = (if fd = length tab then x else fd_device tab fd)"
  by (auto simp: fd_device_def nth_append)

lemma fd_device_close: "fd_device (tab[i := None]) fd = (if fd = i then None else fd_device tab fd)"
  by (auto simp: fd_device_def)

context kfifo_contract
begin

definition pipe_of :: "'f files \<Rightarrow> nat \<Rightarrow> (byte list \<times> nat) option" where
  "pipe_of s p = map_option (\<lambda>d. (content (pf_myfifo d), cap (pf_myfifo d))) (drvdata (fs_drv s) p)"

text \<open>What one call does to the pipes: it moves the pipe of its device, or none.\<close>

definition moves :: "file_result \<Rightarrow> (nat \<Rightarrow> (byte list \<times> nat) option) \<Rightarrow> (nat \<Rightarrow> (byte list \<times> nat) option) \<Rightarrow> bool" where
  "moves r pa pb \<longleftrightarrow> (case snd r of None \<Rightarrow> pb = pa
     | Some (p, x, out) \<Rightarrow> (\<exists>q n. pa p = Some (q, n) \<and> out = fst (spec_step n x q) \<and> pb = pa(p \<mapsto> (snd (spec_step n x q), n))))"

lemma file_step_moves:
  assumes "files_ok fok s"
  shows "\<exists>r t. file_step (pltdrv_fops K) x s = Some (r, t) \<and> files_ok fok t \<and> moves r (pipe_of s) (pipe_of t)"
proof (cases x)
  case (F_open p)
  with assms show ?thesis
    by (auto simp: pltdrv_fops_def pltdrv_open_def files_ok_def moves_def pipe_of_def fd_device_append fun_eq_iff
        split: option.splits)
next
  case (F_release fd)
  with assms show ?thesis
    by (auto simp: pltdrv_fops_def pltdrv_release_def files_ok_def moves_def pipe_of_def fd_device_close fun_eq_iff
        split: option.splits)
next
  case (F_write fd bs)
  show ?thesis
  proof (cases "fd_device (fs_table s) fd")
    case None
    with assms F_write show ?thesis by (auto simp: moves_def)
  next
    case (Some p)
    then obtain d where d: "drvdata (fs_drv s) p = Some d" "pf_ok fok d" using files_okD [OF assms] by blast
    from pltdrv.write_ok [OF d(2), of bs] obtain r d' where w: "pltdrv_write K False bs (length bs) d = Ret r d'"
      "pf_ok fok d'" "cap (pf_myfifo d') = cap (pf_myfifo d)"
      "content (pf_myfifo d') = content (pf_myfifo d) @ take (cap (pf_myfifo d) - length (content (pf_myfifo d))) bs"
      by blast
    show ?thesis
      using assms F_write Some d w by (auto simp: pltdrv_fops_def files_ok_def moves_def pipe_of_def fun_eq_iff)
  qed
next
  case (F_read fd k)
  show ?thesis
  proof (cases "fd_device (fs_table s) fd")
    case None
    with assms F_read show ?thesis by (auto simp: moves_def)
  next
    case (Some p)
    then obtain d where d: "drvdata (fs_drv s) p = Some d" "pf_ok fok d" using files_okD [OF assms] by blast
    from pltdrv.read_ok [OF d(2), of k] obtain d' where w:
      "pltdrv_read K False k k d = Ret (int (length (take k (content (pf_myfifo d)))), take k (content (pf_myfifo d))) d'"
      "pf_ok fok d'" "cap (pf_myfifo d') = cap (pf_myfifo d)" "content (pf_myfifo d') = drop k (content (pf_myfifo d))"
      by blast
    show ?thesis
      using assms F_read Some d w by (auto simp: pltdrv_fops_def files_ok_def moves_def pipe_of_def fun_eq_iff)
  qed
qed

lemma file_session_pipes:
  "files_ok fok s \<Longrightarrow> \<exists>rs t. file_session (pltdrv_fops K) xs s = Some (rs, t) \<and> files_ok fok t \<and>
     (\<forall>p q n. pipe_of s p = Some (q, n) \<longrightarrow>
        concat (map snd (on_device p rs)) = fst (spec_run n (map fst (on_device p rs)) q) \<and>
        pipe_of t p = Some (snd (spec_run n (map fst (on_device p rs)) q), n))"
proof (induction xs arbitrary: s)
  case (Cons x xs)
  from file_step_moves [OF Cons.prems, of x] obtain r t where 1: "file_step (pltdrv_fops K) x s = Some (r, t)"
    "files_ok fok t" "moves r (pipe_of s) (pipe_of t)" by blast
  from Cons.IH [OF 1(2)] obtain rs u where 2: "file_session (pltdrv_fops K) xs t = Some (rs, u)" "files_ok fok u"
    "\<forall>p q n. pipe_of t p = Some (q, n) \<longrightarrow>
        concat (map snd (on_device p rs)) = fst (spec_run n (map fst (on_device p rs)) q) \<and>
        pipe_of u p = Some (snd (spec_run n (map fst (on_device p rs)) q), n)" by blast
  obtain v tr where r: "r = (v, tr)" by (cases r)
  have "concat (map snd (on_device p (r # rs))) = fst (spec_run n (map fst (on_device p (r # rs))) q) \<and>
      pipe_of u p = Some (snd (spec_run n (map fst (on_device p (r # rs))) q), n)"
    if p: "pipe_of s p = Some (q, n)" for p q n
  proof (cases tr)
    case None
    with 1(3) 2(3) p r show ?thesis by (simp add: moves_def)
  next
    case (Some y)
    obtain p' a out where y: "y = (p', a, out)" by (cases y)
    with 1(3) Some r obtain q' n' where m: "pipe_of s p' = Some (q', n')" "out = fst (spec_step n' a q')"
      "pipe_of t = (pipe_of s)(p' \<mapsto> (snd (spec_step n' a q'), n'))"
      by (auto simp: moves_def)
    show ?thesis using 2(3) m p r Some y by (cases "p' = p") (auto split: prod.splits)
  qed
  with 1(1) 2(1,2) show ?case by auto
qed simp

end

section \<open>Property\<close>

text \<open>
  C22. Any sequence of opens, closes, reads and writes on the bound devices of \<open>07\<close>, \<open>08\<close> or \<open>12\<close>, through any number of open
  files, returns from every call and treats each device as a bounded pipe of its own: what its reads delivered and what
  its FIFO holds at the end is what the specification yields for the transfers made on that device alone, through
  whichever files they were made. Calls on a descriptor that is not open make no transfer.
\<close>

theorem open_files_reach_their_pipes:
  assumes "kfifo_contract K content cap fok"
    and "files_ok fok s"
    and "F \<in> {pltdrv_fops K, pattr_fops K, dt_fops K}"
  shows "\<exists>rs t. file_session F xs s = Some (rs, t) \<and> files_ok fok t \<and>
    (\<forall>p d. drvdata (fs_drv s) p = Some d \<longrightarrow> (\<exists>d'. drvdata (fs_drv t) p = Some d' \<and>
       spec_run (cap (pf_myfifo d)) (map fst (on_device p rs)) (content (pf_myfifo d)) =
         (concat (map snd (on_device p rs)), content (pf_myfifo d')))) \<and>
    (fd_device (fs_table t) fd = None \<longrightarrow> file_step F (F_read fd k) t = Some ((- EBADF, None), t))"
proof -
  have F: "F = pltdrv_fops K" using assms(3) by (auto simp: same_fops)
  from kfifo_contract.file_session_pipes [OF assms(1,2), of xs] obtain rs t where
    "file_session (pltdrv_fops K) xs s = Some (rs, t)" "files_ok fok t"
    and p: "\<forall>p q n. kfifo_contract.pipe_of content cap s p = Some (q, n) \<longrightarrow>
        concat (map snd (on_device p rs)) = fst (spec_run n (map fst (on_device p rs)) q) \<and>
        kfifo_contract.pipe_of content cap t p = Some (snd (spec_run n (map fst (on_device p rs)) q), n)"
    by blast
  moreover have "\<exists>d'. drvdata (fs_drv t) p = Some d' \<and>
       spec_run (cap (pf_myfifo d)) (map fst (on_device p rs)) (content (pf_myfifo d)) =
         (concat (map snd (on_device p rs)), content (pf_myfifo d'))" if "drvdata (fs_drv s) p = Some d" for p d
    using p [rule_format, of p "content (pf_myfifo d)" "cap (pf_myfifo d)"] that
    by (auto simp: kfifo_contract.pipe_of_def [OF assms(1)] prod_eq_iff)
  ultimately show ?thesis using F by auto
qed

definition files_dev :: "ring fifo_prvt_devc" where
  "files_dev = \<lparr>pf_myfifo = \<lparr>rdata = replicate 8 0, rin = 0, rout = 0\<rparr>, pf_r_f_lock = False, pf_w_f_lock = False,
     plt_data_prv = \<lparr>version = 170, fsize = 8\<rparr>, pf_devnr = 0\<rparr>"

definition files_example :: "ring files" where
  "files_example = \<lparr>fs_drv = plt_example\<lparr>drvdata := [5 \<mapsto> files_dev, 6 \<mapsto> files_dev]\<rparr>, fs_table = []\<rparr>"

lemma files_example_ok: "files_ok ring_ok files_example"
  by (auto simp: files_ok_def files_example_def fd_device_def files_dev_def pf_ok_def ring_ok_def ring_cap_def
      ring_len_def split: if_splits)

theorem open_files_reach_their_pipes_witness:
  "\<exists>rs t. file_session (dt_fops ring_api)
       [F_open 5, F_open 6, F_open 5, F_write 0 [1, 2], F_write 1 [7], F_release 0, F_read 2 4, F_read 0 1] files_example =
       Some (rs, t) \<and>
     files_ok ring_ok t \<and> fst (spec_run 8 (map fst (on_device 5 rs)) []) = concat (map snd (on_device 5 rs))"
proof -
  have d: "drvdata (fs_drv files_example) 5 = Some files_dev" by (simp add: files_example_def)
  have r: "ring_cap (pf_myfifo files_dev) = 8" "ring_content (pf_myfifo files_dev) = []"
    by (simp_all add: files_dev_def ring_cap_def ring_content_def ring_len_def)
  have F: "dt_fops ring_api \<in> {pltdrv_fops ring_api, pattr_fops ring_api, dt_fops ring_api}" by simp
  from open_files_reach_their_pipes [OF kring.kfifo_contract_axioms files_example_ok F,
      of "[F_open 5, F_open 6, F_open 5, F_write 0 [1, 2], F_write 1 [7], F_release 0, F_read 2 4, F_read 0 1]"] d r
  show ?thesis by (metis fst_conv)
qed

end
