(* ===== verification/Jit.thy ===== *)
theory Jit
  imports Kernel_World
begin

text \<open>
  The module of \<open>04.time/jit.c\<close>: delays, timers and tasklets behind \<open>/proc\<close> files. Time is the counter
  \<open>jiffies\<close>, a 64-bit word that wraps; its readings and what a handler sees of its context are
  parameters, as is whether a signal arrives. A \<open>show\<close> function is given the firings of its timer or tasklet that happen
  while it sleeps; it has no result while it is asleep.
\<close>

section \<open>Printing\<close>

definition pad :: "nat \<Rightarrow> string \<Rightarrow> string" where
  "pad n s = replicate (n - length s) (CHR '' '') @ s"

definition zpad :: "nat \<Rightarrow> string \<Rightarrow> string" where
  "zpad n s = replicate (n - length s) (CHR ''0'') @ s"

definition hexdigit :: "nat \<Rightarrow> char" where
  "hexdigit d = (if d < 10 then char_of (48 + d) else char_of (87 + d))"

fun hex :: "nat \<Rightarrow> string" where
  "hex n = (if n < 16 then [hexdigit n] else hex (n div 16) @ [hexdigit (n mod 16)])"

declare hex.simps [simp del]

record env =
  e_jiffies :: u64
  e_irq :: bool
  e_pid :: int
  e_cpu :: int
  e_comm :: string

type_synonym jline = "u64 \<times> u64 \<times> env"

definition render :: "jline \<Rightarrow> string" where
  "render l = (case l of (j, delta, e) \<Rightarrow>
     pad 9 (dec (sint j)) @ ''  '' @ pad 3 (dec (sint delta)) @ ''     '' @
     dec (if e_irq e then 1 else 0) @ ''    '' @ pad 6 (dec (e_pid e)) @ ''   '' @ dec (e_cpu e) @
     ''   '' @ e_comm e @ [CHR 0x0A])"

definition jit_header :: string where
  "jit_header = ''   time   delta  inirq    pid   cpu command'' @ [CHR 0x0A]"

section \<open>The delay files\<close>

datatype jit_file = JIT_BUSY | JIT_SCHED | JIT_QUEUE | JIT_SCHEDTO

text \<open>\<open>time_before\<close> compares across the wrap-around.\<close>

definition time_before :: "u64 \<Rightarrow> u64 \<Rightarrow> bool" where
  "time_before a b \<longleftrightarrow> sint (a - b) < 0"

text \<open>The loop reads \<open>jiffies\<close> until the deadline has come; \<open>None\<close> when the readings are used up.\<close>

fun busy_wait :: "u64 list \<Rightarrow> u64 \<Rightarrow> u64 list option" where
  "busy_wait [] j1 = None"
| "busy_wait (j # js) j1 = (if time_before j j1 then busy_wait js j1 else Some js)"

text \<open>
  \<open>js\<close> lists the readings of \<open>jiffies\<close> after the first. The sleeps of the two other files end when the kernel says:
  the next reading is the time at which they do.
\<close>

definition jit_fn_show :: "int \<Rightarrow> jit_file \<Rightarrow> u64 \<Rightarrow> u64 list \<Rightarrow> (u64 \<times> u64) option" where
  "jit_fn_show delay data j0 js =
     (let j1 = j0 + word_of_int delay;
          rest = (case data of
             JIT_BUSY \<Rightarrow> busy_wait js j1 | JIT_SCHED \<Rightarrow> busy_wait js j1
           | JIT_QUEUE \<Rightarrow> Some js | JIT_SCHEDTO \<Rightarrow> Some js)
      in case rest of Some (j1 # _) \<Rightarrow> Some (j0, j1) | _ \<Rightarrow> None)"

definition jit_fn_line :: "u64 \<times> u64 \<Rightarrow> string" where
  "jit_fn_line p = pad 9 (dec (sint (fst p))) @ '' '' @ pad 9 (dec (sint (snd p))) @ [CHR 0x0A]"

text \<open>\<open>(int) tv_sec\<close> keeps the low 32 bits of the seconds.\<close>

definition jit_currentime_show :: "u64 \<Rightarrow> u64 \<Rightarrow> int \<times> int \<Rightarrow> int \<times> int \<Rightarrow> string" where
  "jit_currentime_show j1 j2 tv1 tv2 =
     ''0x'' @ zpad 8 (hex (unat j1)) @ '' 0x'' @ zpad 16 (hex (unat j2)) @ '' '' @
     pad 10 (dec (to_s32 (fst tv1))) @ ''.'' @ zpad 9 (dec (to_s32 (snd tv1))) @ [CHR 0x0A] @
     pad 40 (dec (to_s32 (fst tv2))) @ ''.'' @ zpad 9 (dec (to_s32 (snd tv2))) @ [CHR 0x0A]"

section \<open>Timers and tasklets\<close>

definition JIT_ASYNC_LOOPS :: int where "JIT_ASYNC_LOOPS = 5"

text \<open>\<open>jpending\<close>: the timer or tasklet is scheduled; \<open>jwoken\<close>: the reader has been woken.\<close>

record jit_data =
  jexpires :: u64
  jhi :: bool
  prevjiffies :: u64
  loops :: int
  jlines :: "jline list"
  jpending :: bool
  jwoken :: bool

definition jit_timer_fn :: "int \<Rightarrow> env \<Rightarrow> jit_data \<Rightarrow> jit_data" where
  "jit_timer_fn tdelay e data =
     (let j = e_jiffies e;
          data = data\<lparr>jlines := jlines data @ [(j, j - prevjiffies data, e)], loops := loops data - 1\<rparr>
      in if loops data \<noteq> 0
         then data\<lparr>jexpires := jexpires data + word_of_int tdelay, prevjiffies := j, jpending := True\<rparr>
         else data\<lparr>jwoken := True\<rparr>)"

definition jit_tasklet_fn :: "env \<Rightarrow> jit_data \<Rightarrow> jit_data" where
  "jit_tasklet_fn e data =
     (let j = e_jiffies e;
          data = data\<lparr>jlines := jlines data @ [(j, j - prevjiffies data, e)], loops := loops data - 1\<rparr>
      in if loops data \<noteq> 0
         then data\<lparr>prevjiffies := j, jpending := True\<rparr>
         else data\<lparr>jwoken := True\<rparr>)"

text \<open>The kernel runs the handler once for each time it was scheduled.\<close>

fun fire :: "(env \<Rightarrow> jit_data \<Rightarrow> jit_data) \<Rightarrow> env list \<Rightarrow> jit_data \<Rightarrow> jit_data" where
  "fire f [] d = d"
| "fire f (e # es) d = (if jpending d then fire f es (f e (d\<lparr>jpending := False\<rparr>)) else d)"

text \<open>
  The result of a \<open>show\<close> function: its return value (\<open>None\<close> while it sleeps), the lines written, and
  the structure if it is still allocated.
\<close>

record jit_result =
  jret :: "int option"
  jout :: "jline list"
  jalloc :: "jit_data option"

text \<open>The common end: wait for \<open>loops\<close> to reach 0 or a signal, and free the structure unless a signal is pending.\<close>

definition jit_finish :: "bool \<Rightarrow> jit_data \<Rightarrow> jit_result" where
  "jit_finish sig d =
     (if loops d \<noteq> 0 \<and> \<not> sig then \<lparr>jret = None, jout = jlines d, jalloc = Some d\<rparr>
      else if sig then \<lparr>jret = Some (- ERESTARTSYS), jout = jlines d, jalloc = Some d\<rparr>
      else \<lparr>jret = Some 0, jout = jlines d, jalloc = None\<rparr>)"

definition jit_timer_show :: "int \<Rightarrow> int \<Rightarrow> env \<Rightarrow> env list \<Rightarrow> bool \<Rightarrow> jit_result" where
  "jit_timer_show tdelay mem e0 es sig =
     (if mem = 0 then \<lparr>jret = Some (- ENOMEM), jout = [], jalloc = None\<rparr>
      else
        let j = e_jiffies e0;
            data = \<lparr>jexpires = j + word_of_int tdelay, jhi = False, prevjiffies = j,
              loops = JIT_ASYNC_LOOPS, jlines = [(j, 0, e0)], jpending = True, jwoken = False\<rparr>
        in jit_finish sig (fire (jit_timer_fn tdelay) es data))"

definition jit_tasklet_show :: "bool \<Rightarrow> int \<Rightarrow> env \<Rightarrow> env list \<Rightarrow> bool \<Rightarrow> jit_result" where
  "jit_tasklet_show hi mem e0 es sig =
     (if mem = 0 then \<lparr>jret = Some (- ENOMEM), jout = [], jalloc = None\<rparr>
      else
        let j = e_jiffies e0;
            data = \<lparr>jexpires = 0, jhi = hi, prevjiffies = j,
              loops = JIT_ASYNC_LOOPS, jlines = [(j, 0, e0)], jpending = True, jwoken = False\<rparr>
        in jit_finish sig (fire jit_tasklet_fn es data))"

definition jit_text :: "jit_result \<Rightarrow> string" where
  "jit_text r = jit_header @ concat (map render (jout r))"

section \<open>Loading and unloading\<close>

abbreviation proc_create_data :: "string \<Rightarrow> int \<Rightarrow> ((string, 'z) kworld_scheme, int) state" where
  "proc_create_data name data \<equiv> call (Get name [data])"
abbreviation remove_proc_entry :: "string \<Rightarrow> ((string, 'z) kworld_scheme, int) state" where
  "remove_proc_entry name \<equiv> call (Put name)"

text \<open>\<open>/proc\<close> entries are resources by their name; the results of the creations are not looked at.\<close>

definition jit_init :: "((string, 'z) kworld_scheme, int) state" where
  "jit_init = do {
     proc_create_data ''currentime'' 0;
     proc_create_data ''jitbusy'' 0;
     proc_create_data ''jitsched'' 1;
     proc_create_data ''jitqueue'' 2;
     proc_create_data ''jitschedto'' 3;
     proc_create_data ''jitimer'' 0;
     proc_create_data ''jitasklet'' 0;
     proc_create_data ''jitasklethi'' 1;
     return 0
   }"

definition jit_cleanup :: "((string, 'z) kworld_scheme, unit) state" where
  "jit_cleanup = do {
     remove_proc_entry ''currentime'';
     remove_proc_entry ''jitbusy'';
     remove_proc_entry ''jitsched'';
     remove_proc_entry ''jitqueue'';
     remove_proc_entry ''jitschedto'';
     remove_proc_entry ''jitimer'';
     remove_proc_entry ''jitasklet'';
     remove_proc_entry ''jitasklethi'';
     return ()
   }"

definition proc_conv :: "string convention" where
  "proc_conv = \<lparr>won = (\<lambda>r v. v \<noteq> 0), lax = (\<lambda>r. True)\<rparr>"

lemma proc_conv_simps [simp]: "won proc_conv = (\<lambda>r v. v \<noteq> 0)" "lax proc_conv = (\<lambda>r. True)"
  by (simp_all add: proc_conv_def)

section \<open>Lemmas\<close>

text \<open>Within half the range the order of times is the order of the time elapsed.\<close>

lemma time_before_elapsed:
  assumes "e < 2 ^ 63" and "d < 2 ^ 63"
  shows "time_before (j + of_nat e) (j + of_nat d) \<longleftrightarrow> e < d"
proof -
  have s: "sint (word_of_int k :: u64) = k" if "- (2 ^ 63) \<le> k" "k < 2 ^ 63" for k
    using that by (simp add: sint_sbintrunc' signed_take_bit_int_eq_self)
  have "j + of_nat e - (j + of_nat d) = word_of_int (int e - int d)" by simp
  with s [of "int e - int d"] assms show ?thesis by (simp add: time_before_def)
qed

text \<open>What \<open>n\<close> firings of either handler do, when it was scheduled with enough rounds left.\<close>

definition deltas :: "jline list \<Rightarrow> u64 list" where
  "deltas ls = map (\<lambda>l. fst (snd l)) ls"

lemma fire_timer:
  "jpending d \<Longrightarrow> length es \<le> n \<Longrightarrow> loops d = int n \<Longrightarrow> 0 < n \<Longrightarrow> es \<noteq> [] \<Longrightarrow>
     (let d' = fire (jit_timer_fn tdelay) es d
      in loops d' = int (n - length es) \<and> jpending d' = (length es < n) \<and>
         map fst (jlines d') = map fst (jlines d) @ map e_jiffies es \<and>
         sum_list (deltas (jlines d')) = sum_list (deltas (jlines d)) + (e_jiffies (last es) - prevjiffies d) \<and>
         jwoken d' = (jwoken d \<or> length es = n) \<and>
         jexpires d' = jexpires d + of_nat (min (length es) (n - 1)) * word_of_int tdelay)"
proof (induction es arbitrary: d n)
  case Nil
  then show ?case by simp
next
  case (Cons e es)
  let ?d = "jit_timer_fn tdelay e (d\<lparr>jpending := False\<rparr>)"
  show ?case
  proof (cases "n = 1")
    case True
    then show ?thesis using Cons.prems by (simp add: jit_timer_fn_def deltas_def Let_def)
  next
    case False
    then have d: "jpending ?d" "loops ?d = int (n - 1)" "prevjiffies ?d = e_jiffies e"
      "jlines ?d = jlines d @ [(e_jiffies e, e_jiffies e - prevjiffies d, e)]"
      "jexpires ?d = jexpires d + word_of_int tdelay" "jwoken ?d = jwoken d"
      using Cons.prems by (auto simp: jit_timer_fn_def Let_def)
    show ?thesis
    proof (cases "es = []")
      case True
      then show ?thesis using Cons.prems False d by (simp add: deltas_def Let_def)
    next
      case es: False
      have n: "length es \<le> n - 1" "0 < n - 1" using Cons.prems(2) False Cons.prems(4) by auto
      have m: "min (length (e # es)) (n - 1) = Suc (min (length es) (n - 1 - 1))" using n by auto
      from Cons.IH [OF d(1) n(1) d(2) n(2) es] show ?thesis
        using Cons.prems es d(3-6) m by (auto simp: deltas_def Let_def algebra_simps)
    qed
  qed
qed

lemma tasklet_is_timer: "jit_tasklet_fn = jit_timer_fn 0"
  by (simp add: fun_eq_iff jit_tasklet_fn_def jit_timer_fn_def Let_def)

lemma fire_nothing [simp]: "fire f [] d = d"
  by simp

text \<open>Reading the clock at increasing times, the busy loops stop at the first reading past the deadline.\<close>

lemma busy_wait_elapsed:
  assumes "\<forall>e\<in>set es. e < 2 ^ 63" and "d < 2 ^ 63"
  shows "busy_wait (map (\<lambda>e. j + of_nat e) es) (j + of_nat d) =
    (case dropWhile (\<lambda>e. e < d) es of [] \<Rightarrow> None | e # rest \<Rightarrow> Some (map (\<lambda>e. j + of_nat e) rest))"
  using assms by (induction es) (auto simp: time_before_elapsed)

section \<open>Properties\<close>

text \<open>
  C34. Reading the timer file or a tasklet file: after five firings and no signal the read returns 0, has freed its
  structure, and has written six lines at the times of the start and of the firings, whose differences add up to the time
  from the first to the last, also when the counter wraps. With fewer firings it sleeps with the next
  one scheduled. A signal makes it return \<open>-ERESTARTSYS\<close> with the structure never freed and, before the fifth
  firing, with the timer still armed on it.
\<close>

theorem jit_async_rounds:
  assumes "mem \<noteq> 0" and "0 < length es" and "length es \<le> 5"
    and "res \<in> {jit_timer_show tdelay mem e0 es sig, jit_tasklet_show hi mem e0 es sig}"
  shows "map fst (jout res) = map e_jiffies (e0 # es) \<and>
    sum_list (deltas (jout res)) = e_jiffies (last es) - e_jiffies e0 \<and>
    (\<not> sig \<longrightarrow> jret res = (if length es = 5 then Some 0 else None) \<and> (length es = 5 \<longrightarrow> jalloc res = None)) \<and>
    (sig \<longrightarrow> jret res = Some (- ERESTARTSYS)) \<and>
    (sig \<or> length es < 5 \<longrightarrow> (\<exists>d. jalloc res = Some d \<and> (jpending d \<longleftrightarrow> length es < 5)))"
proof -
  let ?d = "\<lambda>x h. \<lparr>jexpires = x, jhi = h, prevjiffies = e_jiffies e0, loops = 5, jlines = [(e_jiffies e0, 0, e0)],
    jpending = True, jwoken = False\<rparr>"
  have ne: "es \<noteq> []" using assms(2) by auto
  have f: "loops (fire (jit_timer_fn td) es (?d x h)) = int (5 - length es) \<and>
      jpending (fire (jit_timer_fn td) es (?d x h)) = (length es < 5) \<and>
      map fst (jlines (fire (jit_timer_fn td) es (?d x h))) = map e_jiffies (e0 # es) \<and>
      sum_list (deltas (jlines (fire (jit_timer_fn td) es (?d x h)))) = e_jiffies (last es) - e_jiffies e0" for td x h
    using fire_timer [of "?d x h" es 5 td] assms(3) ne by (simp add: Let_def deltas_def)
  show ?thesis
    using assms(1-3) assms(4) f [of tdelay "e_jiffies e0 + word_of_int tdelay" False] f [of 0 0 hi]
    by (auto simp: jit_timer_show_def jit_tasklet_show_def tasklet_is_timer jit_finish_def
        JIT_ASYNC_LOOPS_def Let_def)
qed

definition jit_env :: "u64 \<Rightarrow> env" where
  "jit_env j = \<lparr>e_jiffies = j, e_irq = True, e_pid = 0, e_cpu = 1, e_comm = ''swapper''\<rparr>"

theorem jit_async_rounds_witness:
  "sum_list (deltas (jout (jit_timer_show 10 1 (jit_env (- 5)) (map jit_env [5, 15, 25, 35, 45]) False))) = 50"
proof -
  let ?es = "map jit_env [5, 15, 25, 35, 45]"
  let ?res = "jit_timer_show 10 1 (jit_env (- 5)) ?es False"
  have "?res \<in> {jit_timer_show 10 1 (jit_env (- 5)) ?es False, jit_tasklet_show False 1 (jit_env (- 5)) ?es False}"
    by blast
  from jit_async_rounds [OF _ _ _ this]
  have "sum_list (deltas (jout ?res)) = e_jiffies (last ?es) - e_jiffies (jit_env (- 5))" by simp
  then show ?thesis by (simp add: jit_env_def)
qed

text \<open>
  The busy delays wait long enough, and not longer than the clock lets them: they end at the reading after the first one at least
  \<open>delay\<close> ticks past the start, whether or not the counter wraps in between, and the times printed are the start and that
  reading; a clock that never gets that far keeps the reader in the loop.
\<close>

theorem jit_busy_delay:
  assumes "\<forall>e\<in>set es. e < 2 ^ 63" and "sorted es" and "0 \<le> delay" and "delay < 2 ^ 31"
    and "file \<in> {JIT_BUSY, JIT_SCHED}"
    and "res = jit_fn_show delay file j0 (map (\<lambda>e. j0 + of_nat e) es)"
  shows "(case res of
      None \<Rightarrow> length (filter (\<lambda>e. delay \<le> int e) es) \<le> 1
    | Some (a, b) \<Rightarrow> a = j0 \<and> (\<exists>e\<in>set es. b = j0 + of_nat e \<and> delay \<le> int e))"
proof -
  have d: "word_of_int delay = (of_nat (nat delay) :: u64)" "nat delay < 2 ^ 63" using assms(3,4) by simp_all
  note b = busy_wait_elapsed [OF assms(1) d(2), of j0]
  let ?rest = "dropWhile (\<lambda>e. e < nat delay) es"
  have r: "res = (case ?rest of [] \<Rightarrow> None | e # rest \<Rightarrow>
      (case rest of [] \<Rightarrow> None | e' # _ \<Rightarrow> Some (j0, j0 + of_nat e')))"
    using assms(5,6) b d(1)
    by (cases ?rest) (auto simp: jit_fn_show_def Let_def simp del: dropWhile_eq_Nil_conv split: list.splits)
  have late: "\<forall>e\<in>set ?rest. delay \<le> int e"
    using assms(2,3) by (induction es) (auto simp: not_less nat_le_iff split: if_splits)
  have filt: "filter (\<lambda>e. delay \<le> int e) es = ?rest"
    using assms(2)
  proof (induction es)
    case (Cons a es)
    show ?case
    proof (cases "int a < delay")
      case True
      with Cons show ?thesis by (simp add: zless_nat_eq_int_zless)
    next
      case False
      then have "\<forall>x\<in>set (a # es). delay \<le> int x" using Cons.prems by auto
      then have "filter (\<lambda>e. delay \<le> int e) (a # es) = a # es" by (simp only: filter_True)
      with False show ?thesis using assms(3) by simp
    qed
  qed simp
  have sub: "set ?rest \<subseteq> set es" by (auto dest: set_dropWhileD)
  show ?thesis
  proof (cases ?rest)
    case Nil
    then show ?thesis using r filt by (simp del: dropWhile_eq_Nil_conv)
  next
    case (Cons e rest)
    then show ?thesis
      using r filt late sub by (cases rest) auto
  qed
qed

theorem jit_busy_delay_witness:
  "jit_fn_show 10 JIT_BUSY (- 4) (map (\<lambda>e. - 4 + of_nat e) [3, 9, 12, 13]) = Some (- 4, 9)"
proof -
  let ?es = "[3, 9, 12, 13] :: nat list"
  have "sorted ?es" "\<forall>e\<in>set ?es. e < (2 :: nat) ^ 63" by simp_all
  from jit_busy_delay [OF this(2,1) _ _ _ refl, of 10 JIT_BUSY "- 4"]
  have "jit_fn_show 10 JIT_BUSY (- 4) (map (\<lambda>e. - 4 + of_nat e) ?es) \<noteq> None" by (auto split: option.splits)
  then show ?thesis by (simp add: jit_fn_show_def time_before_def Let_def)
qed

end
