(* ===== verification/Jiq.thy ===== *)
theory Jiq
  imports Jit
begin

text \<open>
  The module of \<open>05.workqueues/jiq.c\<close>: a work queue, a delayed work, a tasklet and a timer that print lines into a
  \<open>/proc\<close> file until a limit. What a handler sees of its context is the record \<open>env\<close> of \<open>Jit\<close>. How the
  counter of the sequence file grows when \<open>n\<close> bytes are printed is the parameter \<open>emit\<close>. The readers' sleeps
  are run against the list of handler runs the kernel grants, and a flag that says whether a signal arrives.
\<close>

section \<open>Printing\<close>

definition LIMIT :: u64 where "LIMIT = 4096 - 128"

record clientdata =
  m_count :: nat
  m_lines :: "jline list"
  jiq_len :: int
  jiq_jiffies :: u64
  jiq_delay :: int
  jiq_expires :: u64

definition jiq_header :: string where
  "jiq_header = ''    time  delta preempt   pid cpu command'' @ [CHR 0x0A]"

definition jiq_line :: "jline \<Rightarrow> string" where
  "jiq_line l = (case l of (j, delta, e) \<Rightarrow>
     pad 9 (dec (sint j)) @ ''  '' @ pad 4 (dec (sint delta)) @ ''     '' @
     pad 3 (dec (if e_irq e then 256 else 0)) @ '' '' @ pad 5 (dec (e_pid e)) @ '' '' @
     pad 3 (dec (e_cpu e)) @ '' '' @ e_comm e @ [CHR 0x0A])"

text \<open>The result says whether to go on, and whether the reader was woken.\<close>

definition jiq_print :: "(nat \<Rightarrow> nat \<Rightarrow> nat) \<Rightarrow> env \<Rightarrow> clientdata \<Rightarrow> int \<times> bool \<times> clientdata" where
  "jiq_print emit e data =
     (let len = jiq_len data; j = e_jiffies e
      in if LIMIT < word_of_int len then (0, True, data)
      else
        let count1 = (if len = 0 then emit (m_count data) (length jiq_header) else m_count data);
            len1 = (if len = 0 then int count1 else 0);
            l = (j, j - jiq_jiffies data, e);
            count2 = emit count1 (length (jiq_line l));
            len2 = len1 + int count2
        in (1, False, data\<lparr>m_count := count2, m_lines := m_lines data @ [l],
              jiq_len := jiq_len data + len2, jiq_jiffies := j\<rparr>))"

text \<open>
  The three handlers that reschedule themselves; the boolean says whether the handler is scheduled
  again. They differ in the queue they use.
\<close>

definition jiq_print_wq ::
    "(nat \<Rightarrow> nat \<Rightarrow> nat) \<Rightarrow> env \<Rightarrow> clientdata \<Rightarrow> bool \<times> bool \<times> clientdata" where
  "jiq_print_wq emit e data = (case jiq_print emit e data of (r, woke, d) \<Rightarrow>
     if r = 0 then (False, woke, d) else (True, woke, d))"

definition jiq_print_wq_delayed ::
    "(nat \<Rightarrow> nat \<Rightarrow> nat) \<Rightarrow> env \<Rightarrow> clientdata \<Rightarrow> bool \<times> bool \<times> clientdata" where
  "jiq_print_wq_delayed emit e data = (case jiq_print emit e data of (r, woke, d) \<Rightarrow>
     if r = 0 then (False, woke, d) else (True, woke, d))"

definition jiq_print_tasklet ::
    "(nat \<Rightarrow> nat \<Rightarrow> nat) \<Rightarrow> env \<Rightarrow> clientdata \<Rightarrow> bool \<times> bool \<times> clientdata" where
  "jiq_print_tasklet emit e data = (case jiq_print emit e data of (r, woke, d) \<Rightarrow>
     if r \<noteq> 0 then (True, woke, d) else (False, woke, d))"

definition jiq_timedout ::
    "(nat \<Rightarrow> nat \<Rightarrow> nat) \<Rightarrow> env \<Rightarrow> clientdata \<Rightarrow> bool \<times> bool \<times> clientdata" where
  "jiq_timedout emit e data = (case jiq_print emit e data of (r, woke, d) \<Rightarrow> (False, True, d))"

text \<open>
  The runs the kernel grants to a scheduled handler: is it still scheduled, was the reader woken, the data.
\<close>

fun jiq_runs ::
    "(env \<Rightarrow> clientdata \<Rightarrow> bool \<times> bool \<times> clientdata) \<Rightarrow> env list \<Rightarrow> clientdata \<Rightarrow> bool \<times> bool \<times> clientdata" where
  "jiq_runs f [] d = (True, False, d)"
| "jiq_runs f (e # es) d = (case f e d of (again, woke, d') \<Rightarrow>
     if again then (case jiq_runs f es d' of (again', woke', d'') \<Rightarrow> (again', woke \<or> woke', d''))
     else (False, woke, d'))"

section \<open>The readers\<close>

text \<open>
  \<open>schedule\<close> after \<open>prepare_to_wait\<close> returns when the reader was woken or has a signal;
  \<open>wait_event_interruptible\<close> with a condition that is constantly false returns for a signal only. The
  result is the return value, \<open>None\<close> while the reader sleeps, whether the handler is still scheduled, and the data.
\<close>

record jiq_result =
  qret :: "int option"
  qscheduled :: bool
  qdata :: clientdata

definition jiq_start :: "u64 \<Rightarrow> int \<Rightarrow> clientdata" where
  "jiq_start j delay = \<lparr>m_count = 0, m_lines = [], jiq_len = 0, jiq_jiffies = j, jiq_delay = delay, jiq_expires = 0\<rparr>"

definition jiq_read_wq_show :: "(nat \<Rightarrow> nat \<Rightarrow> nat) \<Rightarrow> u64 \<Rightarrow> env list \<Rightarrow> bool \<Rightarrow> jiq_result" where
  "jiq_read_wq_show emit j es sig =
     (case jiq_runs (jiq_print_wq emit) es (jiq_start j 0) of (again, woke, d) \<Rightarrow>
        \<lparr>qret = (if woke \<or> sig then Some 0 else None), qscheduled = again, qdata = d\<rparr>)"

definition jiq_read_wq_delayed_show ::
    "(nat \<Rightarrow> nat \<Rightarrow> nat) \<Rightarrow> int \<Rightarrow> u64 \<Rightarrow> env list \<Rightarrow> bool \<Rightarrow> jiq_result" where
  "jiq_read_wq_delayed_show emit delay j es sig =
     (case jiq_runs (jiq_print_wq_delayed emit) es (jiq_start j delay) of (again, woke, d) \<Rightarrow>
        \<lparr>qret = (if woke \<or> sig then Some 0 else None), qscheduled = again, qdata = d\<rparr>)"

definition jiq_read_tasklet_show :: "(nat \<Rightarrow> nat \<Rightarrow> nat) \<Rightarrow> u64 \<Rightarrow> env list \<Rightarrow> bool \<Rightarrow> jiq_result" where
  "jiq_read_tasklet_show emit j es sig =
     (case jiq_runs (jiq_print_tasklet emit) es (jiq_start j 0) of (again, woke, d) \<Rightarrow>
        let condition = False
        in \<lparr>qret = (if condition \<or> sig then Some 0 else None), qscheduled = again, qdata = d\<rparr>)"

text \<open>The timer file prints a line itself first; \<open>del_timer_sync\<close> leaves no timer behind.\<close>

definition jiq_read_run_timer_show ::
    "(nat \<Rightarrow> nat \<Rightarrow> nat) \<Rightarrow> u64 \<Rightarrow> env \<Rightarrow> env list \<Rightarrow> bool \<Rightarrow> jiq_result" where
  "jiq_read_run_timer_show emit hz e0 es sig =
     (let d0 = (jiq_start (e_jiffies e0) 0)\<lparr>jiq_expires := e_jiffies e0 + hz\<rparr>;
          d1 = snd (snd (jiq_print emit e0 d0))
      in case jiq_runs (jiq_timedout emit) es d1 of (again, woke, d) \<Rightarrow>
        let condition = False
        in \<lparr>qret = (if condition \<or> sig then Some 0 else None), qscheduled = (again \<and> \<not> sig), qdata = d\<rparr>)"

section \<open>Loading and unloading\<close>

definition jiq_init :: "((string, 'z) kworld_scheme, int) state" where
  "jiq_init = do {
     call (Get ''jiqwq'' []);
     call (Get ''jiqwqdelay'' []);
     call (Get ''jitimer'' []);
     call (Get ''jiqtasklet'' []);
     return 0
   }"

definition jiq_cleanup :: "((string, 'z) kworld_scheme, unit) state" where
  "jiq_cleanup = do {
     remove_proc_entry ''jiqwq'';
     remove_proc_entry ''jiqwqdelay'';
     remove_proc_entry ''jitimer'';
     remove_proc_entry ''jiqtasklet'';
     return ()
   }"

section \<open>The chain of runs ends\<close>

lemma handlers_same:
  "jiq_print_wq_delayed = jiq_print_wq" "jiq_print_tasklet = jiq_print_wq"
  by (auto simp: fun_eq_iff jiq_print_wq_def jiq_print_wq_delayed_def jiq_print_tasklet_def split: prod.splits)

definition len_ok :: "clientdata \<Rightarrow> bool" where
  "len_ok d \<longleftrightarrow> 0 \<le> jiq_len d \<and> jiq_len d < 2 ^ 31"

lemma limit_reached: "len_ok d \<Longrightarrow> LIMIT < word_of_int (jiq_len d) \<longleftrightarrow> 3968 < jiq_len d"
proof -
  assume "len_ok d"
  then have "uint (word_of_int (jiq_len d) :: u64) = jiq_len d"
    by (simp add: len_ok_def uint_word_of_int)
  then show ?thesis by (simp add: LIMIT_def word_less_def)
qed

text \<open>
  A run either prints a line, which moves \<open>jiq_len\<close> up, or wakes the reader and ends the chain. The
  buffer of a sequence file is at most half a gigabyte.
\<close>

lemma jiq_print_wq_cases:
  assumes "\<And>c n. 0 < n \<Longrightarrow> 0 < emit c n \<and> emit c n \<le> 2 ^ 29" and "len_ok d"
    and "m_count d \<le> 2 ^ 29" and "jiq_print_wq emit e d = (again, woke, d')"
  shows "(again \<and> \<not> woke \<and> jiq_len d \<le> 3968 \<and> jiq_len d < jiq_len d' \<and> len_ok d' \<and> m_count d' \<le> 2 ^ 29 \<and>
      map fst (m_lines d') = map fst (m_lines d) @ [e_jiffies e]) \<or>
    (\<not> again \<and> woke \<and> 3968 < jiq_len d \<and> d' = d)"
proof (cases "3968 < jiq_len d")
  case True
  then show ?thesis using assms(2,4) limit_reached [OF assms(2)] by (simp add: jiq_print_wq_def jiq_print_def)
next
  case False
  define l where "l = (e_jiffies e, e_jiffies e - jiq_jiffies d, e)"
  define c1 where "c1 = (if jiq_len d = 0 then emit (m_count d) (length jiq_header) else m_count d)"
  have pos: "0 < length (jiq_line l)" "0 < length jiq_header"
    by (simp_all add: jiq_line_def jiq_header_def l_def)
  then have c2: "0 < emit c1 (length (jiq_line l))" "emit c1 (length (jiq_line l)) \<le> 2 ^ 29" and c1: "c1 \<le> 2 ^ 29"
    using assms(1,3) by (auto simp: c1_def)
  have "jiq_print emit e d = (1, False, d\<lparr>m_count := emit c1 (length (jiq_line l)), m_lines := m_lines d @ [l],
      jiq_len := jiq_len d + ((if jiq_len d = 0 then int c1 else 0) + int (emit c1 (length (jiq_line l)))),
      jiq_jiffies := e_jiffies e\<rparr>)"
    using False limit_reached [OF assms(2)] by (simp add: jiq_print_def c1_def l_def Let_def)
  then show ?thesis
    using assms(2,4) False c1 c2 by (auto simp: jiq_print_wq_def len_ok_def l_def)
qed

lemma jiq_runs_end:
  assumes emit: "\<And>c n. 0 < n \<Longrightarrow> 0 < emit c n \<and> emit c n \<le> 2 ^ 29"
  shows "len_ok d \<Longrightarrow> m_count d \<le> 2 ^ 29 \<Longrightarrow> jiq_runs (jiq_print_wq emit) es d = (again, woke, d') \<Longrightarrow>
    (woke \<longleftrightarrow> \<not> again) \<and> (3969 - jiq_len d < int (length es) \<and> es \<noteq> [] \<longrightarrow> \<not> again) \<and>
    (\<exists>k\<le>length es. map fst (m_lines d') = map fst (m_lines d) @ map e_jiffies (take k es) \<and> (again \<longrightarrow> k = length es))"
proof (induction es arbitrary: d again woke)
  case Nil
  then show ?case by simp
next
  case (Cons e es)
  obtain a w d1 where 1: "jiq_print_wq emit e d = (a, w, d1)" using prod_cases3 by blast
  from jiq_print_wq_cases [OF emit Cons.prems(1,2) 1] consider
    (go) "a" "\<not> w" "jiq_len d < jiq_len d1" "jiq_len d \<le> 3968" "len_ok d1" "m_count d1 \<le> 2 ^ 29"
      "map fst (m_lines d1) = map fst (m_lines d) @ [e_jiffies e]"
  | (stop) "\<not> a" "w" "d1 = d" by blast
  then show ?case
  proof cases
    case go
    obtain a2 w2 where 2: "jiq_runs (jiq_print_wq emit) es d1 = (a2, w2, d')" "again = a2" "woke = w2"
      using Cons.prems(3) 1 go by (auto split: prod.splits)
    from Cons.IH [OF go(5,6) 2(1)] obtain k where k: "k \<le> length es"
      "map fst (m_lines d') = map fst (m_lines d1) @ map e_jiffies (take k es)" "a2 \<longrightarrow> k = length es"
      and e: "w2 \<longleftrightarrow> \<not> a2" "3969 - jiq_len d1 < int (length es) \<and> es \<noteq> [] \<longrightarrow> \<not> a2"
      by blast
    have "3969 - jiq_len d < int (length (e # es)) \<longrightarrow> \<not> a2"
      using e(2) go(3,4) by auto
    moreover have "map fst (m_lines d') = map fst (m_lines d) @ map e_jiffies (take (Suc k) (e # es))"
      using k(2) go(7) by simp
    ultimately show ?thesis
      using e(1) k 2(2,3) by (intro conjI exI [of _ "Suc k"]) auto
  next
    case stop
    then show ?thesis using Cons.prems(3) 1 by (auto intro!: exI [of _ 0])
  qed
qed

text \<open>What a finished chain looks like: it ended, and it printed one line for each of its first runs.\<close>

definition chain_done :: "env list \<Rightarrow> jiq_result \<Rightarrow> bool" where
  "chain_done es r \<longleftrightarrow> \<not> qscheduled r \<and>
     (\<exists>k\<le>length es. map fst (m_lines (qdata r)) = map e_jiffies (take k es))"

lemma jiq_chain:
  assumes "\<And>c n. 0 < n \<Longrightarrow> 0 < emit c n \<and> emit c n \<le> 2 ^ 29" and "3970 \<le> length es"
    and "jiq_runs (jiq_print_wq emit) es (jiq_start j delay) = (again, woke, d)"
  shows "\<not> again \<and> woke \<and> (\<exists>k\<le>length es. map fst (m_lines d) = map e_jiffies (take k es))"
proof -
  have "es \<noteq> []" using assms(2) by auto
  then show ?thesis
    using jiq_runs_end [OF assms(1) _ _ assms(3)] assms(2) by (auto simp: jiq_start_def len_ok_def)
qed


text \<open>A concrete counter: a buffer of half a gigabyte that every print moves by the bytes printed.\<close>

definition emit_example :: "nat \<Rightarrow> nat \<Rightarrow> nat" where
  "emit_example c n = min (c + n) (2 ^ 29)"


section \<open>How much is printed\<close>

text \<open>
  The counter of a sequence file whose buffer is one page: a print that fits moves it by the bytes printed, one that does not
  fit leaves it at the size of the buffer.
\<close>

definition emit_page :: "nat \<Rightarrow> nat \<Rightarrow> nat" where
  "emit_page c n = (if c + n < 4096 then c + n else 4096)"

text \<open>The widths of the numbers and of a command name in an \<open>env\<close>.\<close>

definition env_typed :: "env \<Rightarrow> bool" where
  "env_typed e \<longleftrightarrow> c_int (e_pid e) \<and> c_int (e_cpu e) \<and> length (e_comm e) < 16"

lemma length_pad: "length (pad n s) = max n (length s)"
  by (simp add: pad_def)

lemma length_dec_s64: "length (dec (sint (w :: u64))) \<le> 20"
proof -
  have "- (2 ^ 63) \<le> sint w" "sint w < 2 ^ 63" using sint_ge [of w] sint_lt [of w] by simp_all
  then have "nat \<bar>sint w\<bar> < 10 ^ 19" by simp
  from length_dec_nat [OF _ this] show ?thesis by (auto simp: dec_def)
qed

lemma jiq_line_length:
  assumes "env_typed e"
  shows "35 \<le> length (jiq_line (j, d, e)) \<and> length (jiq_line (j, d, e)) \<le> 91"
proof -
  have "length (dec (if e_irq e then 256 else 0)) \<le> 3" by (simp add: dec_def dec_nat.simps)
  then show ?thesis
    using assms length_dec_s64 [of j] length_dec_s64 [of d] length_dec_c_int [of "e_pid e"] length_dec_c_int [of "e_cpu e"]
    by (simp add: jiq_line_def length_pad env_typed_def max_def)
qed

definition lines_len :: "clientdata \<Rightarrow> nat" where
  "lines_len d = sum_list (map (\<lambda>l. length (jiq_line l)) (m_lines d))"

text \<open>
  After \<open>k\<close> lines the counter is the header and the lines, and \<open>jiq_len\<close> is the sum of the counters after each of them.
\<close>

definition page_ok :: "clientdata \<Rightarrow> bool" where
  "page_ok d \<longleftrightarrow> (let k = length (m_lines d) in
     k \<le> 14 \<and> 35 * k \<le> lines_len d \<and> lines_len d \<le> 91 * k \<and>
     m_count d = (if k = 0 then 0 else 42 + lines_len d) \<and>
     (k = 0 \<longrightarrow> jiq_len d = 0) \<and>
     (0 < k \<longrightarrow> int (84 + 84 * k + 35 * (k * (k + 1))) \<le> 2 * jiq_len d \<and> jiq_len d \<le> int (42 + 1316 * k)))"

lemma fourteen_lines:
  assumes "int (84 + 84 * k + 35 * (k * (k + 1))) \<le> 2 * len" and "len \<le> 3968"
  shows "k \<le> 13"
proof (rule ccontr)
  assume "\<not> k \<le> 13"
  then have "14 \<le> k" by simp
  then have "14 * 15 \<le> k * (k + 1)" by (intro mult_le_mono) simp_all
  with \<open>14 \<le> k\<close> assms show False by linarith
qed

lemma page_len: "page_ok d \<Longrightarrow> 0 \<le> jiq_len d \<and> (m_lines d \<noteq> [] \<longrightarrow> 0 < jiq_len d)"
proof (cases "length (m_lines d) = 0")
  case False
  assume "page_ok d"
  with False have "int (84 + 84 * length (m_lines d) + 35 * (length (m_lines d) * (length (m_lines d) + 1))) \<le> 2 * jiq_len d"
    by (auto simp: page_ok_def Let_def)
  moreover have "0 < int (84 + 84 * length (m_lines d) + 35 * (length (m_lines d) * (length (m_lines d) + 1)))"
    by (simp only: of_nat_0_less_iff)
  ultimately show ?thesis by linarith
qed (auto simp: page_ok_def Let_def)

lemma page_step:
  assumes "page_ok d" and "env_typed e" and "jiq_len d \<le> 3968"
    and "jiq_print emit_page e d = (r, woke, d')"
  shows "page_ok d' \<and> r = 1 \<and> \<not> woke \<and> length (m_lines d') = Suc (length (m_lines d))"
proof -
  define l where "l = (e_jiffies e, e_jiffies e - jiq_jiffies d, e)"
  define k where "k = length (m_lines d)"
  define n where "n = length (jiq_line l)"
  have n: "35 \<le> n" "n \<le> 91" using jiq_line_length [OF assms(2)] by (simp_all add: n_def l_def)
  have k: "k \<le> 13"
    using assms(1,3) fourteen_lines [of k "jiq_len d"] by (cases "k = 0") (auto simp: page_ok_def k_def Let_def)
  have len: "len_ok d" using page_len [OF assms(1)] assms(3) by (simp add: len_ok_def)
  have h: "length jiq_header = 42" by (simp add: jiq_header_def)
  have c: "emit_page (42 + lines_len d) n = 42 + lines_len d + n" "emit_page 0 42 = 42"
    using assms(1) k n by (auto simp: page_ok_def emit_page_def k_def Let_def)
  have lines: "lines_len d' = lines_len d + n" if "m_lines d' = m_lines d @ [l]"
    using that by (simp add: lines_len_def n_def)
  show ?thesis
  proof (cases "k = 0")
    case True
    then have z: "m_count d = 0" "jiq_len d = 0" "lines_len d = 0" "m_lines d = []"
      using assms(1) by (auto simp: page_ok_def k_def)
    then have "jiq_print emit_page e d = (1, False, d\<lparr>m_count := 42 + n, m_lines := [l],
        jiq_len := int (42 + (42 + n)), jiq_jiffies := e_jiffies e\<rparr>)"
      using limit_reached [OF len] c h by (simp add: jiq_print_def Let_def n_def l_def)
    with assms(4) z n show ?thesis by (auto simp: page_ok_def Let_def lines_len_def n_def)
  next
    case False
    have pos: "0 < jiq_len d" using page_len [OF assms(1)] False by (simp add: k_def)
    moreover have "m_count d = 42 + lines_len d" using assms(1) False by (simp add: page_ok_def k_def Let_def)
    ultimately have "jiq_print emit_page e d = (1, False, d\<lparr>m_count := 42 + lines_len d + n, m_lines := m_lines d @ [l],
        jiq_len := jiq_len d + int (42 + lines_len d + n), jiq_jiffies := e_jiffies e\<rparr>)"
      using limit_reached [OF len] assms(3) c(1) by (simp add: jiq_print_def Let_def n_def l_def)
    with assms(4) have d': "r = 1" "\<not> woke" "m_lines d' = m_lines d @ [l]" "m_count d' = 42 + lines_len d + n"
      "jiq_len d' = jiq_len d + int (42 + lines_len d + n)" by auto
    have "35 * k \<le> lines_len d" "lines_len d \<le> 91 * k"
      "int (84 + 84 * k + 35 * (k * (k + 1))) \<le> 2 * jiq_len d" "jiq_len d \<le> int (42 + 1316 * k)"
      using assms(1) False by (auto simp: page_ok_def k_def Let_def)
    moreover have "35 * (Suc k * (Suc k + 1)) = 35 * (k * (k + 1)) + 70 * k + 70" by (simp add: algebra_simps)
    ultimately show ?thesis
      using d' lines [OF d'(3)] n k unfolding page_ok_def Let_def
      by (simp add: k_def [symmetric])
  qed
qed

lemma page_runs:
  "page_ok d \<Longrightarrow> \<forall>e\<in>set es. env_typed e \<Longrightarrow> jiq_runs (jiq_print_wq emit_page) es d = (again, woke, d') \<Longrightarrow>
     page_ok d' \<and> (woke \<longleftrightarrow> \<not> again) \<and> (again \<longrightarrow> length (m_lines d') = length (m_lines d) + length es) \<and>
     (\<not> again \<longrightarrow> 3968 < jiq_len d')"
proof (induction es arbitrary: d again woke)
  case (Cons e es)
  have e: "env_typed e" "\<forall>e\<in>set es. env_typed e" using Cons.prems(2) by auto
  show ?case
  proof (cases "3968 < jiq_len d")
    case True
    then have "\<not> jiq_len d < 2 ^ 31 \<or> LIMIT < word_of_int (jiq_len d)"
      using limit_reached [of d] page_len [OF Cons.prems(1)] by (auto simp: len_ok_def)
    moreover have "jiq_len d < 2 ^ 31" using Cons.prems(1) by (auto simp: page_ok_def Let_def split: if_splits)
    ultimately have "jiq_print_wq emit_page e d = (False, True, d)" by (simp add: jiq_print_wq_def jiq_print_def)
    with True Cons.prems show ?thesis by simp
  next
    case False
    obtain r w d1 where 1: "jiq_print emit_page e d = (r, w, d1)" using prod_cases3 by blast
    from page_step [OF Cons.prems(1) e(1) _ 1] False have s: "page_ok d1" "r = 1" "\<not> w"
      "length (m_lines d1) = Suc (length (m_lines d))" by auto
    have "jiq_print_wq emit_page e d = (True, False, d1)" using 1 s by (simp add: jiq_print_wq_def)
    then obtain a2 w2 where 2: "jiq_runs (jiq_print_wq emit_page) es d1 = (a2, w2, d')" "again = a2" "woke = w2"
      using Cons.prems(3) by (auto split: prod.splits)
    from Cons.IH [OF s(1) e(2) 2(1)] s(4) 2(2,3) show ?thesis by simp
  qed
qed simp



end
