(* ===== verification/Proc_Files.thy ===== *)
theory Proc_Files
  imports Chardrvs Jiq
begin

text \<open>
  The \<open>/proc\<close> files of \<open>04.time/jit.c\<close> and \<open>05.workqueues/jiq.c\<close>, and the \<open>/proc\<close> and debugfs file of
  \<open>02.chardrvs/chardrvs.c\<close>: which function serves which file. Every open function
  is a call of \<open>single_open\<close>, which stores the show function and its private data in the open file; every
  \<open>proc_ops\<close> table names an open function besides the sequence file's own functions; and the modules register the tables
  under names, some with data. \<open>/proc\<close> itself is a map from names to entries: \<open>proc_create_data\<close> adds an entry unless the
  name is taken, and \<open>remove_proc_entry\<close> removes the entry of that name, whoever made it.
\<close>

section \<open>Open functions and tables\<close>

text \<open>The show functions, by their names in the source.\<close>

datatype show_fn =
    Jit_fn_show | Jit_currentime_show | Jit_timer_show | Jit_tasklet_show
  | Jiq_read_wq_show | Jiq_read_wq_delayed_show | Jiq_read_tasklet_show | Jiq_read_run_timer_show
  | Chardrvs_read_procmem | Chardrvs_read_dbgmem

text \<open>What \<open>single_open\<close> leaves in the sequence file.\<close>

record single_file =
  sf_show :: show_fn
  sf_private :: int

definition single_open :: "show_fn \<Rightarrow> int \<Rightarrow> single_file" where
  "single_open sh data = \<lparr>sf_show = sh, sf_private = data\<rparr>"

text \<open>An open function gets the data of the entry (\<open>pde_data\<close>) and may ignore it.\<close>

definition jit_fn_open :: "int \<Rightarrow> single_file" where
  "jit_fn_open data = single_open Jit_fn_show data"

definition jit_currentime_open :: "int \<Rightarrow> single_file" where
  "jit_currentime_open data = single_open Jit_currentime_show 0"

definition jit_timer_open :: "int \<Rightarrow> single_file" where
  "jit_timer_open data = single_open Jit_timer_show 0"

definition jit_tasklet_open :: "int \<Rightarrow> single_file" where
  "jit_tasklet_open data = single_open Jit_tasklet_show data"

definition jiq_read_wq_open :: "int \<Rightarrow> single_file" where
  "jiq_read_wq_open data = single_open Jiq_read_wq_show 0"

definition jiq_read_wq_delayed_open :: "int \<Rightarrow> single_file" where
  "jiq_read_wq_delayed_open data = single_open Jiq_read_wq_delayed_show 0"

definition jiq_read_tasklet_open :: "int \<Rightarrow> single_file" where
  "jiq_read_tasklet_open data = single_open Jiq_read_tasklet_show 0"

definition jiq_read_run_timer_open :: "int \<Rightarrow> single_file" where
  "jiq_read_run_timer_open data = single_open Jiq_read_run_timer_show 0"

datatype proc_fn = Seq_read | Seq_lseek | Single_release

record proc_ops =
  proc_open :: "int \<Rightarrow> single_file"
  proc_read :: proc_fn
  proc_lseek :: "proc_fn option"
  proc_release :: "proc_fn option"

definition jit_fn_fops :: proc_ops where
  "jit_fn_fops = \<lparr>proc_open = jit_fn_open, proc_read = Seq_read, proc_lseek = Some Seq_lseek, proc_release = Some Single_release\<rparr>"

definition jit_currentime_fops :: proc_ops where
  "jit_currentime_fops = \<lparr>proc_open = jit_currentime_open, proc_read = Seq_read, proc_lseek = Some Seq_lseek,
     proc_release = Some Single_release\<rparr>"

definition jit_timer_fops :: proc_ops where
  "jit_timer_fops = \<lparr>proc_open = jit_timer_open, proc_read = Seq_read, proc_lseek = Some Seq_lseek,
     proc_release = Some Single_release\<rparr>"

definition jit_tasklet_fops :: proc_ops where
  "jit_tasklet_fops = \<lparr>proc_open = jit_tasklet_open, proc_read = Seq_read, proc_lseek = Some Seq_lseek,
     proc_release = Some Single_release\<rparr>"

definition jiq_read_wq_fops :: proc_ops where
  "jiq_read_wq_fops = \<lparr>proc_open = jiq_read_wq_open, proc_read = Seq_read, proc_lseek = Some Seq_lseek,
     proc_release = Some Single_release\<rparr>"

definition jiq_read_wq_delayed_fops :: proc_ops where
  "jiq_read_wq_delayed_fops = \<lparr>proc_open = jiq_read_wq_delayed_open, proc_read = Seq_read, proc_lseek = Some Seq_lseek,
     proc_release = Some Single_release\<rparr>"

definition jiq_read_tasklet_fops :: proc_ops where
  "jiq_read_tasklet_fops = \<lparr>proc_open = jiq_read_tasklet_open, proc_read = Seq_read, proc_lseek = Some Seq_lseek,
     proc_release = Some Single_release\<rparr>"

definition jiq_read_run_timer_fops :: proc_ops where
  "jiq_read_run_timer_fops = \<lparr>proc_open = jiq_read_run_timer_open, proc_read = Seq_read, proc_lseek = Some Seq_lseek,
     proc_release = Some Single_release\<rparr>"

text \<open>
  The files of \<open>chardrvs\<close>. Their tables have no entry for positioning, and none for the release. The debugfs table is a
  \<open>file_operations\<close>, with the same entries under other names.
\<close>

definition chardrvs_proc_open :: "int \<Rightarrow> single_file" where
  "chardrvs_proc_open data = single_open Chardrvs_read_procmem 0"

definition chardrvs_dbg_open :: "int \<Rightarrow> single_file" where
  "chardrvs_dbg_open data = single_open Chardrvs_read_dbgmem 0"

definition chardrvs_proc_fops :: proc_ops where
  "chardrvs_proc_fops = \<lparr>proc_open = chardrvs_proc_open, proc_read = Seq_read, proc_lseek = None, proc_release = None\<rparr>"

definition chardrvs_dbg_fops :: proc_ops where
  "chardrvs_dbg_fops = \<lparr>proc_open = chardrvs_dbg_open, proc_read = Seq_read, proc_lseek = None, proc_release = None\<rparr>"

text \<open>The numbers of the enumeration \<open>jit_files\<close>.\<close>

fun jit_file_nr :: "jit_file \<Rightarrow> int" where
  "jit_file_nr JIT_BUSY = 0" | "jit_file_nr JIT_SCHED = 1" | "jit_file_nr JIT_QUEUE = 2" | "jit_file_nr JIT_SCHEDTO = 3"

definition jit_entries :: "(string \<times> proc_ops \<times> int) list" where
  "jit_entries =
     [(''currentime'', jit_currentime_fops, 0),
      (''jitbusy'', jit_fn_fops, jit_file_nr JIT_BUSY),
      (''jitsched'', jit_fn_fops, jit_file_nr JIT_SCHED),
      (''jitqueue'', jit_fn_fops, jit_file_nr JIT_QUEUE),
      (''jitschedto'', jit_fn_fops, jit_file_nr JIT_SCHEDTO),
      (''jitimer'', jit_timer_fops, 0),
      (''jitasklet'', jit_tasklet_fops, 0),
      (''jitasklethi'', jit_tasklet_fops, 1)]"

definition jiq_entries :: "(string \<times> proc_ops \<times> int) list" where
  "jiq_entries =
     [(''jiqwq'', jiq_read_wq_fops, 0),
      (''jiqwqdelay'', jiq_read_wq_delayed_fops, 0),
      (''jitimer'', jiq_read_run_timer_fops, 0),
      (''jiqtasklet'', jiq_read_tasklet_fops, 0)]"

section \<open>The directory\<close>

type_synonym proc_dir = "string \<rightharpoonup> proc_ops \<times> int"

definition dir_create :: "string \<times> proc_ops \<times> int \<Rightarrow> proc_dir \<Rightarrow> proc_dir" where
  "dir_create x dir = (case dir (fst x) of None \<Rightarrow> dir(fst x \<mapsto> snd x) | Some _ \<Rightarrow> dir)"

definition dir_load :: "(string \<times> proc_ops \<times> int) list \<Rightarrow> proc_dir \<Rightarrow> proc_dir" where
  "dir_load es dir = fold dir_create es dir"

definition dir_unload :: "(string \<times> proc_ops \<times> int) list \<Rightarrow> proc_dir \<Rightarrow> proc_dir" where
  "dir_unload es dir = fold (\<lambda>x dir. dir(fst x := None)) es dir"

text \<open>Opening a file by its name.\<close>

definition proc_serves :: "proc_dir \<Rightarrow> string \<Rightarrow> single_file option" where
  "proc_serves dir n = map_option (\<lambda>(ops, data). proc_open ops data) (dir n)"

datatype module_event = Load_jit | Unload_jit | Load_jiq | Unload_jiq

record modules =
  jit_in :: bool
  jiq_in :: bool
  pdir :: proc_dir

text \<open>A module that is in cannot be loaded again, and one that is out cannot be unloaded.\<close>

fun module_step :: "module_event \<Rightarrow> modules \<Rightarrow> modules" where
  "module_step Load_jit s = (if jit_in s then s else s\<lparr>jit_in := True, pdir := dir_load jit_entries (pdir s)\<rparr>)"
| "module_step Unload_jit s = (if jit_in s then s\<lparr>jit_in := False, pdir := dir_unload jit_entries (pdir s)\<rparr> else s)"
| "module_step Load_jiq s = (if jiq_in s then s else s\<lparr>jiq_in := True, pdir := dir_load jiq_entries (pdir s)\<rparr>)"
| "module_step Unload_jiq s = (if jiq_in s then s\<lparr>jiq_in := False, pdir := dir_unload jiq_entries (pdir s)\<rparr> else s)"

fun module_run :: "module_event list \<Rightarrow> modules \<Rightarrow> modules" where
  "module_run [] s = s"
| "module_run (e # es) s = module_run es (module_step e s)"

definition no_modules :: modules where
  "no_modules = \<lparr>jit_in = False, jiq_in = False, pdir = Map.empty\<rparr>"

section \<open>What the directory holds\<close>

lemma dir_load_at: "dir_load es dir n = (case dir n of Some x \<Rightarrow> Some x | None \<Rightarrow> map_of es n)"
  by (induction es arbitrary: dir) (auto simp: dir_load_def dir_create_def split: option.splits)

lemma dir_unload_at: "dir_unload es dir n = (case map_of es n of None \<Rightarrow> dir n | Some x \<Rightarrow> None)"
  by (induction es arbitrary: dir) (auto simp: dir_unload_def split: option.splits)

text \<open>The calls of the two init functions create these entries, in this order.\<close>

lemma init_creates_entries:
  "map fst (ktrace (exec jit_init s)) = map fst (ktrace s) @ map (\<lambda>(n, ops, data). Get n [data]) jit_entries"
  "map fst (ktrace (exec jiq_init s)) = map fst (ktrace s) @ map (\<lambda>(n, ops, data). Get n []) jiq_entries"
  by (simp_all add: exec_def jit_init_def jiq_init_def jit_entries_def jiq_entries_def)

lemma cleanup_removes_entries:
  "map fst (ktrace (exec jit_cleanup s)) = map fst (ktrace s) @ map (\<lambda>(n, ops, data). Put n) jit_entries"
  "map fst (ktrace (exec jiq_cleanup s)) = map fst (ktrace s) @ map (\<lambda>(n, ops, data). Put n) jiq_entries"
  by (simp_all add: exec_def jit_cleanup_def jiq_cleanup_def jit_entries_def jiq_entries_def)

text \<open>What a name other than \<open>jitimer\<close> should lead to.\<close>

definition entry_of :: "modules \<Rightarrow> string \<Rightarrow> (proc_ops \<times> int) option" where
  "entry_of s n = (case if jit_in s then map_of jit_entries n else None of Some e \<Rightarrow> Some e
     | None \<Rightarrow> if jiq_in s then map_of jiq_entries n else None)"

definition jitimer_ok :: "modules \<Rightarrow> bool" where
  "jitimer_ok s \<longleftrightarrow> (case pdir s ''jitimer'' of None \<Rightarrow> True
     | Some e \<Rightarrow> jit_in s \<and> e = (jit_timer_fops, 0) \<or> jiq_in s \<and> e = (jiq_read_run_timer_fops, 0))"

lemma entries_disjoint:
  "n \<noteq> ''jitimer'' \<Longrightarrow> map_of jit_entries n = None \<or> map_of jiq_entries n = None"
  by (simp add: jit_entries_def jiq_entries_def)

lemma jitimer_entries:
  "map_of jit_entries ''jitimer'' = Some (jit_timer_fops, 0)"
  "map_of jiq_entries ''jitimer'' = Some (jiq_read_run_timer_fops, 0)"
  by (simp_all add: jit_entries_def jiq_entries_def)

lemma module_step_entry:
  assumes "n \<noteq> ''jitimer''" and "pdir s n = entry_of s n"
  shows "pdir (module_step e s) n = entry_of (module_step e s) n"
proof (cases "map_of jit_entries n")
  case None
  then show ?thesis using assms(2)
    by (cases e) (simp_all add: entry_of_def dir_load_at dir_unload_at split: option.split)
next
  case (Some x)
  then have "map_of jiq_entries n = None" using entries_disjoint [OF assms(1)] by simp
  with Some assms(2) show ?thesis
    by (cases e) (simp_all add: entry_of_def dir_load_at dir_unload_at split: option.split)
qed

lemma module_step_jitimer:
  assumes "jitimer_ok s"
  shows "jitimer_ok (module_step e s)"
proof (cases "pdir s ''jitimer''")
  case None
  then show ?thesis
    by (cases e) (simp_all add: jitimer_ok_def dir_load_at dir_unload_at jitimer_entries)
next
  case (Some x)
  with assms have "jit_in s \<and> x = (jit_timer_fops, 0) \<or> jiq_in s \<and> x = (jiq_read_run_timer_fops, 0)"
    by (simp add: jitimer_ok_def)
  then show ?thesis using Some
    by (cases e) (auto simp add: jitimer_ok_def dir_load_at dir_unload_at jitimer_entries)
qed

lemma module_run_ok:
  "jitimer_ok s \<Longrightarrow> n \<noteq> ''jitimer'' \<Longrightarrow> pdir s n = entry_of s n \<Longrightarrow>
     jitimer_ok (module_run es s) \<and> pdir (module_run es s) n = entry_of (module_run es s) n"
  by (induction es s rule: module_run.induct) (simp_all only: module_run.simps module_step_entry module_step_jitimer simp_thms)

lemma no_modules_ok: "jitimer_ok no_modules" "pdir no_modules n = entry_of no_modules n"
  by (simp_all add: jitimer_ok_def entry_of_def no_modules_def)

section \<open>Properties\<close>

lemmas fops_defs = jit_fn_fops_def jit_currentime_fops_def jit_timer_fops_def jit_tasklet_fops_def
  jiq_read_wq_fops_def jiq_read_wq_delayed_fops_def jiq_read_tasklet_fops_def jiq_read_run_timer_fops_def
lemmas open_defs = jit_fn_open_def jit_currentime_open_def jit_timer_open_def jit_tasklet_open_def
  jiq_read_wq_open_def jiq_read_wq_delayed_open_def jiq_read_tasklet_open_def jiq_read_run_timer_open_def single_open_def

text \<open>
  Opening and closing. \<open>single_open\<close> allocates a sequence file with its operations, or fails with \<open>-ENOMEM\<close> and allocates
  nothing; only \<open>single_release\<close> frees it. The state counts the files that are open and the sequence files that are allocated.
\<close>

datatype seq_event = Seq_open bool | Seq_close

fun seq_step :: "proc_ops \<Rightarrow> seq_event \<Rightarrow> nat \<times> nat \<Rightarrow> nat \<times> nat" where
  "seq_step ops (Seq_open memory) (opened, live) = (if memory then (opened + 1, live + 1) else (opened, live))"
| "seq_step ops Seq_close (opened, live) =
     (if opened = 0 then (opened, live)
      else (opened - 1, if proc_release ops = Some Single_release then live - 1 else live))"

fun seq_session :: "proc_ops \<Rightarrow> seq_event list \<Rightarrow> nat \<times> nat \<Rightarrow> nat \<times> nat" where
  "seq_session ops [] s = s"
| "seq_session ops (e # es) s = seq_session ops es (seq_step ops e s)"

lemma seq_session_released:
  "proc_release ops = Some Single_release \<Longrightarrow> seq_session ops es (n, n) = (fst (seq_session ops es (n, n)), fst (seq_session ops es (n, n)))"
proof (induction es arbitrary: n)
  case (Cons e es)
  then show ?case by (cases e; cases "n = 0") simp_all
qed simp

lemma seq_session_leaks:
  "proc_release ops = None \<Longrightarrow> snd (seq_session ops es (n, k)) = k + count_list es (Seq_open True)"
proof (induction es arbitrary: n k)
  case (Cons e es)
  then show ?case by (cases e) auto
qed simp

text \<open>
  C21. However the modules \<open>jit\<close> and \<open>jiq\<close> are loaded and unloaded, every file but one is there exactly while its module is, and
  opening it reaches the show function meant for it with its private data (the kind of delay, or the
  priority of the tasklet). The exception is \<open>jitimer\<close>, which both modules create: whoever comes second is refused,
  and whoever leaves first removes it. So with both loaded it serves the module that came first, and after the
  other one has left it is gone although its own module is still loaded.
\<close>

theorem proc_files_dispatch:
  assumes "s = module_run es no_modules"
  shows "(jit_in s \<longrightarrow>
      proc_serves (pdir s) ''currentime'' = Some \<lparr>sf_show = Jit_currentime_show, sf_private = 0\<rparr> \<and>
      proc_serves (pdir s) ''jitbusy'' = Some \<lparr>sf_show = Jit_fn_show, sf_private = jit_file_nr JIT_BUSY\<rparr> \<and>
      proc_serves (pdir s) ''jitsched'' = Some \<lparr>sf_show = Jit_fn_show, sf_private = jit_file_nr JIT_SCHED\<rparr> \<and>
      proc_serves (pdir s) ''jitqueue'' = Some \<lparr>sf_show = Jit_fn_show, sf_private = jit_file_nr JIT_QUEUE\<rparr> \<and>
      proc_serves (pdir s) ''jitschedto'' = Some \<lparr>sf_show = Jit_fn_show, sf_private = jit_file_nr JIT_SCHEDTO\<rparr> \<and>
      proc_serves (pdir s) ''jitasklet'' = Some \<lparr>sf_show = Jit_tasklet_show, sf_private = 0\<rparr> \<and>
      proc_serves (pdir s) ''jitasklethi'' = Some \<lparr>sf_show = Jit_tasklet_show, sf_private = 1\<rparr>) \<and>
    (jiq_in s \<longrightarrow>
      proc_serves (pdir s) ''jiqwq'' = Some \<lparr>sf_show = Jiq_read_wq_show, sf_private = 0\<rparr> \<and>
      proc_serves (pdir s) ''jiqwqdelay'' = Some \<lparr>sf_show = Jiq_read_wq_delayed_show, sf_private = 0\<rparr> \<and>
      proc_serves (pdir s) ''jiqtasklet'' = Some \<lparr>sf_show = Jiq_read_tasklet_show, sf_private = 0\<rparr>) \<and>
    (\<not> jit_in s \<and> n \<in> fst ` set jit_entries - {''jitimer''} \<longrightarrow> pdir s n = None) \<and>
    (\<not> jiq_in s \<and> n \<in> fst ` set jiq_entries - {''jitimer''} \<longrightarrow> pdir s n = None) \<and>
    (\<not> jit_in s \<and> \<not> jiq_in s \<longrightarrow> pdir s n = None) \<and>
    proc_serves (pdir (module_run [Load_jit, Load_jiq] no_modules)) ''jitimer'' =
      Some \<lparr>sf_show = Jit_timer_show, sf_private = 0\<rparr> \<and>
    proc_serves (pdir (module_run [Load_jiq, Load_jit] no_modules)) ''jitimer'' =
      Some \<lparr>sf_show = Jiq_read_run_timer_show, sf_private = 0\<rparr> \<and>
    proc_serves (pdir (module_run [Load_jit, Load_jiq, Unload_jiq] no_modules)) ''jitimer'' = None \<and>
    proc_serves (pdir (module_run [Load_jiq, Load_jit, Unload_jit] no_modules)) ''jitimer'' = None"
    (is "(_ \<longrightarrow> ?J) \<and> (_ \<longrightarrow> ?Q) \<and> _")
proof -
  have e: "m \<noteq> ''jitimer'' \<Longrightarrow> pdir s m = entry_of s m" for m
    using module_run_ok [OF no_modules_ok(1) _ no_modules_ok(2)] assms by simp
  have t: "jitimer_ok s"
    using module_run_ok [OF no_modules_ok(1) _ no_modules_ok(2), of "[]" es] assms by simp
  have gone: "\<not> jit_in s \<and> \<not> jiq_in s \<longrightarrow> pdir s n = None"
    using e [of n] t by (cases "n = ''jitimer''") (auto simp: entry_of_def jitimer_ok_def split: option.splits)
  have out: "\<not> jit_in s \<and> n \<in> fst ` set jit_entries - {''jitimer''} \<longrightarrow> pdir s n = None"
    "\<not> jiq_in s \<and> n \<in> fst ` set jiq_entries - {''jitimer''} \<longrightarrow> pdir s n = None"
    using e [of n] by (auto simp: entry_of_def jit_entries_def jiq_entries_def)
  have serves: "proc_serves (pdir s) m = map_option (\<lambda>(ops, data). proc_open ops data) (entry_of s m)"
    if "m \<noteq> ''jitimer''" for m
    using e that by (simp add: proc_serves_def)
  have clash: "proc_serves (pdir (module_run [Load_jit, Load_jiq] no_modules)) ''jitimer'' =
      Some \<lparr>sf_show = Jit_timer_show, sf_private = 0\<rparr>"
    "proc_serves (pdir (module_run [Load_jiq, Load_jit] no_modules)) ''jitimer'' =
      Some \<lparr>sf_show = Jiq_read_run_timer_show, sf_private = 0\<rparr>"
    "proc_serves (pdir (module_run [Load_jit, Load_jiq, Unload_jiq] no_modules)) ''jitimer'' = None"
    "proc_serves (pdir (module_run [Load_jiq, Load_jit, Unload_jit] no_modules)) ''jitimer'' = None"
    by (simp_all add: proc_serves_def no_modules_def dir_load_at dir_unload_at jitimer_entries fops_defs open_defs)
  have jit: "jit_in s \<longrightarrow> ?J"
    by (simp add: serves entry_of_def jit_entries_def fops_defs open_defs)
  have jiq: "jiq_in s \<longrightarrow> ?Q"
    by (simp add: serves entry_of_def jit_entries_def jiq_entries_def fops_defs open_defs)
  show ?thesis by (intro conjI jit jiq out gone clash)
qed

theorem proc_files_dispatch_witness:
  "proc_serves (pdir (module_run [Load_jit, Load_jiq, Unload_jiq] no_modules)) ''jitqueue'' =
     Some \<lparr>sf_show = Jit_fn_show, sf_private = 2\<rparr>"
proof -
  have "jit_in (module_run [Load_jit, Load_jiq, Unload_jiq] no_modules)" by (simp add: no_modules_def)
  then show ?thesis using proc_files_dispatch [of _ "[Load_jit, Load_jiq, Unload_jiq]", OF refl] by simp
qed

text \<open>
  However the files are opened and closed, and whichever opens run out of memory: the files of \<open>jit\<close> and \<open>jiq\<close> hold exactly
  one sequence file for each file open, so all are freed in the end; the \<open>/proc\<close> and debugfs files of \<open>chardrvs\<close>, whose
  tables name no release function, keep one for every open that ever succeeded. Opening them reaches their show functions.
\<close>

theorem chardrvs_opens_leak:
  "list_all (\<lambda>(n, ops, data). snd (seq_session ops es (0, 0)) = fst (seq_session ops es (0, 0))) (jit_entries @ jiq_entries) \<and>
    snd (seq_session chardrvs_proc_fops es (0, 0)) = count_list es (Seq_open True) \<and>
    snd (seq_session chardrvs_dbg_fops es (0, 0)) = count_list es (Seq_open True) \<and>
    sf_show (proc_open chardrvs_proc_fops data) = Chardrvs_read_procmem \<and>
    sf_show (proc_open chardrvs_dbg_fops data) = Chardrvs_read_dbgmem"
proof -
  have freed: "snd (seq_session ops es (0, 0)) = fst (seq_session ops es (0, 0))" if "proc_release ops = Some Single_release" for ops
    using seq_session_released [OF that, of es 0] by (metis snd_conv)
  show ?thesis
    by (simp add: freed jit_entries_def jiq_entries_def fops_defs seq_session_leaks chardrvs_proc_fops_def
        chardrvs_dbg_fops_def chardrvs_proc_open_def chardrvs_dbg_open_def single_open_def)
qed

end
