(* ===== verification/Virtbus.thy ===== *)
theory Virtbus
  imports Kernel_World "HOL-Library.Sublist"
begin

text \<open>
  The bus of \<open>09.virtbus/virtbus.c\<close> and the module \<open>10.virtbusdevs_load/virtbusdevs_load.c\<close> that registers two
  devices on it: the names devices get, the match function, and loading and unloading of both modules
  against the resource ledger. Strings are lists of characters that are not zero; \<open>strncmp\<close> is written
  out as the kernel defines it, with the zero at the end of each string.
\<close>

section \<open>Names and matching\<close>

fun strncmp :: "string \<Rightarrow> string \<Rightarrow> nat \<Rightarrow> int" where
  "strncmp cs ct 0 = 0"
| "strncmp cs ct (Suc count) =
     (let c1 = (case cs of [] \<Rightarrow> CHR 0x00 | c # _ \<Rightarrow> c); c2 = (case ct of [] \<Rightarrow> CHR 0x00 | c # _ \<Rightarrow> c)
      in if c1 \<noteq> c2 then (if (of_char c1 :: nat) < of_char c2 then - 1 else 1)
         else if c1 = CHR 0x00 then 0
         else strncmp (tl cs) (tl ct) count)"

datatype vb_release_fn = Virtbus_release | Virtbus_dev_release | Virtbus_load_release

record virtbus_dev =
  vb_name :: string
  vb_id :: int
  vb_bus :: bool
  vb_parent :: bool
  vb_release :: vb_release_fn
  vb_dev_name :: string

definition virtbus_match :: "virtbus_dev \<Rightarrow> string \<Rightarrow> bool" where
  "virtbus_match dev driver_name = (strncmp (vb_dev_name dev) driver_name (length driver_name) = 0)"

definition virtbus_uevent :: "(string \<Rightarrow> int) \<Rightarrow> int" where
  "virtbus_uevent add_uevent_var = (if add_uevent_var ''virtbus udev event'' \<noteq> 0 then - ENOMEM else 0)"

section \<open>Registration\<close>

datatype vb_res = Vb_bus | Vb_parent | Vb_device string | Vb_driver string

definition vb_conv :: "vb_res convention" where
  "vb_conv = \<lparr>won = (\<lambda>r v. v = 0), lax = (\<lambda>r. False)\<rparr>"

lemma vb_conv_simps [simp]: "won vb_conv = (\<lambda>r v. v = 0)" "lax vb_conv = (\<lambda>r. False)"
  by (simp_all add: vb_conv_def)

definition virtbus_set_up :: "virtbus_dev \<Rightarrow> virtbus_dev" where
  "virtbus_set_up d = d\<lparr>vb_bus := True, vb_parent := True, vb_release := Virtbus_dev_release,
     vb_dev_name := vb_name d @ ''-'' @ dec (vb_id d)\<rparr>"

definition register_virtbus_device :: "virtbus_dev \<Rightarrow> (vb_res kworld, int \<times> virtbus_dev) state" where
  "register_virtbus_device virtbusdev = do {
     let d = virtbus_set_up virtbusdev;
     ret \<leftarrow> call (Get (Vb_device (vb_dev_name d)) []);
     return (ret, d)
   }"

definition unregister_virtbus_device :: "virtbus_dev \<Rightarrow> (vb_res kworld, unit) state" where
  "unregister_virtbus_device virtbusdev = do { call (Put (Vb_device (vb_dev_name virtbusdev))); return () }"

definition register_virtbus_driver :: "string \<Rightarrow> (vb_res kworld, int) state" where
  "register_virtbus_driver driver_name = do {
     ret \<leftarrow> call (Get (Vb_driver driver_name) []);
     return ret
   }"

definition unregister_virtbus_driver :: "string \<Rightarrow> (vb_res kworld, unit) state" where
  "unregister_virtbus_driver driver_name = do { call (Put (Vb_driver driver_name)); return () }"

definition virtbus_init :: "(vb_res kworld, int) state" where
  "virtbus_init = do {
     ret \<leftarrow> call (Get Vb_bus []);
     if ret \<noteq> 0 then return ret
     else do {
       ret \<leftarrow> call (Get Vb_parent []);
       if ret \<noteq> 0 then do { call (Put Vb_bus); return ret }
       else return 0
     }}"

definition virtbus_exit :: "(vb_res kworld, unit) state" where
  "virtbus_exit = do { call (Put Vb_parent); call (Put Vb_bus); return () }"

section \<open>The two devices\<close>

definition virtbus_dev0 :: virtbus_dev where
  "virtbus_dev0 = \<lparr>vb_name = ''virtbus-fifo-dev'', vb_id = 0, vb_bus = False, vb_parent = False,
     vb_release = Virtbus_load_release, vb_dev_name = []\<rparr>"

definition virtbus_dev1 :: virtbus_dev where
  "virtbus_dev1 = \<lparr>vb_name = ''virtbus-fifo-dev'', vb_id = 1, vb_bus = False, vb_parent = False,
     vb_release = Virtbus_load_release, vb_dev_name = []\<rparr>"

text \<open>The registered forms of the two devices are returned, since \<open>exit\<close> works on the same objects.\<close>

definition virtbusdevs_load_init :: "(vb_res kworld, int \<times> virtbus_dev \<times> virtbus_dev) state" where
  "virtbusdevs_load_init = do {
     (_, d0) \<leftarrow> register_virtbus_device virtbus_dev0;
     (_, d1) \<leftarrow> register_virtbus_device virtbus_dev1;
     return (0, d0, d1)
   }"

definition virtbusdevs_load_exit :: "virtbus_dev \<Rightarrow> virtbus_dev \<Rightarrow> (vb_res kworld, unit) state" where
  "virtbusdevs_load_exit d0 d1 = do {
     unregister_virtbus_device d0;
     unregister_virtbus_device d1
   }"

section \<open>Lemmas\<close>

lemma strncmp_prefix:
  "CHR 0x00 \<notin> set a \<Longrightarrow> CHR 0x00 \<notin> set b \<Longrightarrow> strncmp a b (length b) = 0 \<longleftrightarrow> prefix b a"
proof (induction b arbitrary: a)
  case Nil
  then show ?case by simp
next
  case (Cons c b)
  then show ?case by (cases a) (auto simp: Let_def)
qed

lemma dec_no_NUL: "CHR 0x00 \<notin> set (dec x)"
proof -
  have d: "digit d \<noteq> CHR 0x00" if "d < 10" for d
  proof
    assume "digit d = CHR 0x00"
    then have "(of_char (digit d) :: nat) = of_char (CHR 0x00)" by simp
    with that show False by (simp add: digit_def)
  qed
  have "CHR 0x00 \<notin> set (dec_nat n)" for n
  proof (induction n rule: dec_nat.induct)
    case (1 n)
    then show ?case using d [of n] d [of "n mod 10"] by (subst dec_nat.simps) auto
  qed
  then show ?thesis by (simp add: dec_def)
qed

text \<open>Loading and unloading of the bus balance for every behaviour of the kernel.\<close>

lemma virtbus_init_ledger:
  assumes "ktrace s = []" and "run_state virtbus_init s = (r, t)"
  shows "held vb_conv t = Some (if r = 0 then [Vb_bus, Vb_parent] else []) \<and>
    (r = 0 \<longrightarrow> held vb_conv (exec virtbus_exit t) = Some [])"
  using assms unfolding ledger_eval
  by (simp add: virtbus_init_def virtbus_exit_def split: if_splits; clarsimp)

text \<open>The device module unregisters what failed to register, since it ignores the results.\<close>

lemma virtbusdevs_load_ledger:
  assumes "ktrace s = []" and "run_state virtbusdevs_load_init s = ((r, d0, d1), t)"
  shows "r = 0 \<and> held vb_conv (exec (virtbusdevs_load_exit d0 d1) t) =
    (if failures vb_conv (ktrace t) = [] then Some [] else None)"
  using assms unfolding ledger_eval
  by (auto simp: virtbusdevs_load_init_def virtbusdevs_load_exit_def register_virtbus_device_def
      unregister_virtbus_device_def virtbus_set_up_def virtbus_dev0_def virtbus_dev1_def Let_def split: if_splits)

section \<open>Property\<close>

text \<open>
  C14. A registered device is named after its name and number, so two devices of one name have different names
  exactly when their numbers differ, and it gets the release function of the bus whatever it had before. A driver
  matches a device exactly when its own name is a prefix of the device's: a driver named after
  the device name alone matches all its numbers, but one named for the number \<open>j\<close> also matches every number whose decimal
  form starts with that of \<open>j\<close>.
\<close>

theorem virtbus_match_is_prefix:
  assumes "CHR 0x00 \<notin> set (vb_name d)" and "CHR 0x00 \<notin> set driver"
    and "run_state (register_virtbus_device d) s = ((r, e), t)"
    and "run_state (register_virtbus_device (d\<lparr>vb_id := j\<rparr>)) s' = ((r', e'), t')"
  shows "virtbus_match e driver = prefix driver (vb_name d @ ''-'' @ dec (vb_id d)) \<and>
    virtbus_match e (vb_name d) \<and>
    (vb_dev_name e = vb_dev_name e' \<longleftrightarrow> vb_id d = j) \<and>
    virtbus_match e (vb_dev_name e') = prefix (dec j) (dec (vb_id d)) \<and>
    vb_release e = Virtbus_dev_release \<and> r = kres s (length (ktrace s)) (Get (Vb_device (vb_dev_name e)) [])"
proof -
  have e: "e = virtbus_set_up d" "e' = virtbus_set_up (d\<lparr>vb_id := j\<rparr>)"
    "r = kres s (length (ktrace s)) (Get (Vb_device (vb_dev_name e)) [])"
    using assms(3,4) by (auto simp: register_virtbus_device_def Let_def)
  have name: "CHR 0x00 \<notin> set (vb_dev_name e)" "CHR 0x00 \<notin> set (vb_dev_name e')"
    using assms(1) by (simp_all add: e(1,2) virtbus_set_up_def dec_no_NUL)
  have match: "virtbus_match e n = prefix n (vb_dev_name e)" if "CHR 0x00 \<notin> set n" for n
    using strncmp_prefix [OF name(1) that] by (simp add: virtbus_match_def)
  show ?thesis
    using match [OF assms(2)] match [OF assms(1)] match [OF name(2)] e(3)
    by (auto simp: e(1,2) virtbus_set_up_def)
qed

text \<open>With the numbers of the repository's two devices and one more.\<close>

theorem virtbus_match_is_prefix_witness:
  "let world = \<lparr>kres = (\<lambda>n c. 0), kout = (\<lambda>n c. 0), ktrace = []\<rparr>;
       e = snd (fst (run_state (register_virtbus_device (virtbus_dev0\<lparr>vb_id := 10\<rparr>)) world));
       e' = snd (fst (run_state (register_virtbus_device virtbus_dev1) world))
   in virtbus_match e (vb_dev_name e') \<and> vb_dev_name e \<noteq> vb_dev_name e'"
proof -
  have dec: "dec 1 = ''1''" "dec 10 = ''10''"
    by (simp_all add: dec_def dec_nat.simps digit_def char_of_def bit_simps)
  obtain r e t where 1: "run_state (register_virtbus_device (virtbus_dev0\<lparr>vb_id := 10\<rparr>))
      \<lparr>kres = (\<lambda>n c. 0), kout = (\<lambda>n c. 0), ktrace = []\<rparr> = ((r, e), t)" using prod_cases3 by (metis surj_pair)
  obtain r' e' t' where 2: "run_state (register_virtbus_device (virtbus_dev0\<lparr>vb_id := 10, vb_id := 1\<rparr>))
      \<lparr>kres = (\<lambda>n c. 0), kout = (\<lambda>n c. 0), ktrace = []\<rparr> = ((r', e'), t')" by (metis surj_pair)
  have d1: "virtbus_dev0\<lparr>vb_id := 10, vb_id := 1\<rparr> = virtbus_dev1"
    by (simp add: virtbus_dev0_def virtbus_dev1_def)
  show ?thesis
    using virtbus_match_is_prefix [OF _ _ 1 2, of "''x''"] 1 2 [unfolded d1]
    by (simp add: Let_def dec virtbus_dev0_def)
qed

end
