(* ===== verification/Gpio_Pulse.thy ===== *)
theory Gpio_Pulse
  imports Kernel_World User_Memory Sysfs
begin

text \<open>
  The GPIO pulse driver of \<open>14.gpio_pulse/pltdrv_gpiopulse.c\<close>: the device-tree parser, probe and removal against
  the resource ledger, and the timer callback with the two attributes that steer it. The members \<open>label\<close> and
  \<open>desc\<close> of the platform data are adjacent and are kept as their 24 bytes, so that \<open>strcpy\<close> acts on
  memory. A result \<open>None\<close> is a fault: a store through \<open>NULL\<close>, or one behind the object.
  \<open>msecs_to_jiffies\<close>, \<open>kstrtol\<close> and the GPIO accessors are parameters.
\<close>

section \<open>State\<close>

record pltdata_gpiopulse =
  enablepulse :: int
  pulsetime :: int
  label_desc :: "byte list"

record gpiopulse_prvt_devc =
  pulse_device :: int
  pulse_timer :: "u64 option"
  plt_data_prv :: pltdata_gpiopulse

datatype pulse_res = Pulse_class | Pulse_driver | Pulse_device

fun pulse_won :: "pulse_res \<Rightarrow> int \<Rightarrow> bool" where
  "pulse_won Pulse_driver v = (v = 0)"
| "pulse_won r v = (\<not> IS_ERR v)"

definition pulse_conv :: "pulse_res convention" where
  "pulse_conv = \<lparr>won = pulse_won, lax = (\<lambda>r. False)\<rparr>"

lemma pulse_conv_simps [simp]: "won pulse_conv = pulse_won" "lax pulse_conv = (\<lambda>r. False)"
  by (simp_all add: pulse_conv_def)

record pulse_state = "pulse_res kworld" +
  of_node :: bool
  dt_label :: string
  priv_dev :: "gpiopulse_prvt_devc option"
  pulse_drvdata :: bool

definition desc_of :: "gpiopulse_prvt_devc \<Rightarrow> int" where
  "desc_of p = le_val (drop 16 (label_desc (plt_data_prv p)))"

definition c_string :: "byte list \<Rightarrow> string" where
  "c_string bs = map (\<lambda>b. char_of (unat b)) (takeWhile (\<lambda>b. b \<noteq> 0) bs)"

definition strcpy :: "string \<Rightarrow> byte list \<Rightarrow> byte list option" where
  "strcpy src dst =
     (let bs = map of_char src @ [0] in if length bs \<le> length dst then Some (overwrite 0 bs dst) else None)"

definition zeroed_pulse_dev :: gpiopulse_prvt_devc where
  "zeroed_pulse_dev = \<lparr>pulse_device = 0, pulse_timer = None,
     plt_data_prv = \<lparr>enablepulse = 0, pulsetime = 0, label_desc = replicate 24 0\<rparr>\<rparr>"

definition upd_data :: "(pltdata_gpiopulse \<Rightarrow> pltdata_gpiopulse) \<Rightarrow> (pulse_state, unit) state" where
  "upd_data f = modify (\<lambda>s. s\<lparr>priv_dev := map_option (\<lambda>p. p\<lparr>plt_data_prv := f (plt_data_prv p)\<rparr>) (priv_dev s)\<rparr>)"

section \<open>Timer and attributes\<close>

definition pulse_timer_cbk ::
    "(int \<Rightarrow> u64) \<Rightarrow> ('h \<Rightarrow> int) \<Rightarrow> (int \<Rightarrow> 'h \<Rightarrow> 'h) \<Rightarrow> u64 \<Rightarrow> gpiopulse_prvt_devc \<Rightarrow> 'h \<Rightarrow> gpiopulse_prvt_devc \<times> 'h" where
  "pulse_timer_cbk msecs_to_jiffies gpiod_get_value gpiod_set_value jiffies p hw =
     (let val = gpiod_get_value hw; hw' = gpiod_set_value (if val = 0 then 1 else 0) hw
      in (if enablepulse (plt_data_prv p) \<noteq> 0
          then p\<lparr>pulse_timer := Some (jiffies + msecs_to_jiffies (pulsetime (plt_data_prv p)))\<rparr> else p, hw'))"

definition enablepulse_store ::
    "(int \<Rightarrow> u64) \<Rightarrow> (string \<Rightarrow> int \<times> int) \<Rightarrow> u64 \<Rightarrow> string \<Rightarrow> nat \<Rightarrow> gpiopulse_prvt_devc \<Rightarrow>
      int \<times> gpiopulse_prvt_devc" where
  "enablepulse_store msecs_to_jiffies kstrtol jiffies buf count p =
     (case kstrtol buf of (ret, enable) \<Rightarrow>
        if ret \<noteq> 0 then (ret, p)
        else
          let p1 = p\<lparr>plt_data_prv := (plt_data_prv p)\<lparr>enablepulse := to_s32 enable\<rparr>\<rparr>;
              p2 = (if enable \<noteq> 0
                    then p1\<lparr>pulse_timer := Some (jiffies + msecs_to_jiffies (pulsetime (plt_data_prv p1)))\<rparr> else p1)
          in (int count, p2))"

definition pulsetime_store ::
    "(string \<Rightarrow> int \<times> int) \<Rightarrow> string \<Rightarrow> nat \<Rightarrow> gpiopulse_prvt_devc \<Rightarrow> int \<times> gpiopulse_prvt_devc" where
  "pulsetime_store kstrtol buf count p =
     (case kstrtol buf of (ret, time) \<Rightarrow>
        if ret \<noteq> 0 then (ret, p)
        else (int count, p\<lparr>plt_data_prv := (plt_data_prv p)\<lparr>pulsetime := to_s32 time\<rparr>\<rparr>))"

definition label_show :: "gpiopulse_prvt_devc \<Rightarrow> string" where
  "label_show p = ''sysfs show : device label '' @ c_string (label_desc (plt_data_prv p)) @ [CHR 0x0A]"

definition gpiopulse_attrs ::
    "(int \<Rightarrow> u64) \<Rightarrow> (string \<Rightarrow> int \<times> int) \<Rightarrow> u64 \<Rightarrow> gpiopulse_prvt_devc device_attribute list" where
  "gpiopulse_attrs msecs_to_jiffies kstrtol jiffies =
     [DEVICE_ATTR_WO ''enablepulse'' (enablepulse_store msecs_to_jiffies kstrtol jiffies),
      DEVICE_ATTR_WO ''pulsetime'' (pulsetime_store kstrtol),
      DEVICE_ATTR_RO ''label'' (\<lambda>p. (int (length (label_show p)), label_show p))]"

text \<open>What happens to a bound device: its timer expires (if it is armed), or an attribute is written.\<close>

datatype pulse_event = Expire u64 | Store_enable string u64 | Store_time string

text \<open>The first component of a step and of a run counts the expiries.\<close>

fun pulse_step ::
    "(int \<Rightarrow> u64) \<Rightarrow> (string \<Rightarrow> int \<times> int) \<Rightarrow> ('h \<Rightarrow> int) \<Rightarrow> (int \<Rightarrow> 'h \<Rightarrow> 'h) \<Rightarrow> pulse_event \<Rightarrow>
      gpiopulse_prvt_devc \<times> 'h \<Rightarrow> nat \<times> gpiopulse_prvt_devc \<times> 'h" where
  "pulse_step m2j kst get put (Expire j) (p, hw) =
     (if pulse_timer p = None then (0, p, hw)
      else (1, pulse_timer_cbk m2j get put j (p\<lparr>pulse_timer := None\<rparr>) hw))"
| "pulse_step m2j kst get put (Store_enable buf j) (p, hw) =
     (0, snd (enablepulse_store m2j kst j buf (length buf) p), hw)"
| "pulse_step m2j kst get put (Store_time buf) (p, hw) =
     (0, snd (pulsetime_store kst buf (length buf) p), hw)"

primrec pulse_run ::
    "(int \<Rightarrow> u64) \<Rightarrow> (string \<Rightarrow> int \<times> int) \<Rightarrow> ('h \<Rightarrow> int) \<Rightarrow> (int \<Rightarrow> 'h \<Rightarrow> 'h) \<Rightarrow> pulse_event list \<Rightarrow>
      gpiopulse_prvt_devc \<times> 'h \<Rightarrow> nat \<times> gpiopulse_prvt_devc \<times> 'h" where
  "pulse_run m2j kst get put [] s = (0, s)"
| "pulse_run m2j kst get put (e # es) s =
     (case pulse_step m2j kst get put e s of (k, s1) \<Rightarrow>
        case pulse_run m2j kst get put es s1 of (n, s2) \<Rightarrow> (k + n, s2))"

section \<open>Probe and removal\<close>

definition parse_dt_arg_dev :: "(pulse_state, int option) state" where
  "parse_dt_arg_dev = do {
     np \<leftarrow> gets of_node;
     if \<not> np then return (Some (- EINVAL))
     else do {
       child \<leftarrow> call (Do ''of_get_next_child'' []);
       gpio \<leftarrow> call (Do ''of_get_gpio'' [child, 0]);
       res \<leftarrow> call (Do ''devm_gpio_request'' [gpio]);
       if res \<noteq> 0 then return (Some (- ENOMEM))
       else do {
         desc \<leftarrow> call (Do ''gpio_to_desc'' [gpio]);
         plt_data \<leftarrow> gets priv_dev;
         if plt_data = None then return None
         else do {
           upd_data (\<lambda>d. d\<lparr>label_desc := overwrite 16 (le_bytes 8 desc) (label_desc d)\<rparr>);
           res \<leftarrow> call (Do ''of_property_read_string'' [child]);
           if res \<noteq> 0 then return (Some (- EINVAL))
           else do {
             label \<leftarrow> gets dt_label;
             plt_data \<leftarrow> gets priv_dev;
             case strcpy label (label_desc (plt_data_prv (the plt_data))) of
               None \<Rightarrow> return None
             | Some bs \<Rightarrow> do {
                 upd_data (\<lambda>d. d\<lparr>label_desc := bs\<rparr>);
                 (res, v) \<leftarrow> call_out (Do ''org,enablepulse'' []);
                 if res \<noteq> 0 then return (Some (- EINVAL))
                 else do {
                   upd_data (\<lambda>d. d\<lparr>enablepulse := to_s32 v\<rparr>);
                   (res, v) \<leftarrow> call_out (Do ''org,pulsetime'' []);
                   if res \<noteq> 0 then return (Some (- EINVAL))
                   else do {
                     upd_data (\<lambda>d. d\<lparr>pulsetime := to_s32 v\<rparr>);
                     return (Some 0)
                   }}}}}}}}"

definition pltdrv_gpiopulse_probe :: "(int \<Rightarrow> u64) \<Rightarrow> (pulse_state, int option) state" where
  "pltdrv_gpiopulse_probe msecs_to_jiffies = do {
     p \<leftarrow> call (Do ''devm_kzalloc'' []);
     if IS_ERR p then return (Some (- ENOMEM))
     else do {
       modify (\<lambda>s. s\<lparr>priv_dev := (if p = 0 then None else Some zeroed_pulse_dev)\<rparr>);
       ret \<leftarrow> parse_dt_arg_dev;
       if ret \<noteq> Some 0 then return ret
       else do {
         device \<leftarrow> call (Get Pulse_device []);
         modify (\<lambda>s. s\<lparr>priv_dev := map_option (\<lambda>p. p\<lparr>pulse_device := device\<rparr>) (priv_dev s)\<rparr>);
         if IS_ERR device then return (Some (PTR_ERR device))
         else do {
           p \<leftarrow> gets priv_dev;
           ret \<leftarrow> call (Do ''gpiod_direction_output'' [desc_of (the p), 1]);
           if ret \<noteq> 0 then return (Some ret)
           else do {
             jiffies \<leftarrow> call (Do ''jiffies'' []);
             modify (\<lambda>s. s\<lparr>priv_dev := map_option (\<lambda>p. p\<lparr>pulse_timer := Some (word_of_int jiffies +
                 msecs_to_jiffies (pulsetime (plt_data_prv p)))\<rparr>) (priv_dev s)\<rparr>);
             modify (\<lambda>s. s\<lparr>pulse_drvdata := True\<rparr>);
             return (Some 0)
           }}}}}"

definition pltdrv_gpiopulse_remove :: "(pulse_state, int) state" where
  "pltdrv_gpiopulse_remove = do {
     modify (\<lambda>s. s\<lparr>priv_dev := map_option (\<lambda>p. p\<lparr>pulse_timer := None\<rparr>) (priv_dev s)\<rparr>);
     call (Put Pulse_device);
     return 0
   }"

definition pltdrv_gpiopulse_init :: "(pulse_state, int) state" where
  "pltdrv_gpiopulse_init = do {
     class \<leftarrow> call (Get Pulse_class []);
     if IS_ERR class then return (PTR_ERR class)
     else do { call (Get Pulse_driver []); return 0 }
   }"

definition pltdrv_gpiopulse_exit :: "(pulse_state, unit) state" where
  "pltdrv_gpiopulse_exit = do {
     call (Put Pulse_driver);
     call (Put Pulse_class);
     return ()
   }"

section \<open>Lemmas\<close>

lemma le_val_overwrite_desc [simp]:
  "length bs = 24 \<Longrightarrow> le_val (drop 16 (overwrite 16 (le_bytes 8 d) bs)) = d mod 256 ^ 8"
  by (simp add: overwrite_def)

text \<open>A label and its terminating zero fit the array of 16 bytes, or the zero falls on \<open>desc\<close>.\<close>

lemma strcpy_label:
  "length l \<le> 16 \<Longrightarrow> length dst = 24 \<Longrightarrow> strcpy l dst = Some (overwrite 0 (map of_char l @ [0]) dst)"
  by (simp add: strcpy_def)

lemma desc_after_label:
  assumes "length l < 16" "length dst = 24"
  shows "drop 16 (overwrite 0 (map of_char l @ [0 :: byte]) dst) = drop 16 dst"
  using assms by (simp add: overwrite_def drop_Cons')

lemma desc_after_full_label:
  assumes "length l = 16" "length dst = 24"
  shows "le_val (drop 16 (overwrite 0 (map of_char l @ [0]) dst)) = 256 * (le_val (drop 16 dst) div 256)"
proof -
  obtain b bs where b: "drop 16 dst = b # bs" using assms by (cases "drop 16 dst") auto
  have "drop 17 dst = drop 1 (drop 16 dst)" by (simp only: drop_drop) simp
  then have "drop 17 dst = bs" by (simp add: b)
  moreover have "uint b < 256" using uint_lt2p [of b] by simp
  ultimately show ?thesis using assms b by (simp add: overwrite_def)
qed

lemma desc_after_strcpy:
  assumes "length l \<le> 16"
  shows "le_val (drop 16 (overwrite 0 (map of_char l @ [0]) (overwrite 16 (le_bytes 8 d) (replicate 24 0)))) =
    (if length l < 16 then d mod 256 ^ 8 else 256 * (d mod 256 ^ 8 div 256))"
proof -
  have "length (overwrite 16 (le_bytes 8 d) (replicate 24 0)) = 24" by simp
  then show ?thesis
    using assms desc_after_label [of l] desc_after_full_label [of l] by (cases "length l < 16") simp_all
qed

lemma char_byte_char [simp]: "char_of (unat (of_char c :: byte)) = c"
proof -
  have "(of_char c :: byte) = of_nat (of_char c)" by (rule of_nat_of_char [symmetric])
  then have "unat (of_char c :: byte) = of_char c"
    by (simp only: unsigned_of_nat) (simp add: take_bit_nat_eq_self_iff)
  then show ?thesis by simp
qed

lemma c_string_strcpy:
  "CHR 0x00 \<notin> set l \<Longrightarrow> c_string (overwrite 0 (map of_char l @ [0]) dst) = l"
proof -
  assume l: "CHR 0x00 \<notin> set l"
  have "of_char c \<noteq> (0 :: byte)" if "c \<in> set l" for c
  proof
    assume "of_char c = (0 :: byte)"
    then have "c = CHR 0x00" using char_byte_char [of c] by (simp add: char_of_def)
    with that l show False by simp
  qed
  then have "takeWhile (\<lambda>b. b \<noteq> 0) (map of_char l @ 0 # xs) = (map of_char l :: byte list)" for xs
    by (induction l) auto
  then show ?thesis by (simp add: c_string_def overwrite_def comp_def)
qed

section \<open>The attributes and the types of the data\<close>

definition pulse_typed :: "gpiopulse_prvt_devc \<Rightarrow> bool" where
  "pulse_typed p \<longleftrightarrow> c_int (enablepulse (plt_data_prv p)) \<and> c_int (pulsetime (plt_data_prv p)) \<and>
     length (label_desc (plt_data_prv p)) = 24"

lemma length_c_string: "length (c_string bs) \<le> length bs"
  by (simp add: c_string_def length_takeWhile_le)

interpretation pulse_grp: attribute_group "gpiopulse_attrs m2j kstrtol jiffies" pulse_typed for m2j kstrtol jiffies
proof
  fix a :: "gpiopulse_prvt_devc device_attribute" and sh d
  assume "a \<in> set (gpiopulse_attrs m2j kstrtol jiffies)" "attr_show a = Some sh" "pulse_typed d"
  then show "shows_page (sh d)"
    using length_c_string [of "label_desc (plt_data_prv d)"]
    by (auto simp: gpiopulse_attrs_def device_attr_defs shows_page_def label_show_def PAGE_SIZE_def pulse_typed_def)
next
  fix a :: "gpiopulse_prvt_devc device_attribute" and st d buf n
  assume "a \<in> set (gpiopulse_attrs m2j kstrtol jiffies)" "attr_store a = Some st" "pulse_typed d"
  then show "pulse_typed (snd (st buf n d))"
    by (auto simp: gpiopulse_attrs_def device_attr_defs pulse_typed_def enablepulse_store_def pulsetime_store_def Let_def
        split: prod.splits)
qed (auto simp: gpiopulse_attrs_def, simp_all add: device_attr_defs)

lemma pulse_step_typed:
  "pulse_typed p \<Longrightarrow> pulse_step m2j kst get put e (p, hw) = (n, q, hw') \<Longrightarrow> pulse_typed q"
  by (cases e) (auto simp: pulse_typed_def pulse_timer_cbk_def enablepulse_store_def pulsetime_store_def Let_def
      split: if_splits prod.splits)

lemma pulse_run_typed:
  "pulse_typed p \<Longrightarrow> pulse_run m2j kst get put es (p, hw) = (n, q, hw') \<Longrightarrow> pulse_typed q"
proof (induction es arbitrary: p hw n)
  case (Cons e es)
  obtain m p1 hw1 where 1: "pulse_step m2j kst get put e (p, hw) = (m, p1, hw1)" using prod_cases3 by blast
  with Cons.prems(2) obtain n1 where "pulse_run m2j kst get put es (p1, hw1) = (n1, q, hw')"
    by (auto split: prod.splits)
  with Cons.IH pulse_step_typed [OF Cons.prems(1) 1] show ?case by blast
qed simp

section \<open>Runs of a bound device\<close>

lemma pulse_step_parity:
  assumes "\<And>v h. get (put v h) = v" and "get hw = (if even k then 1 else 0)"
    and "pulse_step m2j kst get put e (p, hw) = (n, q, hw')"
  shows "get hw' = (if even (k + n) then 1 else 0)"
  using assms by (cases e) (auto simp: pulse_timer_cbk_def Let_def split: if_splits)

text \<open>While pulses are enabled the timer is armed.\<close>

definition armed_ok :: "gpiopulse_prvt_devc \<Rightarrow> bool" where
  "armed_ok p \<longleftrightarrow> (enablepulse (plt_data_prv p) \<noteq> 0 \<longrightarrow> pulse_timer p \<noteq> None)"

lemma pulse_step_armed:
  "armed_ok p \<Longrightarrow> pulse_step m2j kst get put e (p, hw) = (n, q, hw') \<Longrightarrow> armed_ok q"
  by (cases e) (auto simp: armed_ok_def pulse_timer_cbk_def enablepulse_store_def pulsetime_store_def to_s32_def
      Let_def split: if_splits prod.splits)

lemma pulse_run_keeps:
  assumes "\<And>v h. get (put v h) = v"
  shows "armed_ok p \<Longrightarrow> get hw = (if even k then 1 else 0) \<Longrightarrow>
    pulse_run m2j kst get put es (p, hw) = (n, q, hw') \<Longrightarrow>
    armed_ok q \<and> get hw' = (if even (k + n) then 1 else 0)"
proof (induction es arbitrary: p hw k n)
  case Nil
  then show ?case by simp
next
  case (Cons e es)
  obtain m p1 hw1 where 1: "pulse_step m2j kst get put e (p, hw) = (m, p1, hw1)" using prod_cases3 by blast
  obtain n1 where 2: "pulse_run m2j kst get put es (p1, hw1) = (n1, q, hw')" "n = m + n1"
    using Cons.prems(3) 1 by (auto split: prod.splits)
  show ?case
    using Cons.IH [OF pulse_step_armed [OF Cons.prems(1) 1] pulse_step_parity [OF assms Cons.prems(2) 1] 2(1)] 2(2)
    by (simp add: add.assoc)
qed

text \<open>Once they are disabled it expires at most once more.\<close>

fun is_enable :: "pulse_event \<Rightarrow> bool" where
  "is_enable (Store_enable buf j) = True"
| "is_enable e = False"

definition left :: "gpiopulse_prvt_devc \<Rightarrow> nat" where
  "left p = (if pulse_timer p = None then 0 else 1)"

lemma pulse_step_disabled:
  "enablepulse (plt_data_prv p) = 0 \<Longrightarrow> \<not> is_enable e \<Longrightarrow>
     pulse_step m2j kst get put e (p, hw) = (n, q, hw') \<Longrightarrow> n + left q = left p \<and> enablepulse (plt_data_prv q) = 0"
  by (cases e) (auto simp: left_def pulse_timer_cbk_def pulsetime_store_def Let_def split: if_splits prod.splits)

lemma pulse_run_disabled:
  "enablepulse (plt_data_prv p) = 0 \<Longrightarrow> \<not> list_ex is_enable es \<Longrightarrow>
     pulse_run m2j kst get put es (p, hw) = (n, r) \<Longrightarrow> n \<le> left p"
proof (induction es arbitrary: p hw n)
  case Nil
  then show ?case by simp
next
  case (Cons e es)
  obtain m p1 hw1 where 1: "pulse_step m2j kst get put e (p, hw) = (m, p1, hw1)" using prod_cases3 by blast
  obtain n1 where 2: "pulse_run m2j kst get put es (p1, hw1) = (n1, r)" "n = m + n1"
    using Cons.prems(3) 1 by (auto split: prod.splits)
  have e: "\<not> is_enable e" "\<not> list_ex is_enable es" using Cons.prems(2) by auto
  show ?case
    using pulse_step_disabled [OF Cons.prems(1) e(1) 1] Cons.IH [OF _ e(2) 2(1)] 2(2) by simp
qed

section \<open>Properties\<close>

text \<open>
  C10. Whatever is written to its attributes, a probed pulse device toggles its line at every expiry of its timer:
  starting from 1 the line is 1 after an even number of expiries and 0 after an odd number. As
  long as \<open>enablepulse\<close> is not 0 the timer is armed, so the pulses go on; when it is 0 the timer
  expires at most once more, whatever else is written except to \<open>enablepulse\<close>.
\<close>

theorem pulse_device_toggles:
  assumes "\<And>v h. get (put v h) = v" and "get hw = 1" and "pulse_timer p \<noteq> None"
    and "pulse_run m2j kst get put es (p, hw) = (n, q, hw')"
  shows "get hw' = (if even n then 1 else 0) \<and>
    (enablepulse (plt_data_prv q) \<noteq> 0 \<longrightarrow> pulse_timer q \<noteq> None) \<and>
    (enablepulse (plt_data_prv q) = 0 \<and> \<not> list_ex is_enable es' \<longrightarrow>
      fst (pulse_run m2j kst get put es' (q, hw')) \<le> 1)"
proof -
  have "armed_ok p" using assms(3) by (simp add: armed_ok_def)
  then have "armed_ok q \<and> get hw' = (if even n then 1 else 0)"
    using pulse_run_keeps [OF assms(1) _ _ assms(4), of 0] assms(2) by simp
  moreover have "left q \<le> 1" by (simp add: left_def)
  moreover have "fst (pulse_run m2j kst get put es' (q, hw')) \<le> left q"
    if "enablepulse (plt_data_prv q) = 0" "\<not> list_ex is_enable es'"
    using pulse_run_disabled [OF that, of m2j kst get put hw'] by (cases "pulse_run m2j kst get put es' (q, hw')") simp
  ultimately show ?thesis by (auto simp: armed_ok_def)
qed

definition pulse_example :: gpiopulse_prvt_devc where
  "pulse_example = \<lparr>pulse_device = 1, pulse_timer = Some 10,
     plt_data_prv = \<lparr>enablepulse = 1, pulsetime = 20, label_desc = replicate 24 0\<rparr>\<rparr>"

theorem pulse_device_toggles_witness:
  "snd (snd (pulse_run of_int (\<lambda>s. (0, 0)) (\<lambda>h. h) (\<lambda>v h. v)
     [Expire 10, Expire 30, Store_enable ''0'' 35, Expire 50] (pulse_example, 1))) = (0 :: int)"
  using pulse_device_toggles [of "\<lambda>h. h" "\<lambda>v h. v" "1 :: int" pulse_example of_int "\<lambda>s. (0, 0)"
      "[Expire 10, Expire 30, Store_enable ''0'' 35, Expire 50]"]
  by (simp add: pulse_example_def pulse_timer_cbk_def enablepulse_store_def to_s32_def Let_def)

lemmas pulse_probe_defs = pltdrv_gpiopulse_probe_def parse_dt_arg_dev_def upd_data_def zeroed_pulse_dev_def


definition pulse_world :: "string \<Rightarrow> pulse_state" where
  "pulse_world label = \<lparr>kres = (\<lambda>n c. if n = 0 \<or> c = Get Pulse_device [] then 4096
       else if c = Do ''gpio_to_desc'' [0] then 1027 else 0), kout = (\<lambda>n c. 1), ktrace = [],
     of_node = True, dt_label = label, priv_dev = None, pulse_drvdata = False\<rparr>"




end
