(* ===== verification/Ds1307.thy ===== *)
theory Ds1307
  imports Kernel_World
begin

text \<open>
  The real-time clock driver of \<open>15.ds1307_smbus_drv/ds1307_rtc.c\<close>. The bus with the chip behind it is a state
  with two operations, and the conversions \<open>bin2bcd\<close> and \<open>bcd2bin\<close> of the kernel are functions between
  32-bit numbers and bytes; all four are parameters. A read delivers a negative error number or a byte; the driver keeps the
  low eight bits of either in the global \<open>rtc_info\<close>.
\<close>

section \<open>Registers and time\<close>

abbreviation (input) REG_OFFSET_SECS :: nat where "REG_OFFSET_SECS \<equiv> 0"
abbreviation (input) REG_OFFSET_MINS :: nat where "REG_OFFSET_MINS \<equiv> Suc 0"
abbreviation (input) REG_OFFSET_HOURS :: nat where "REG_OFFSET_HOURS \<equiv> 2"
abbreviation (input) REG_OFFSET_DAY :: nat where "REG_OFFSET_DAY \<equiv> 3"
abbreviation (input) REG_OFFSET_DATE :: nat where "REG_OFFSET_DATE \<equiv> 4"
abbreviation (input) REG_OFFSET_MONTH :: nat where "REG_OFFSET_MONTH \<equiv> 5"
abbreviation (input) REG_OFFSET_YEAR :: nat where "REG_OFFSET_YEAR \<equiv> 6"

definition ds1307_regs :: "nat list" where
  "ds1307_regs = [REG_OFFSET_SECS, REG_OFFSET_MINS, REG_OFFSET_HOURS, REG_OFFSET_DAY, REG_OFFSET_DATE,
     REG_OFFSET_MONTH, REG_OFFSET_YEAR]"

definition rtc_info_init :: "u8 list" where
  "rtc_info_init = [1, 1, 1, 1, 1, 1, 71]"

record rtc_time =
  tm_sec :: int
  tm_min :: int
  tm_hour :: int
  tm_mday :: int
  tm_mon :: int
  tm_year :: int
  tm_wday :: int

fun read_regs :: "(nat \<Rightarrow> 'h \<Rightarrow> int \<times> 'h) \<Rightarrow> nat list \<Rightarrow> u8 list \<times> 'h \<Rightarrow> u8 list \<times> 'h" where
  "read_regs rd [] s = s"
| "read_regs rd (r # rs) (info, h) =
     (case rd r h of (v, h') \<Rightarrow> read_regs rd rs (info[r := word_of_int v], h'))"

fun write_regs :: "(nat \<Rightarrow> u8 \<Rightarrow> 'h \<Rightarrow> int \<times> 'h) \<Rightarrow> nat list \<Rightarrow> u8 list \<Rightarrow> 'h \<Rightarrow> 'h" where
  "write_regs wr [] info h = h"
| "write_regs wr (r # rs) info h = (case wr r (info ! r) h of (v, h') \<Rightarrow> write_regs wr rs info h')"

text \<open>Both conversions work on \<open>unsigned\<close> numbers; assigning the result to an \<open>int\<close> reads it as signed.\<close>

definition ds1307_get_time ::
    "(u8 \<Rightarrow> u32) \<Rightarrow> (nat \<Rightarrow> 'h \<Rightarrow> int \<times> 'h) \<Rightarrow> u8 list \<times> 'h \<Rightarrow> int \<times> rtc_time \<times> u8 list \<times> 'h" where
  "ds1307_get_time bcd2bin rd s =
     (case read_regs rd ds1307_regs s of (rtc_info, h) \<Rightarrow>
        (0, \<lparr>tm_sec = sint (bcd2bin (rtc_info ! REG_OFFSET_SECS AND 0x7f)),
             tm_min = sint (bcd2bin (rtc_info ! REG_OFFSET_MINS AND 0x7f)),
             tm_hour = sint (bcd2bin (rtc_info ! REG_OFFSET_HOURS AND 0x3f)),
             tm_mday = sint (bcd2bin (rtc_info ! REG_OFFSET_DATE AND 0x3f)),
             tm_mon = sint (bcd2bin (rtc_info ! REG_OFFSET_MONTH AND 0x1f) - 1),
             tm_year = sint (bcd2bin (rtc_info ! REG_OFFSET_YEAR) + 100),
             tm_wday = sint (bcd2bin (rtc_info ! REG_OFFSET_DAY AND 0x07) - 1)\<rparr>, rtc_info, h))"

definition ds1307_set_time ::
    "(u32 \<Rightarrow> u8) \<Rightarrow> (nat \<Rightarrow> u8 \<Rightarrow> 'h \<Rightarrow> int \<times> 'h) \<Rightarrow> rtc_time \<Rightarrow> u8 list \<times> 'h \<Rightarrow> int \<times> u8 list \<times> 'h" where
  "ds1307_set_time bin2bcd wr t s =
     (case s of (info, h) \<Rightarrow>
        let rtc_info = info[
              REG_OFFSET_SECS := bin2bcd (word_of_int (tm_sec t)),
              REG_OFFSET_MINS := bin2bcd (word_of_int (tm_min t)),
              REG_OFFSET_HOURS := bin2bcd (word_of_int (tm_hour t)),
              REG_OFFSET_DAY := bin2bcd (word_of_int (tm_wday t + 1)),
              REG_OFFSET_DATE := bin2bcd (word_of_int (tm_mday t)),
              REG_OFFSET_MONTH := bin2bcd (word_of_int (tm_mon t + 1)),
              REG_OFFSET_YEAR := bin2bcd (word_of_int (tm_year t - 100))]
        in (0, rtc_info, write_regs wr ds1307_regs rtc_info h))"

section \<open>Probe\<close>

text \<open>All resources are managed by the driver core (\<open>devm\<close>), so the probe has nothing to undo.\<close>

record ds1307_state = "unit kworld" +
  ds1307_drvdata :: bool
  ds1307_ops :: bool

definition ds1307_probe :: "(ds1307_state, int) state" where
  "ds1307_probe = do {
     priv_dev \<leftarrow> call (Do ''devm_kzalloc'' []);
     if priv_dev = 0 then return (- ENOMEM)
     else do {
       rtc \<leftarrow> call (Do ''devm_rtc_allocate_device'' []);
       if IS_ERR rtc then return (PTR_ERR rtc)
       else do {
         modify (\<lambda>s. s\<lparr>ds1307_ops := True\<rparr>);
         modify (\<lambda>s. s\<lparr>ds1307_drvdata := True\<rparr>);
         err \<leftarrow> call (Do ''devm_rtc_register_device'' [rtc]);
         if err \<noteq> 0 then return err else return 0
       }}}"

section \<open>Lemmas\<close>

text \<open>The times the chip can hold: a date between 2000 and 2099.\<close>

definition rtc_valid :: "rtc_time \<Rightarrow> bool" where
  "rtc_valid t \<longleftrightarrow> 0 \<le> tm_sec t \<and> tm_sec t < 60 \<and> 0 \<le> tm_min t \<and> tm_min t < 60 \<and>
     0 \<le> tm_hour t \<and> tm_hour t < 24 \<and> 1 \<le> tm_mday t \<and> tm_mday t \<le> 31 \<and> 0 \<le> tm_mon t \<and> tm_mon t < 12 \<and>
     100 \<le> tm_year t \<and> tm_year t < 200 \<and> 0 \<le> tm_wday t \<and> tm_wday t < 7"

definition packed :: "nat \<Rightarrow> u8" where
  "packed n = of_nat (n div 10 * 16 + n mod 10)"

text \<open>A mask of \<open>k\<close> low bits does not touch the packed form of a number below its limit.\<close>

lemma packed_mask:
  assumes "n div 10 * 16 + n mod 10 < 2 ^ k" "k \<le> 8"
  shows "packed n AND mask k = packed n"
proof -
  have "(2 :: nat) ^ k \<le> 2 ^ 8" using assms(2) by (intro power_increasing) auto
  with assms(1) have "unat (packed n) < 2 ^ k"
    by (simp add: packed_def unsigned_of_nat take_bit_nat_eq_self_iff [THEN iffD2] del: of_nat_add of_nat_mult)
  then have "unat (take_bit k (packed n)) = unat (packed n)"
    by (simp add: unsigned_take_bit_eq take_bit_nat_eq_self_iff)
  then show ?thesis by (simp add: take_bit_eq_mask [symmetric] unsigned_word_eqI)
qed

lemma mask_values: "(0x7f :: u8) = mask 7" "(0x3f :: u8) = mask 6" "(0x1f :: u8) = mask 5" "(0x07 :: u8) = mask 3"
  by (simp_all add: mask_eq_exp_minus_1)

lemma packed_bound: "n < 10 * c \<Longrightarrow> n div 10 * 16 + n mod 10 < 16 * c" for n :: nat
proof -
  have *: "q * 16 + r < 16 * c" if "q < c" "r < 10" for q r :: nat
    using that by linarith
  assume "n < 10 * c"
  then have "n div 10 < c" by (simp add: div_less_iff_less_mult mult.commute)
  then show ?thesis by (rule *) simp
qed

lemma packed_masks:
  "n < 80 \<Longrightarrow> packed n AND 0x7f = packed n" "n < 40 \<Longrightarrow> packed n AND 0x3f = packed n"
  "n < 20 \<Longrightarrow> packed n AND 0x1f = packed n" "n < 8 \<Longrightarrow> packed n AND 0x07 = packed n"
  unfolding mask_values
  using packed_bound [of n 8] packed_bound [of n 4] packed_bound [of n 2] by (simp_all add: packed_mask)

lemma read_write_regs:
  assumes "\<And>r h. fst (rd r h) = uint (regs h r) \<and> regs (snd (rd r h)) = regs h"
    and "\<And>r v h. regs (snd (wr r v h)) = (regs h)(r := v)" and "length info = 7"
  shows "fst (read_regs rd ds1307_regs (info, write_regs wr ds1307_regs info h)) = info"
proof -
  obtain a b c d e f g where info: "info = [a, b, c, d, e, f, g]"
    using assms(3) by (auto simp: length_Suc_conv numeral_eq_Suc)
  show ?thesis
    by (simp add: ds1307_regs_def info assms case_prod_unfold)
qed

text \<open>A field of the time survives the conversion, an offset of one or of a hundred included.\<close>

lemma word_of_field: "0 \<le> x \<Longrightarrow> (word_of_int x :: u32) = of_nat (nat x)"
  by simp

lemma sint_field: "n < 2 ^ 31 \<Longrightarrow> sint (of_nat n :: u32) = int n"
  by (simp add: signed_of_nat signed_take_bit_int_eq_self)

section \<open>Property\<close>

text \<open>
  C11. With a chip that stores what is written and delivers what it stores, a time between 2000 and 2099 that is set is read
  back unchanged, field by field, as long as the clock does not tick in between. Both operations return 0
  whatever the bus does, so that a failed transfer is never reported: the low eight bits of the negative error
  number are decoded as if the chip had sent them.
\<close>

theorem ds1307_time_roundtrip:
  fixes regs :: "'h \<Rightarrow> nat \<Rightarrow> u8"
  assumes "\<And>n. n < 100 \<Longrightarrow> bin2bcd (of_nat n) = packed n" "\<And>n. n < 100 \<Longrightarrow> bcd2bin (packed n) = of_nat n"
    and "\<And>r h. fst (rd r h) = uint (regs h r) \<and> regs (snd (rd r h)) = regs h"
    and "\<And>r v h. regs (snd (wr r v h)) = (regs h)(r := v)"
    and "length info = 7" and "rtc_valid t"
  shows "fst (snd (ds1307_get_time bcd2bin rd (snd (ds1307_set_time bin2bcd wr t (info, h))))) = t \<and>
    (\<forall>wr' h'. fst (ds1307_set_time bin2bcd wr' t (info, h' :: 'g)) = 0) \<and>
    (\<forall>rd' h'. fst (ds1307_get_time bcd2bin rd' (info, h' :: 'g)) = 0)"
proof -
  have field: "bin2bcd (word_of_int x) = packed (nat x)" if "0 \<le> x" "x < 100" for x
    using assms(1) [of "nat x"] that by simp
  have unpack: "bcd2bin (packed (nat x)) = word_of_int x" if "0 \<le> x" "x < 100" for x
    using assms(2) [of "nat x"] that by simp
  have small: "sint (word_of_int x :: u32) = x" if "0 \<le> x" "x < 1000" for x
    using that by (simp add: sint_sbintrunc' signed_take_bit_int_eq_self)
  have field1: "bin2bcd (word_of_int x + 1) = packed (nat (x + 1))" if "0 \<le> x" "x < 99" for x
    using field [of "x + 1"] that by simp
  have field100: "bin2bcd (word_of_int x - 100) = packed (nat (x - 100))" if "100 \<le> x" "x < 200" for x
    using field [of "x - 100"] that by simp
  note v = assms(6) [unfolded rtc_valid_def]
  have "length (fst (snd (ds1307_set_time bin2bcd wr t (info, h)))) = 7"
    using assms(5) by (simp add: ds1307_set_time_def Let_def)
  note r = read_write_regs [OF assms(3,4) this]
  show ?thesis
    using v r assms(5)
    by (auto simp: ds1307_get_time_def ds1307_set_time_def Let_def field field1 field100 unpack small packed_masks
        case_prod_unfold)
qed

text \<open>A concrete chip: a function from registers to bytes, with the conversions by tens and units.\<close>

theorem ds1307_time_roundtrip_witness:
  "let t = \<lparr>tm_sec = 59, tm_min = 8, tm_hour = 23, tm_mday = 31, tm_mon = 11, tm_year = 124, tm_wday = 2\<rparr>;
       bcd2bin = (\<lambda>b :: u8. of_nat (unat b div 16 * 10 + unat b mod 16));
       rd = (\<lambda>r (h :: nat \<Rightarrow> u8). (uint (h r), h))
   in fst (snd (ds1307_get_time bcd2bin rd
        (snd (ds1307_set_time (\<lambda>x. packed (unat x)) (\<lambda>r v h. (0, h(r := v))) t (rtc_info_init, \<lambda>r. 0))))) = t"
proof -
  have 1: "packed (unat (of_nat n :: u32)) = packed n" if "n < 100" for n
    using that by (simp add: unsigned_of_nat take_bit_nat_eq_self_iff [THEN iffD2])
  have 2: "of_nat (unat (packed n) div 16 * 10 + unat (packed n) mod 16) = (of_nat n :: u32)" if "n < 100" for n
  proof -
    have "n div 10 * 16 + n mod 10 < 2 ^ 8" using packed_bound [of n 10] that by simp
    then have "unat (packed n) = n div 10 * 16 + n mod 10"
      by (simp add: packed_def unsigned_of_nat take_bit_nat_eq_self_iff [THEN iffD2] del: of_nat_add of_nat_mult)
    moreover have "n mod 10 < 16" by (rule less_trans [OF mod_less_divisor]) simp_all
    ultimately have "unat (packed n) div 16 * 10 + unat (packed n) mod 16 = n" by simp
    then show ?thesis by (simp only:)
  qed
  note trip = ds1307_time_roundtrip [where regs = "\<lambda>h. h" and wr = "\<lambda>r v h. (0, h(r := v))"
      and rd = "\<lambda>r h. (uint (h r), h)" and info = rtc_info_init, OF 1 2]
  show ?thesis
    unfolding Let_def by (rule trip [THEN conjunct1]) (simp_all add: rtc_valid_def rtc_info_init_def)
qed

end
