(* ===== verification/Virt_Tty.thy ===== *)
theory Virt_Tty
  imports Kernel_World
begin

text \<open>
  The virtual terminal of \<open>16.virt_tty/virt_tty.c\<close>. The operations under the device's mutex are one step each; the
  timer callback, which takes no lock, is two steps: it delivers its text, and later re-arms the timer. The flag
  \<open>vt_fault\<close> is set when the driver uses a timer it never set up, or the device after it was freed. The loading
  and unloading of the module are judged against the resource ledger.
\<close>

section \<open>State and operations\<close>

record virt_tty_dev =
  tty :: "nat option"
  open_count :: int
  timer_set_up :: bool
  timer_armed :: bool
  cbk_running :: bool

record vtty =
  virt_tty_prv :: virt_tty_dev
  prv_freed :: bool
  driver_data :: "nat \<Rightarrow> bool"
  flip_buffer :: string
  hw_log :: "byte list"
  vt_fault :: bool

definition ROOM_SIZE :: nat where "ROOM_SIZE = 255"

definition hello :: string where "hello = ''Hello ttyvirt driver, '' @ [CHR 0x00]"

abbreviation upd_prv :: "(virt_tty_dev \<Rightarrow> virt_tty_dev) \<Rightarrow> vtty \<Rightarrow> vtty" where
  "upd_prv f s \<equiv> s\<lparr>virt_tty_prv := f (virt_tty_prv s)\<rparr>"

text \<open>The callback up to \<open>mod_timer\<close>, and \<open>mod_timer\<close>.\<close>

definition timer_cbk_deliver :: "vtty \<Rightarrow> vtty" where
  "timer_cbk_deliver s =
     (upd_prv (\<lambda>d. d\<lparr>timer_armed := False, cbk_running := True\<rparr>) s)
       \<lparr>flip_buffer := flip_buffer s @ hello, vt_fault := (vt_fault s \<or> prv_freed s)\<rparr>"

definition timer_cbk_rearm :: "vtty \<Rightarrow> vtty" where
  "timer_cbk_rearm s =
     (upd_prv (\<lambda>d. d\<lparr>timer_armed := True, cbk_running := False\<rparr>) s)
       \<lparr>vt_fault := (vt_fault s \<or> prv_freed s)\<rparr>"

definition virttty_open :: "nat \<Rightarrow> vtty \<Rightarrow> int \<times> vtty" where
  "virttty_open t s =
     (let s1 = s\<lparr>driver_data := (driver_data s)(t := True)\<rparr>;
          s2 = upd_prv (\<lambda>d. d\<lparr>tty := Some t, open_count := open_count d + 1\<rparr>) s1;
          s3 = (if open_count (virt_tty_prv s2) = 1
                then upd_prv (\<lambda>d. d\<lparr>timer_set_up := True, timer_armed := True\<rparr>) s2 else s2)
      in (0, s3))"

definition do_close :: "virt_tty_dev \<Rightarrow> virt_tty_dev" where
  "do_close dev =
     (if open_count dev = 0 then dev
      else
        let dev1 = dev\<lparr>open_count := open_count dev - 1\<rparr>
        in if open_count dev1 \<le> 0 then dev1\<lparr>timer_armed := False\<rparr> else dev1)"

definition virttty_close :: "nat \<Rightarrow> vtty \<Rightarrow> vtty" where
  "virttty_close t s = (if driver_data s t then upd_prv do_close s else s)"

definition virttty_write :: "nat \<Rightarrow> byte list \<Rightarrow> vtty \<Rightarrow> int \<times> vtty" where
  "virttty_write t buffer s =
     (if \<not> driver_data s t then (- ENODEV, s)
      else if open_count (virt_tty_prv s) = 0 then (int (length buffer), s)
      else (int (length buffer), s\<lparr>hw_log := hw_log s @ buffer\<rparr>))"

definition virttty_write_room :: nat where
  "virttty_write_room = ROOM_SIZE"

definition virttty_tiocmget :: int where "virttty_tiocmget = 0"

definition virttty_tiocmset :: "u32 \<Rightarrow> u32 \<Rightarrow> int" where
  "virttty_tiocmset set_bits clear_bits = 0"

text \<open>The loop of the exit function; \<open>None\<close> if it does not end.\<close>

partial_function (option) virttty_close_all :: "virt_tty_dev \<Rightarrow> virt_tty_dev option" where
  "virttty_close_all dev =
     (if open_count dev \<noteq> 0 then virttty_close_all (do_close dev) else Some dev)"

definition virttty_exit_device :: "vtty \<Rightarrow> vtty option" where
  "virttty_exit_device s = (case virttty_close_all (virt_tty_prv s) of
       None \<Rightarrow> None
     | Some dev \<Rightarrow> Some (s\<lparr>virt_tty_prv := dev\<lparr>timer_armed := False\<rparr>, prv_freed := True,
         vt_fault := (vt_fault s \<or> \<not> timer_set_up dev)\<rparr>))"

text \<open>What \<open>virttty_init\<close> leaves in the device: \<open>kmalloc\<close>ed, with the mutex and the count set.\<close>

definition vtty_fresh :: vtty where
  "vtty_fresh = \<lparr>virt_tty_prv = \<lparr>tty = None, open_count = 0, timer_set_up = False, timer_armed = False,
       cbk_running = False\<rparr>, prv_freed = False, driver_data = (\<lambda>t. False), flip_buffer = [], hw_log = [],
     vt_fault = False\<rparr>"

section \<open>Steps\<close>

datatype vt_call = Op_open nat | Op_close nat | Op_write nat "byte list"

fun vt_op :: "vt_call \<Rightarrow> vtty \<Rightarrow> vtty" where
  "vt_op (Op_open t) s = snd (virttty_open t s)"
| "vt_op (Op_close t) s = virttty_close t s"
| "vt_op (Op_write t bs) s = snd (virttty_write t bs s)"

text \<open>
  A terminal is closed as often as it was opened. The module cannot be unloaded while a file is open. A
  callback in progress ends at any later time.
\<close>

inductive vt_step :: "vtty \<Rightarrow> vtty \<Rightarrow> bool" where
  Open: "\<not> prv_freed s \<Longrightarrow> vt_step s (vt_op (Op_open t) s)"
| Close: "\<not> prv_freed s \<Longrightarrow> 0 < open_count (virt_tty_prv s) \<Longrightarrow> vt_step s (vt_op (Op_close t) s)"
| Write: "\<not> prv_freed s \<Longrightarrow> 0 < open_count (virt_tty_prv s) \<Longrightarrow> vt_step s (vt_op (Op_write t bs) s)"
| Expire: "timer_armed (virt_tty_prv s) \<Longrightarrow> \<not> cbk_running (virt_tty_prv s) \<Longrightarrow> vt_step s (timer_cbk_deliver s)"
| Rearm: "cbk_running (virt_tty_prv s) \<Longrightarrow> vt_step s (timer_cbk_rearm s)"
| Exit: "\<not> prv_freed s \<Longrightarrow> open_count (virt_tty_prv s) = 0 \<Longrightarrow> virttty_exit_device s = Some s' \<Longrightarrow> vt_step s s'"

inductive vt_reach :: "vtty \<Rightarrow> bool" where
  Start: "vt_reach vtty_fresh"
| Step: "vt_reach s \<Longrightarrow> vt_step s s' \<Longrightarrow> vt_reach s'"

text \<open>Runs in which a callback is never interrupted by another operation.\<close>

datatype vt_event = Ev vt_call | Ev_timer

fun vt_run :: "vt_event list \<Rightarrow> vtty \<Rightarrow> vtty" where
  "vt_run [] s = s"
| "vt_run (Ev p # es) s = vt_run es (vt_op p s)"
| "vt_run (Ev_timer # es) s =
     vt_run es (if timer_armed (virt_tty_prv s) then timer_cbk_rearm (timer_cbk_deliver s) else s)"

section \<open>Loading and unloading\<close>

datatype tty_res = Tty_driver | Tty_port | Tty_registered | Tty_device | Tty_prv

fun tty_won :: "tty_res \<Rightarrow> int \<Rightarrow> bool" where
  "tty_won Tty_driver v = (\<not> IS_ERR v)"
| "tty_won Tty_prv v = (v \<noteq> 0)"
| "tty_won Tty_registered v = (v = 0)"
| "tty_won Tty_port v = True"
| "tty_won Tty_device v = (\<not> IS_ERR v)"

definition tty_conv :: "tty_res convention" where
  "tty_conv = \<lparr>won = tty_won, lax = (\<lambda>r. False)\<rparr>"

lemma tty_conv_simps [simp]: "won tty_conv = tty_won" "lax tty_conv = (\<lambda>r. False)"
  by (simp_all add: tty_conv_def)

record tty_state = "tty_res kworld" +
  vtty_prv :: bool

text \<open>
  A result \<open>None\<close> is a fault: \<open>tty_alloc_driver\<close> reports failure by an error pointer, which the
  function takes for a driver and writes through.
\<close>

definition err_tty_and_prt :: "int \<Rightarrow> (tty_state, int option) state" where
  "err_tty_and_prt ret = do {
     call (Put Tty_port);
     call (Put Tty_registered);
     return (Some ret)
   }"

definition unreg_dev :: "int \<Rightarrow> (tty_state, int option) state" where
  "unreg_dev ret = do { call (Put Tty_device); err_tty_and_prt ret }"

definition virttty_init :: "(tty_state, int option) state" where
  "virttty_init = do {
     drv \<leftarrow> call (Get Tty_driver [1, 0]);
     if drv = 0 then return (Some (- ENOMEM))
     else if IS_ERR drv then return None
     else do {
       call (Do ''tty_set_operations'' []);
       call (Get Tty_port []);
       call (Do ''tty_port_link_device'' [0]);
       ret \<leftarrow> call (Get Tty_registered []);
       if ret \<noteq> 0 then err_tty_and_prt ret
       else do {
         call (Get Tty_device [0]);
         p \<leftarrow> call (Get Tty_prv []);
         modify (\<lambda>s. s\<lparr>vtty_prv := (p \<noteq> 0)\<rparr>);
         if p = 0 then unreg_dev (- ENOMEM)
         else return (Some 0)
       }}}"

definition virttty_exit :: "(tty_state, unit) state" where
  "virttty_exit = do {
     call (Put Tty_device);
     call (Put Tty_port);
     call (Put Tty_registered);
     p \<leftarrow> gets vtty_prv;
     if p then do {
       call (Put Tty_prv);
       modify (\<lambda>s. s\<lparr>vtty_prv := False\<rparr>)
     } else return ()
   }"

section \<open>The exit loop ends\<close>

lemma virttty_close_all_total:
  "0 \<le> open_count dev \<Longrightarrow> virttty_close_all dev =
     Some (if open_count dev = 0 then dev else dev\<lparr>open_count := 0, timer_armed := False\<rparr>)"
proof (induction "nat (open_count dev)" arbitrary: dev)
  case 0
  then show ?case by (simp add: virttty_close_all.simps)
next
  case (Suc n)
  have "n = nat (open_count (do_close dev))" "0 \<le> open_count (do_close dev)"
    using Suc.hyps(2) Suc.prems by (auto simp: do_close_def Let_def)
  from Suc.hyps(1) [OF this] show ?case
    using Suc.hyps(2) by (subst virttty_close_all.simps) (auto simp: do_close_def Let_def)
qed

section \<open>Runs and steps\<close>

text \<open>The state between two operations when no callback is in progress.\<close>

definition vt_quiet :: "bool \<Rightarrow> vtty \<Rightarrow> bool" where
  "vt_quiet opened s \<longleftrightarrow> 0 \<le> open_count (virt_tty_prv s) \<and> \<not> cbk_running (virt_tty_prv s) \<and>
     timer_armed (virt_tty_prv s) = (0 < open_count (virt_tty_prv s)) \<and> timer_set_up (virt_tty_prv s) = opened \<and>
     \<not> prv_freed s \<and> \<not> vt_fault s"

fun is_open :: "vt_event \<Rightarrow> bool" where
  "is_open (Ev (Op_open t)) = True"
| "is_open e = False"

lemma vt_op_quiet:
  "vt_quiet opened s \<Longrightarrow> (opened \<or> open_count (virt_tty_prv s) = 0) \<Longrightarrow>
     vt_quiet (opened \<or> is_open (Ev p)) (vt_op p s)"
  by (cases p) (auto simp: vt_quiet_def virttty_open_def virttty_close_def virttty_write_def do_close_def Let_def)

lemma vt_op_count:
  "(opened \<or> open_count (virt_tty_prv s) = 0) \<Longrightarrow>
     (opened \<or> is_open (Ev p)) \<or> open_count (virt_tty_prv (vt_op p s)) = 0"
  by (cases p) (auto simp: virttty_close_def virttty_write_def do_close_def Let_def)

lemma vt_run_quiet:
  "vt_quiet opened s \<Longrightarrow> opened \<or> open_count (virt_tty_prv s) = 0 \<Longrightarrow>
     vt_quiet (opened \<or> list_ex is_open es) (vt_run es s)"
proof (induction es arbitrary: s opened)
  case Nil
  then show ?case by simp
next
  case (Cons e es)
  show ?case
  proof (cases e)
    case (Ev p)
    then show ?thesis
      using Cons.IH [OF vt_op_quiet [OF Cons.prems, of p] vt_op_count [OF Cons.prems(2), of p]] by (simp add: disj_assoc)
  next
    case Ev_timer
    define s1 where "s1 = (if timer_armed (virt_tty_prv s) then timer_cbk_rearm (timer_cbk_deliver s) else s)"
    have "vt_quiet opened s1" "opened \<or> open_count (virt_tty_prv s1) = 0"
      using Cons.prems by (auto simp: s1_def vt_quiet_def timer_cbk_rearm_def timer_cbk_deliver_def)
    from Cons.IH [OF this] Ev_timer show ?thesis by (simp add: s1_def)
  qed
qed

definition vt_inv :: "vtty \<Rightarrow> bool" where
  "vt_inv s \<longleftrightarrow> 0 \<le> open_count (virt_tty_prv s) \<and>
     (0 < open_count (virt_tty_prv s) \<longrightarrow>
       \<not> prv_freed s \<and> (timer_armed (virt_tty_prv s) \<or> cbk_running (virt_tty_prv s)))"

lemma vt_step_inv: "vt_step s s' \<Longrightarrow> vt_inv s \<Longrightarrow> vt_inv s'"
  by (induction rule: vt_step.induct)
    (auto simp: vt_inv_def virttty_open_def virttty_close_def virttty_write_def do_close_def timer_cbk_rearm_def
      timer_cbk_deliver_def virttty_exit_device_def virttty_close_all_total Let_def)

lemma vt_reach_inv: "vt_reach s \<Longrightarrow> vt_inv s"
proof (induction rule: vt_reach.induct)
  case Start
  show ?case by (simp add: vt_inv_def vtty_fresh_def)
next
  case (Step s s')
  then show ?case by (blast intro: vt_step_inv)
qed

section \<open>Properties\<close>

text \<open>
  C7. As long as no callback is interrupted, the timer is armed exactly while the terminal is open: after any
  sequence of opens, closes, writes and expiries an expiry delivers the text, its terminating zero included, and keeps the timer
  armed when the count of opens is positive, and does nothing otherwise. Unloading then ends, with the timer
  stopped, and it is safe if and only if the terminal was opened at least once: otherwise it stops a timer that was never
  set up.
\<close>

theorem virttty_timer_follows_opens:
  "let s = vt_run es vtty_fresh; s1 = vt_run [Ev_timer] s
   in 0 \<le> open_count (virt_tty_prv s) \<and>
      timer_armed (virt_tty_prv s) = (0 < open_count (virt_tty_prv s)) \<and>
      timer_armed (virt_tty_prv s1) = timer_armed (virt_tty_prv s) \<and>
      flip_buffer s1 = flip_buffer s @ (if 0 < open_count (virt_tty_prv s) then hello else []) \<and>
      (\<exists>s'. virttty_exit_device s = Some s' \<and> \<not> timer_armed (virt_tty_prv s') \<and>
        vt_fault s' = (\<not> list_ex is_open es))"
proof -
  have "vt_quiet False vtty_fresh" "False \<or> open_count (virt_tty_prv vtty_fresh) = 0"
    by (simp_all add: vt_quiet_def vtty_fresh_def)
  from vt_run_quiet [OF this, of es] show ?thesis
    by (auto simp: vt_quiet_def timer_cbk_rearm_def timer_cbk_deliver_def virttty_exit_device_def
        virttty_close_all_total Let_def)
qed

text \<open>The states on the way to the two consequences of a close during a callback.\<close>

definition vt_mid_close :: vtty where
  "vt_mid_close = vt_op (Op_close 0) (timer_cbk_deliver (vt_op (Op_open 0) vtty_fresh))"

lemma vt_mid_close_reach: "vt_reach vt_mid_close"
proof -
  have "vt_step vtty_fresh (vt_op (Op_open 0) vtty_fresh)"
    by (rule vt_step.Open) (simp add: vtty_fresh_def)
  then have 1: "vt_reach (vt_op (Op_open 0) vtty_fresh)" by (rule vt_reach.Step [OF vt_reach.Start])
  have "vt_step (vt_op (Op_open 0) vtty_fresh) (timer_cbk_deliver (vt_op (Op_open 0) vtty_fresh))"
    by (rule vt_step.Expire) (simp_all add: virttty_open_def vtty_fresh_def Let_def)
  then have 2: "vt_reach (timer_cbk_deliver (vt_op (Op_open 0) vtty_fresh))" by (rule vt_reach.Step [OF 1])
  have "vt_step (timer_cbk_deliver (vt_op (Op_open 0) vtty_fresh)) vt_mid_close"
    unfolding vt_mid_close_def
    by (rule vt_step.Close) (simp_all add: virttty_open_def vtty_fresh_def timer_cbk_deliver_def Let_def)
  then show ?thesis by (rule vt_reach.Step [OF 2])
qed

text \<open>
  C36. When callbacks overlap with the other operations, an open terminal still always has its timer armed or a
  callback in progress, and the count never becomes negative. But \<open>del_timer\<close> does not wait for a callback in
  progress. If the terminal is closed during one, the timer is armed again by it, with nobody having the terminal open; if the module is unloaded before
  the callback ends, the callback writes to the freed device, although the timer had been set up.
\<close>

theorem virttty_close_races_callback:
  assumes "vt_reach s"
  shows "0 \<le> open_count (virt_tty_prv s) \<and>
    (0 < open_count (virt_tty_prv s) \<longrightarrow>
      \<not> prv_freed s \<and> (timer_armed (virt_tty_prv s) \<or> cbk_running (virt_tty_prv s))) \<and>
    (\<exists>s1. vt_reach s1 \<and> open_count (virt_tty_prv s1) = 0 \<and> timer_armed (virt_tty_prv s1)) \<and>
    (\<exists>s2. vt_reach s2 \<and> timer_set_up (virt_tty_prv s2) \<and> prv_freed s2 \<and> vt_fault s2)"
proof -
  note defs = vt_mid_close_def virttty_open_def virttty_close_def vtty_fresh_def timer_cbk_deliver_def
    timer_cbk_rearm_def do_close_def Let_def
  have "vt_step vt_mid_close (timer_cbk_rearm vt_mid_close)"
    by (rule vt_step.Rearm) (simp add: defs)
  then have 1: "vt_reach (timer_cbk_rearm vt_mid_close)" by (rule vt_reach.Step [OF vt_mid_close_reach])
  obtain s2 where s2: "virttty_exit_device vt_mid_close = Some s2"
    by (simp add: defs virttty_exit_device_def virttty_close_all_total)
  have "vt_step vt_mid_close s2"
    by (rule vt_step.Exit [OF _ _ s2]) (simp_all add: defs)
  then have 2: "vt_reach s2" by (rule vt_reach.Step [OF vt_mid_close_reach])
  have "vt_step s2 (timer_cbk_rearm s2)"
    using s2 by (intro vt_step.Rearm) (auto simp: defs virttty_exit_device_def virttty_close_all_total)
  then have 3: "vt_reach (timer_cbk_rearm s2)" by (rule vt_reach.Step [OF 2])
  have "timer_set_up (virt_tty_prv (timer_cbk_rearm s2)) \<and> prv_freed (timer_cbk_rearm s2) \<and>
      vt_fault (timer_cbk_rearm s2)"
    using s2 by (auto simp: defs virttty_exit_device_def virttty_close_all_total)
  moreover have "open_count (virt_tty_prv (timer_cbk_rearm vt_mid_close)) = 0 \<and>
      timer_armed (virt_tty_prv (timer_cbk_rearm vt_mid_close))"
    by (simp add: defs)
  ultimately show ?thesis
    using vt_reach_inv [OF assms] 1 3 unfolding vt_inv_def by blast
qed

theorem virttty_close_races_callback_witness:
  "\<exists>s1. vt_reach s1 \<and> open_count (virt_tty_prv s1) = 0 \<and> timer_armed (virt_tty_prv s1)"
  using virttty_close_races_callback [OF vt_reach.Start] by blast

text \<open>
  Loading and unloading, for every behaviour of the kernel. A failing allocation of the driver, which is an error
  pointer, is not recognised and written through. A failing registration is answered by releasing the registration that was never made. In
  every other case the driver that \<open>tty_alloc_driver\<close> allocated is never given back: not when the
  memory for the device is missing, and not when the module is unloaded.
\<close>

theorem virttty_load_unload:
  assumes "ktrace s = []" and "run_state virttty_init s = (r, t)"
    and "failures tty_conv (ktrace t) = fails" and "kres s 0 (Get Tty_driver [1, 0]) \<noteq> 0"
  shows "(r = None \<longleftrightarrow> fails = [Tty_driver]) \<and>
    (fails = [] \<longrightarrow> r = Some 0 \<and>
      held tty_conv t = Some [Tty_driver, Tty_port, Tty_registered, Tty_device, Tty_prv] \<and>
      held tty_conv (exec virttty_exit t) = Some [Tty_driver]) \<and>
    (Tty_registered \<in> set fails \<longrightarrow> r \<noteq> Some 0 \<and> held tty_conv t = None) \<and>
    (fails = [Tty_prv] \<longrightarrow> r = Some (- ENOMEM) \<and> held tty_conv t = Some [Tty_driver])"
  using assms unfolding ledger_eval
  by (simp add: virttty_init_def unreg_dev_def err_tty_and_prt_def split: if_split_asm;
    clarsimp simp: virttty_exit_def)

definition tty_example :: tty_state where
  "tty_example = \<lparr>kres = (\<lambda>n c. if c = Get Tty_registered [] then 0 else 1), kout = (\<lambda>n c. 0), ktrace = [],
     vtty_prv = False\<rparr>"

theorem virttty_load_unload_witness:
  "held tty_conv (exec virttty_exit (exec virttty_init tty_example)) = Some [Tty_driver]"
proof -
  have e: "ktrace tty_example = []" "kres tty_example 0 (Get Tty_driver [1, 0]) \<noteq> 0" by (simp_all add: tty_example_def)
  obtain r t where rt: "run_state virttty_init tty_example = (r, t)" by fastforce
  then have f: "failures tty_conv (ktrace t) = []"
    by (auto simp: virttty_init_def tty_example_def IS_ERR_def)
  show ?thesis using virttty_load_unload [OF e(1) rt f e(2)] rt by (simp add: exec_def)
qed

end
