(* ===== verification/Usb_Serial.thy ===== *)
theory Usb_Serial
  imports User_Memory Kernel_World
begin

text \<open>
  The USB serial drivers: \<open>17.dummy-usb-ttl-drv/dummy_usb_ttl_drv.c\<close>, and the CP2102 driver of
  \<open>18.usb-ttl-cp2102\<close>, \<open>cp2102if.c\<close> being the control requests of the chip and \<open>usb_ttl_cp2102.c\<close> the
  serial operations built on them. A control request is a kernel call logged with its fields
  (request, request type, value, index, then the data bytes); the answer is its status, and for
  a receiving request the value received. Local variables the C code leaves uninitialised are the arguments
  \<open>junk\<close>.
\<close>

section \<open>The dummy driver\<close>

definition usb_ttl_table :: "(u16 \<times> u16) list" where
  "usb_ttl_table = [(0x10C4, 0xEA60)]"

definition usb_ttl_probe :: int where "usb_ttl_probe = 0"

datatype usb_res = Usb_driver

fun usb_won :: "usb_res \<Rightarrow> int \<Rightarrow> bool" where
  "usb_won Usb_driver v = (v = 0)"

definition usb_conv :: "usb_res convention" where
  "usb_conv = \<lparr>won = usb_won, lax = (\<lambda>r. False)\<rparr>"

lemma usb_conv_simps [simp]: "won usb_conv = usb_won" "lax usb_conv = (\<lambda>r. False)"
  by (simp_all add: usb_conv_def)

definition usb_ttl_init :: "(usb_res kworld, int) state" where
  "usb_ttl_init = do {
     ret \<leftarrow> call (Get Usb_driver []);
     if ret \<noteq> 0 then return (- ret) else return 0
   }"

definition usb_ttl_exit :: "(usb_res kworld, unit) state" where
  "usb_ttl_exit = do { call (Put Usb_driver); return () }"

text \<open>
  A failed registration is returned with its sign turned: a positive number, which the module loader takes
  for success, so that the driver is later unregistered without having been registered.
\<close>

lemma usb_ttl_failure_is_positive:
  assumes "ktrace s = []" and "run_state usb_ttl_init s = (r, t)" and "kres s 0 (Get Usb_driver []) < 0"
  shows "0 < r \<and> held usb_conv (exec usb_ttl_exit t) = None"
  using assms by (auto simp: usb_ttl_init_def usb_ttl_exit_def held_def ledger_def exec_def)

section \<open>Control requests of the CP2102\<close>

record cp_state = "unit kworld" +
  bInterfaceNumber :: u8
  cp_mutex :: bool
  mcr :: u16
  msr :: u8

definition usb_control_msg_send ::
    "int \<Rightarrow> int \<Rightarrow> u16 \<Rightarrow> u8 \<Rightarrow> byte list \<Rightarrow> (cp_state, int) state" where
  "usb_control_msg_send request requesttype val ix data =
     call (Do ''usb_control_msg_send'' ([request, requesttype, uint val, uint ix] @ map uint data))"

definition usb_control_msg_recv ::
    "int \<Rightarrow> int \<Rightarrow> u8 \<Rightarrow> nat \<Rightarrow> (cp_state, int \<times> int) state" where
  "usb_control_msg_recv request requesttype ix sz =
     call_out (Do ''usb_control_msg_recv'' [request, requesttype, 0, uint ix, int sz])"

text \<open>The common end of every request: translate a failure.\<close>

definition cp_status :: "int \<Rightarrow> (cp_state, int) state" where
  "cp_status status =
     (if status \<noteq> 0 then call (Do ''usb_translate_errors'' [status]) else return status)"

definition cp2102_enableif :: "u8 \<Rightarrow> (cp_state, int) state" where
  "cp2102_enableif ifnum = do { status \<leftarrow> usb_control_msg_send 0x00 0x41 0x0001 ifnum []; cp_status status }"

definition cp2102_disableif :: "u8 \<Rightarrow> (cp_state, int) state" where
  "cp2102_disableif ifnum = do { status \<leftarrow> usb_control_msg_send 0x00 0x41 0x0000 ifnum []; cp_status status }"

definition cp2102_set_lctrl :: "u8 \<Rightarrow> u16 \<Rightarrow> (cp_state, int) state" where
  "cp2102_set_lctrl ifnum val = do { status \<leftarrow> usb_control_msg_send 0x03 0x41 val ifnum []; cp_status status }"

definition cp2102_get_lctrl :: "u8 \<Rightarrow> (cp_state, int \<times> u16) state" where
  "cp2102_get_lctrl ifnum = do {
     (status, val) \<leftarrow> usb_control_msg_recv 0x04 0xC1 ifnum 2;
     status \<leftarrow> cp_status status;
     return (status, word_of_int val)
   }"

definition cp2102_set_baud :: "u8 \<Rightarrow> u32 \<Rightarrow> (cp_state, int) state" where
  "cp2102_set_baud ifnum val = do {
     status \<leftarrow> usb_control_msg_send 0x1E 0x41 0 ifnum (le_bytes 4 (uint val));
     cp_status status
   }"

definition cp2102_get_baud :: "u8 \<Rightarrow> (cp_state, int \<times> u32) state" where
  "cp2102_get_baud ifnum = do {
     (status, val) \<leftarrow> usb_control_msg_recv 0x1D 0xC1 ifnum 4;
     status \<leftarrow> cp_status status;
     return (status, word_of_int val)
   }"

definition cp2102_get_mdmstat :: "u8 \<Rightarrow> (cp_state, int \<times> u8) state" where
  "cp2102_get_mdmstat ifnum = do {
     (status, val) \<leftarrow> usb_control_msg_recv 0x08 0xC1 ifnum 1;
     status \<leftarrow> cp_status status;
     return (status, word_of_int val)
   }"

definition cp2102_set_mdmhndshk :: "u8 \<Rightarrow> u16 \<Rightarrow> (cp_state, int) state" where
  "cp2102_set_mdmhndshk ifnum val = do { status \<leftarrow> usb_control_msg_send 0x07 0x41 val ifnum []; cp_status status }"

definition cp2102_set_fctrl :: "u8 \<Rightarrow> (cp_state, int) state" where
  "cp2102_set_fctrl ifnum = return 0"

definition cp2102_get_fctrl :: "u8 \<Rightarrow> (cp_state, int) state" where
  "cp2102_get_fctrl ifnum = return 0"

section \<open>The serial operations\<close>

abbreviation (input) MCR_DTR :: u16 where "MCR_DTR \<equiv> 0x0001"
abbreviation (input) MCR_RTS :: u16 where "MCR_RTS \<equiv> 0x0002"
abbreviation (input) MCR_DTR_MASK :: u16 where "MCR_DTR_MASK \<equiv> 0x0100"
abbreviation (input) MCR_RTS_MASK :: u16 where "MCR_RTS_MASK \<equiv> 0x0200"
abbreviation (input) PARITY_ODD_MASK :: u16 where "PARITY_ODD_MASK \<equiv> 0x0010"
abbreviation (input) PARITY_EVEN_MASK :: u16 where "PARITY_EVEN_MASK \<equiv> 0x0020"
abbreviation (input) STOP_1_MASK :: u16 where "STOP_1_MASK \<equiv> 0x0000"
abbreviation (input) DATA_8_MASK :: u16 where "DATA_8_MASK \<equiv> 0x0800"
abbreviation (input) TIOCM_DTR :: u32 where "TIOCM_DTR \<equiv> 0x002"
abbreviation (input) TIOCM_RTS :: u32 where "TIOCM_RTS \<equiv> 0x004"
abbreviation (input) TIOCM_CTS :: u32 where "TIOCM_CTS \<equiv> 0x020"
abbreviation (input) TIOCM_CD :: u32 where "TIOCM_CD \<equiv> 0x040"
abbreviation (input) TIOCM_RI :: u32 where "TIOCM_RI \<equiv> 0x080"
abbreviation (input) TIOCM_DSR :: u32 where "TIOCM_DSR \<equiv> 0x100"

text \<open>The status of \<open>cp2102_enableif\<close> is overwritten before it is looked at.\<close>

definition serial_cp2102_open :: "(cp_state, int) state" where
  "serial_cp2102_open = do {
     ifn \<leftarrow> gets bInterfaceNumber;
     cp2102_enableif ifn;
     ret \<leftarrow> call (Do ''usb_serial_generic_open'' []);
     if ret \<noteq> 0 then do { cp2102_disableif ifn; return ret } else return 0
   }"

definition serial_cp2102_close :: "(cp_state, unit) state" where
  "serial_cp2102_close = do {
     ifn \<leftarrow> gets bInterfaceNumber;
     call (Do ''usb_serial_generic_close'' []);
     cp2102_disableif ifn;
     return ()
   }"

definition termios_lctrl :: "u16 \<Rightarrow> bool \<Rightarrow> bool \<Rightarrow> u16" where
  "termios_lctrl junk parenb parodd =
     (let lctrl = junk;
          lctrl = (if parenb then (if parodd then lctrl OR PARITY_ODD_MASK else lctrl OR PARITY_EVEN_MASK) else lctrl);
          lctrl = lctrl OR STOP_1_MASK
      in lctrl OR DATA_8_MASK)"

definition serial_cp2102_set_termios ::
    "u16 \<Rightarrow> bool \<Rightarrow> u32 \<Rightarrow> bool \<Rightarrow> bool \<Rightarrow> (cp_state, unit) state" where
  "serial_cp2102_set_termios junk unchanged baudrate parenb parodd =
     (if unchanged then return ()
      else do {
        modify (\<lambda>s. s\<lparr>cp_mutex := True\<rparr>);
        ifn \<leftarrow> gets bInterfaceNumber;
        (if 0 < baudrate then do {
           err \<leftarrow> cp2102_set_baud ifn baudrate;
           let baudrate = (if err \<noteq> 0 then 9600 else baudrate);
           call (Do ''tty_encode_baud_rate'' [uint baudrate]);
           return ()
         } else return ());
        cp2102_set_lctrl ifn (termios_lctrl junk parenb parodd);
        modify (\<lambda>s. s\<lparr>cp_mutex := False\<rparr>);
        return ()
      })"

definition tiocmset_mcr :: "u16 \<Rightarrow> u32 \<Rightarrow> u32 \<Rightarrow> u16" where
  "tiocmset_mcr junk st cl =
     (let m = junk;
          m = (if st AND TIOCM_RTS \<noteq> 0 then (m OR MCR_RTS) OR MCR_RTS_MASK else m);
          m = (if st AND TIOCM_DTR \<noteq> 0 then (m OR MCR_RTS) OR MCR_DTR_MASK else m);
          m = (if cl AND TIOCM_RTS \<noteq> 0 then (m AND NOT MCR_RTS) OR MCR_RTS_MASK else m)
      in if cl AND TIOCM_DTR \<noteq> 0 then (m AND NOT MCR_DTR) OR MCR_DTR_MASK else m)"

definition serial_cp2102_tiocmset :: "u16 \<Rightarrow> u32 \<Rightarrow> u32 \<Rightarrow> (cp_state, int) state" where
  "serial_cp2102_tiocmset junk st cl = do {
     modify (\<lambda>s. s\<lparr>cp_mutex := True\<rparr>);
     let m = tiocmset_mcr junk st cl;
     modify (\<lambda>s. s\<lparr>mcr := m\<rparr>);
     ifn \<leftarrow> gets bInterfaceNumber;
     ret \<leftarrow> cp2102_set_mdmhndshk ifn m;
     modify (\<lambda>s. s\<lparr>cp_mutex := False\<rparr>);
     return ret
   }"

definition tiocm_of_msr :: "u8 \<Rightarrow> u32" where
  "tiocm_of_msr m =
     (if m AND 0x01 \<noteq> 0 then TIOCM_DTR else 0) OR (if m AND 0x02 \<noteq> 0 then TIOCM_RTS else 0) OR
     (if m AND 0x10 \<noteq> 0 then TIOCM_CTS else 0) OR (if m AND 0x20 \<noteq> 0 then TIOCM_DSR else 0) OR
     (if m AND 0x40 \<noteq> 0 then TIOCM_RI else 0) OR (if m AND 0x80 \<noteq> 0 then TIOCM_CD else 0)"

definition serial_cp2102_tiocmget :: "(cp_state, int) state" where
  "serial_cp2102_tiocmget = do {
     ifn \<leftarrow> gets bInterfaceNumber;
     (ret, m) \<leftarrow> cp2102_get_mdmstat ifn;
     if ret \<noteq> 0 then return ret
     else do {
       modify (\<lambda>s. s\<lparr>msr := m\<rparr>);
       return (uint (tiocm_of_msr m))
     }}"

definition serial_cp2102_port_probe :: "u8 \<Rightarrow> (cp_state, int) state" where
  "serial_cp2102_port_probe ifnum = do {
     mem \<leftarrow> call (Do ''devm_kzalloc'' []);
     if mem = 0 then return (- ENOMEM)
     else do {
       modify (\<lambda>s. s\<lparr>bInterfaceNumber := ifnum, cp_mutex := False, mcr := 0, msr := 0\<rparr>);
       return 0
     }}"

definition serial_cp2102_attach :: int where "serial_cp2102_attach = 0"

section \<open>What the chip makes of a modem-handshake value\<close>

text \<open>
  AN571 as the comment in \<open>serial_cp2102_tiocmset\<close> quotes it: bits 0 and 1 are the new states of DTR and RTS,
  bits 8 and 9 say whether each is to be changed. The lines are the pair (DTR, RTS).
\<close>

definition an571_lines :: "u16 \<Rightarrow> bool \<times> bool \<Rightarrow> bool \<times> bool" where
  "an571_lines v ln = (if bit v 8 then bit v 0 else fst ln, if bit v 9 then bit v 1 else snd ln)"

text \<open>What \<open>tiocmset\<close> is asked for; clearing wins over setting, as in the code.\<close>

definition wanted_lines :: "u32 \<Rightarrow> u32 \<Rightarrow> bool \<times> bool \<Rightarrow> bool \<times> bool" where
  "wanted_lines st cl ln =
     (if bit cl 1 then False else if bit st 1 then True else fst ln,
      if bit cl 2 then False else if bit st 2 then True else snd ln)"

lemma and_bit_iff:
  "x AND 2 = 0 \<longleftrightarrow> \<not> bit x 1" "x AND 4 = 0 \<longleftrightarrow> \<not> bit x 2"
  for x :: "'a::len word"
  using and_exp_eq_0_iff_not_bit [of x 1] and_exp_eq_0_iff_not_bit [of x 2] by simp_all

lemma tiocmset_bits:
  "bit (tiocmset_mcr junk st cl) 0 = (bit junk 0 \<and> \<not> bit cl 1)"
  "bit (tiocmset_mcr junk st cl) 1 = ((bit junk 1 \<or> bit st 2 \<or> bit st 1) \<and> \<not> bit cl 2)"
  "bit (tiocmset_mcr junk st cl) 8 = (bit junk 8 \<or> bit st 1 \<or> bit cl 1)"
  "bit (tiocmset_mcr junk st cl) 9 = (bit junk 9 \<or> bit st 2 \<or> bit cl 2)"
  by (auto simp: tiocmset_mcr_def Let_def and_bit_iff bit_simps)

lemma tiocmset_lines:
  assumes "\<not> bit junk 0" and "\<not> bit junk 8" and "\<not> bit junk 9"
  shows "an571_lines (tiocmset_mcr junk st cl) ln =
    (if bit st 1 \<and> \<not> bit cl 1 then False else fst (wanted_lines st cl ln), snd (wanted_lines st cl ln))"
  using assms by (simp add: an571_lines_def wanted_lines_def tiocmset_bits [unfolded One_nat_def])

lemma tiocmset_run:
  assumes "run_state (serial_cp2102_tiocmset junk st cl) s = (r, t)"
  shows "mcr t = tiocmset_mcr junk st cl \<and> \<not> cp_mutex t \<and> (\<exists>status.
    ktrace t ! length (ktrace s) =
      (Do ''usb_control_msg_send'' [0x07, 0x41, uint (mcr t), uint (bInterfaceNumber s)], status) \<and>
    (status = 0 \<longrightarrow> r = 0))"
proof -
  define m where "m = tiocmset_mcr junk st cl"
  show ?thesis
    using assms unfolding serial_cp2102_tiocmset_def Let_def m_def [symmetric]
    by (simp add: cp2102_set_mdmhndshk_def usb_control_msg_send_def cp_status_def split: if_splits;
        clarsimp simp: nth_append)
qed

lemma and_bit_iff8:
  "x AND 1 = 0 \<longleftrightarrow> \<not> bit x 0" "x AND 16 = 0 \<longleftrightarrow> \<not> bit x 4" "x AND 32 = 0 \<longleftrightarrow> \<not> bit x 5"
  "x AND 64 = 0 \<longleftrightarrow> \<not> bit x 6" "x AND 128 = 0 \<longleftrightarrow> \<not> bit x 7" for x :: u8
  using and_exp_eq_0_iff_not_bit [of x 0] and_exp_eq_0_iff_not_bit [of x 4] and_exp_eq_0_iff_not_bit [of x 5]
    and_exp_eq_0_iff_not_bit [of x 6] and_exp_eq_0_iff_not_bit [of x 7] by simp_all

lemma tiocm_of_msr_bits:
  "bit (tiocm_of_msr m) 1 = bit m 0" "bit (tiocm_of_msr m) 2 = bit m 1" "bit (tiocm_of_msr m) 5 = bit m 4"
  "bit (tiocm_of_msr m) 8 = bit m 5" "bit (tiocm_of_msr m) 7 = bit m 6" "bit (tiocm_of_msr m) 6 = bit m 7"
  by (simp_all add: tiocm_of_msr_def and_bit_iff and_bit_iff8 bit_simps)

text \<open>The line-control value: eight data bits, and the parity asked for.\<close>

lemma termios_lctrl_bits:
  "bit (termios_lctrl junk parenb parodd) 11"
  "bit (termios_lctrl junk parenb parodd) 4 = (bit junk 4 \<or> parenb \<and> parodd)"
  "bit (termios_lctrl junk parenb parodd) 5 = (bit junk 5 \<or> parenb \<and> \<not> parodd)"
  by (simp_all add: termios_lctrl_def Let_def bit_simps)

section \<open>Properties\<close>

text \<open>
  \<open>tiocmset\<close> sends exactly one modem-handshake request and passes its status on. When the bits of the uninitialised
  local happen to be clear, RTS follows the request, and so does DTR when it is to be cleared or left alone; but a request to raise DTR
  lowers it, since the code sets the bit of RTS together with the mask of DTR. \<open>tiocmget\<close>
  reports each line of the status byte by its own flag.
\<close>

theorem cp2102_modem_lines:
  assumes "\<not> bit junk 0" and "\<not> bit junk 8" and "\<not> bit junk 9"
    and "run_state (serial_cp2102_tiocmset junk st cl) s = (r, t)"
  shows "(\<exists>status. ktrace t ! length (ktrace s) =
      (Do ''usb_control_msg_send'' [0x07, 0x41, uint (mcr t), uint (bInterfaceNumber s)], status) \<and>
      (status = 0 \<longrightarrow> r = 0)) \<and> \<not> cp_mutex t \<and>
    an571_lines (mcr t) ln =
      (if bit st 1 \<and> \<not> bit cl 1 then False else fst (wanted_lines st cl ln),
       snd (wanted_lines st cl ln)) \<and>
    map (bit (tiocm_of_msr m)) [1, 2, 5, 8, 7, 6] = map (bit m) [0, 1, 4, 5, 6, 7]"
  using tiocmset_run [OF assms(4)] tiocmset_lines [OF assms(1-3)]
  by (auto simp: tiocm_of_msr_bits [unfolded One_nat_def])

definition cp_example :: cp_state where
  "cp_example = \<lparr>kres = (\<lambda>n c. 0), kout = (\<lambda>n c. 0), ktrace = [], bInterfaceNumber = 1, cp_mutex = False,
     mcr = 0, msr = 0\<rparr>"

theorem cp2102_modem_lines_witness:
  "an571_lines (mcr (exec (serial_cp2102_tiocmset 0 TIOCM_DTR 0) cp_example)) (True, True) = (False, True)"
proof -
  obtain r t where rt: "run_state (serial_cp2102_tiocmset 0 TIOCM_DTR 0) cp_example = (r, t)" by fastforce
  from cp2102_modem_lines [OF _ _ _ rt, of "(True, True)"] rt show ?thesis
    by (simp add: exec_def wanted_lines_def)
qed

end
