(* ===== verification/Pci_Emu.thy ===== *)
theory Pci_Emu
  imports Kernel_World
begin

text \<open>
  The emulated PCI device of \<open>19.Qemu-pci-dev-creation/pci_dev_emu.c\<close>: two 64-bit registers, one behind a
  memory BAR and one behind a port BAR, each write of which raises an MSI. The model keeps the vectors
  notified. A failed \<open>assert\<close> of the emulator is \<open>None\<close>.

  The locale \<open>two_bars\<close> is what a driver of such a device relies on when it makes 32-bit accesses: each
  BAR keeps what was written to it and the two do not interfere.
\<close>

section \<open>The device\<close>

record pci_emu_device =
  mmio_val :: u64
  prtio_val :: u64
  msi_vectors :: "nat list"

definition msi_notify :: "nat \<Rightarrow> pci_emu_device \<Rightarrow> pci_emu_device" where
  "msi_notify v d = d\<lparr>msi_vectors := msi_vectors d @ [v]\<rparr>"

definition pci_emu_dev_mmio_read :: "nat \<Rightarrow> nat \<Rightarrow> pci_emu_device \<Rightarrow> u64" where
  "pci_emu_dev_mmio_read addr sz ped = (if 4 \<le> sz \<and> sz \<le> 8 then mmio_val ped else 0)"

definition pci_emu_dev_mmio_write :: "nat \<Rightarrow> u64 \<Rightarrow> nat \<Rightarrow> pci_emu_device \<Rightarrow> pci_emu_device option" where
  "pci_emu_dev_mmio_write addr val sz prv_dev =
     (if 4 \<le> sz \<and> sz \<le> 8 then Some (msi_notify 0 (prv_dev\<lparr>mmio_val := val\<rparr>)) else None)"

definition pci_emu_dev_prtio_read :: "nat \<Rightarrow> nat \<Rightarrow> pci_emu_device \<Rightarrow> u64" where
  "pci_emu_dev_prtio_read addr sz prv_dev = (if 4 \<le> sz \<and> sz \<le> 8 then prtio_val prv_dev else 0)"

definition pci_emu_dev_prtio_write :: "nat \<Rightarrow> u64 \<Rightarrow> nat \<Rightarrow> pci_emu_device \<Rightarrow> pci_emu_device option" where
  "pci_emu_dev_prtio_write addr val sz prv_dev =
     (if 4 \<le> sz \<and> sz \<le> 8 then Some (msi_notify 0 (prv_dev\<lparr>prtio_val := val\<rparr>)) else None)"

text \<open>The sizes of access an operation table admits.\<close>

record region_ops =
  min_access_size :: nat
  max_access_size :: nat

definition pci_emu_dev_mmio_ops :: region_ops where
  "pci_emu_dev_mmio_ops = \<lparr>min_access_size = 4, max_access_size = 8\<rparr>"

definition pci_emu_dev_prtio_ops :: region_ops where
  "pci_emu_dev_prtio_ops = \<lparr>min_access_size = 4, max_access_size = 8\<rparr>"

definition admits :: "region_ops \<Rightarrow> nat \<Rightarrow> bool" where
  "admits ops sz \<longleftrightarrow> min_access_size ops \<le> sz \<and> sz \<le> max_access_size ops"

section \<open>Creation\<close>

datatype emu_res = Mmio_bar | Port_bar | Msi_capability

text \<open>The calls into QEMU; \<open>msi_init\<close> reports failure by a non-zero result, which ends the realization.\<close>

definition pci_emu_dev_realize :: "(emu_res kworld, unit) state" where
  "pci_emu_dev_realize = do {
     call (Do ''memory_region_init_io memiospace'' [8]);
     call (Do ''memory_region_init_io prtiospace'' [8]);
     call (Do ''pci_register_bar memory'' [0]);
     call (Do ''pci_register_bar io'' [1]);
     call (Get Msi_capability [0, 1]);
     return ()
   }"

definition pci_emu_dev_exit :: "(emu_res kworld, unit) state" where
  "pci_emu_dev_exit = do { call (Put Msi_capability); return () }"

record pci_class =
  vendor_id :: u16
  device_id :: u16
  revision :: u8

text \<open>\<open>PCI_VENDOR_ID_QEMU\<close> and \<open>PCI_CLASS_OTHERS\<close> come from QEMU; the vendor is a parameter.\<close>

definition CUSTOM_DEVICE_ID :: u16 where "CUSTOM_DEVICE_ID = 0xAABB"

definition pci_emu_dev_cls_init :: "u16 \<Rightarrow> pci_class" where
  "pci_emu_dev_cls_init vendor_qemu = \<lparr>vendor_id = vendor_qemu, device_id = CUSTOM_DEVICE_ID, revision = 0\<rparr>"

section \<open>What a driver relies on\<close>

datatype bar = Memio | Prtio

locale two_bars =
  fixes wr32 :: "bar \<Rightarrow> u32 \<Rightarrow> 'd \<Rightarrow> 'd"
    and rd32 :: "bar \<Rightarrow> 'd \<Rightarrow> u32"
    and irqs :: "'d \<Rightarrow> nat"
  assumes read_written: "rd32 b (wr32 b v d) = v"
    and read_other: "b \<noteq> c \<Longrightarrow> rd32 c (wr32 b v d) = rd32 c d"
    and write_notifies: "irqs (wr32 b v d) = irqs d + 1"
begin

lemma last_write_wins: "rd32 b (wr32 b w (wr32 c v d)) = w"
  by (rule read_written)

lemma reads_independent:
  "rd32 Memio (wr32 Prtio w (wr32 Memio v d)) = v \<and> rd32 Prtio (wr32 Prtio w (wr32 Memio v d)) = w"
  by (simp add: read_written read_other)

end

text \<open>A 32-bit access of the machine reaches the device as one access of size 4 at the start of the BAR.\<close>

fun emu_iowrite32 :: "bar \<Rightarrow> u32 \<Rightarrow> pci_emu_device \<Rightarrow> pci_emu_device" where
  "emu_iowrite32 Memio v d = (case pci_emu_dev_mmio_write 0 (ucast v) 4 d of None \<Rightarrow> d | Some d' \<Rightarrow> d')"
| "emu_iowrite32 Prtio v d = (case pci_emu_dev_prtio_write 0 (ucast v) 4 d of None \<Rightarrow> d | Some d' \<Rightarrow> d')"

fun emu_ioread32 :: "bar \<Rightarrow> pci_emu_device \<Rightarrow> u32" where
  "emu_ioread32 Memio d = ucast (pci_emu_dev_mmio_read 0 4 d)"
| "emu_ioread32 Prtio d = ucast (pci_emu_dev_prtio_read 0 4 d)"

lemmas emu_defs = pci_emu_dev_mmio_read_def pci_emu_dev_mmio_write_def pci_emu_dev_prtio_read_def
  pci_emu_dev_prtio_write_def msi_notify_def

lemma ucast_roundtrip: "ucast (ucast (v :: u32) :: u64) = v"
  by (rule bit_word_eqI) (simp add: bit_unsigned_iff)

interpretation emu: two_bars emu_iowrite32 emu_ioread32 "\<lambda>d. length (msi_vectors d)"
proof
  show "emu_ioread32 b (emu_iowrite32 b v d) = v" for b v d
    by (cases b) (simp_all add: emu_defs ucast_roundtrip)
  show "b \<noteq> c \<Longrightarrow> emu_ioread32 c (emu_iowrite32 b v d) = emu_ioread32 c d" for b c v d
    by (cases b; cases c) (simp_all add: emu_defs)
  show "length (msi_vectors (emu_iowrite32 b v d)) = length (msi_vectors d) + 1" for b v d
    by (cases b) (simp_all add: emu_defs)
qed

section \<open>Properties\<close>

text \<open>
  Every access of a size its operation table admits is handled: a write never fails its assertion, stores
  the whole 64-bit value and raises exactly one MSI on vector 0; a read returns the whole register, whatever its address in the
  region. Accesses of other sizes are outside the table: such a write would abort the emulator, such a
  read yields 0.
\<close>

theorem emu_admitted_accesses:
  "(admits pci_emu_dev_mmio_ops sz \<longleftrightarrow> pci_emu_dev_mmio_write addr val sz d \<noteq> None) \<and>
   (admits pci_emu_dev_prtio_ops sz \<longleftrightarrow> pci_emu_dev_prtio_write addr val sz d \<noteq> None) \<and>
   (case pci_emu_dev_mmio_write addr val sz d of None \<Rightarrow> pci_emu_dev_mmio_read addr sz d = 0
    | Some d' \<Rightarrow> pci_emu_dev_mmio_read addr' sz d' = val \<and>
        pci_emu_dev_prtio_read addr' sz d' = pci_emu_dev_prtio_read addr sz d \<and>
        msi_vectors d' = msi_vectors d @ [0]) \<and>
   (case pci_emu_dev_prtio_write addr val sz d of None \<Rightarrow> pci_emu_dev_prtio_read addr sz d = 0
    | Some d' \<Rightarrow> pci_emu_dev_prtio_read addr' sz d' = val \<and>
        pci_emu_dev_mmio_read addr' sz d' = pci_emu_dev_mmio_read addr sz d \<and>
        msi_vectors d' = msi_vectors d @ [0])"
  by (auto simp: emu_defs admits_def pci_emu_dev_mmio_ops_def pci_emu_dev_prtio_ops_def)

end
