(* ===== verification/Pci_Drv.thy ===== *)
theory Pci_Drv
  imports Pci_Emu Sysfs
begin

text \<open>
  The PCI driver of \<open>20.pci-driver/pci_drv.c\<close>. Its attribute functions take the two 32-bit accessors of the
  machine as parameters; with those of the emulated device the contract \<open>two_bars\<close> gives their round trip.
  \<open>pci_drv_probe\<close> and \<open>pci_drv_remove\<close> are judged against the resource ledger.
\<close>

section \<open>Attributes\<close>

definition mmioval_store ::
    "(bar \<Rightarrow> u32 \<Rightarrow> 'd \<Rightarrow> 'd) \<Rightarrow> (string \<Rightarrow> int \<times> int) \<Rightarrow> string \<Rightarrow> nat \<Rightarrow> 'd \<Rightarrow> int \<times> 'd" where
  "mmioval_store iowrite32 kstrtol buf count hw =
     (case kstrtol buf of (ret, val) \<Rightarrow>
        if ret \<noteq> 0 then (ret, hw) else (int count, iowrite32 Memio (word_of_int val) hw))"

definition prtioval_store ::
    "(bar \<Rightarrow> u32 \<Rightarrow> 'd \<Rightarrow> 'd) \<Rightarrow> (string \<Rightarrow> int \<times> int) \<Rightarrow> string \<Rightarrow> nat \<Rightarrow> 'd \<Rightarrow> int \<times> 'd" where
  "prtioval_store iowrite32 kstrtol buf count hw =
     (case kstrtol buf of (ret, val) \<Rightarrow>
        if ret \<noteq> 0 then (ret, hw) else (int count, iowrite32 Prtio (word_of_int val) hw))"

definition mmioval_show :: "(bar \<Rightarrow> 'd \<Rightarrow> u32) \<Rightarrow> 'd \<Rightarrow> int \<times> string" where
  "mmioval_show ioread32 hw =
     (let buf = ''mmioval show: '' @ dec (uint (ioread32 Memio hw)) @ [CHR 0x0A]
      in (int (length buf), buf))"

definition prtioval_show :: "(bar \<Rightarrow> 'd \<Rightarrow> u32) \<Rightarrow> 'd \<Rightarrow> int \<times> string" where
  "prtioval_show ioread32 hw =
     (let buf = ''prtioval show : '' @ dec (uint (ioread32 Prtio hw)) @ [CHR 0x0A]
      in (int (length buf), buf))"

definition pcidrv_attrs ::
    "(bar \<Rightarrow> u32 \<Rightarrow> 'd \<Rightarrow> 'd) \<Rightarrow> (bar \<Rightarrow> 'd \<Rightarrow> u32) \<Rightarrow> (string \<Rightarrow> int \<times> int) \<Rightarrow> 'd device_attribute list" where
  "pcidrv_attrs iowrite32 ioread32 kstrtol =
     [DEVICE_ATTR_RW ''mmioval'' (mmioval_show ioread32) (mmioval_store iowrite32 kstrtol),
      DEVICE_ATTR_RW ''prtioval'' (prtioval_show ioread32) (prtioval_store iowrite32 kstrtol)]"

interpretation pci_grp: attribute_group "pcidrv_attrs iow ior kstrtol" "\<lambda>hw. True" for iow ior kstrtol
proof
  fix a :: "'a device_attribute" and sh d
  assume "a \<in> set (pcidrv_attrs iow ior kstrtol)" "attr_show a = Some sh"
  then show "shows_page (sh d)"
    using length_dec_u32 [of "ior Memio d"] length_dec_u32 [of "ior Prtio d"]
    by (auto simp: pcidrv_attrs_def device_attr_defs shows_page_def mmioval_show_def prtioval_show_def Let_def PAGE_SIZE_def)
qed (auto simp: pcidrv_attrs_def, simp_all add: device_attr_defs)

datatype irqreturn = IRQ_NONE | IRQ_HANDLED

definition irq_drv_hndl :: "int \<Rightarrow> irqreturn" where
  "irq_drv_hndl irq = IRQ_HANDLED"

text \<open>The identifiers the driver binds.\<close>

definition pci_dev_table :: "(u16 \<times> u16) list" where
  "pci_dev_table = [(0x1234, 0xAABB)]"

section \<open>Probe and remove\<close>

datatype pci_res = Pci_enabled | Pci_regions | Pci_map nat | Irq_vectors | Irq_line | Pci_sysfs

fun pci_won :: "pci_res \<Rightarrow> int \<Rightarrow> bool" where
  "pci_won (Pci_map i) v = (v \<noteq> 0)"
| "pci_won Irq_vectors v = (0 \<le> v)"
| "pci_won r v = (v = 0)"

definition pci_conv :: "pci_res convention" where
  "pci_conv = \<lparr>won = pci_won, lax = (\<lambda>r. False)\<rparr>"

lemma pci_conv_simps [simp]: "won pci_conv = pci_won" "lax pci_conv = (\<lambda>r. False)"
  by (simp_all add: pci_conv_def)

record pci_prv_dev =
  hwmem :: int
  hwprtmem :: int

record pci_state = "pci_res kworld" +
  pci_drvdata :: "pci_prv_dev option"

definition pci_err_req_rgn :: "int \<Rightarrow> (pci_state, int) state" where
  "pci_err_req_rgn ret = do { call (Put Pci_enabled); return ret }"

definition pci_err_alloc :: "int \<Rightarrow> (pci_state, int) state" where
  "pci_err_alloc ret = do { call (Put Pci_regions); pci_err_req_rgn ret }"

definition pci_err_irq_vec :: "int \<Rightarrow> (pci_state, int) state" where
  "pci_err_irq_vec ret = do { call (Put (Pci_map 0)); call (Put (Pci_map 1)); pci_err_alloc ret }"

definition pci_err_req_irq :: "int \<Rightarrow> (pci_state, int) state" where
  "pci_err_req_irq ret = do { call (Put Irq_vectors); pci_err_irq_vec ret }"

definition pci_err_sysfs_grp :: "int \<Rightarrow> (pci_state, int) state" where
  "pci_err_sysfs_grp ret = do { call (Put Irq_line); pci_err_req_irq ret }"

definition pci_drv_probe :: "(pci_state, int) state" where
  "pci_drv_probe = do {
     call (Do ''pci_read_config_word'' [0]);
     call (Do ''pci_read_config_word'' [2]);
     ret \<leftarrow> call (Get Pci_enabled []);
     if ret \<noteq> 0 then return ret
     else do {
       ret \<leftarrow> call (Do ''dma_set_mask_and_coherent'' [64]);
       if ret < 0 then pci_err_req_rgn ret
       else do {
         call (Do ''pci_set_master'' []);
         ret \<leftarrow> call (Get Pci_regions []);
         if ret \<noteq> 0 then pci_err_req_rgn ret
         else do {
           mem \<leftarrow> call (Do ''devm_kzalloc'' []);
           if mem = 0 then pci_err_alloc (- ENOMEM)
           else do {
             m0 \<leftarrow> call (Get (Pci_map 0) []);
             m1 \<leftarrow> call (Get (Pci_map 1) []);
             if m0 = 0 \<or> m1 = 0 then pci_err_alloc (- EIO)
             else do {
               ret \<leftarrow> call (Get Irq_vectors [1, 1]);
               if ret < 0 then pci_err_irq_vec ret
               else do {
                 ret \<leftarrow> call (Get Irq_line [0]);
                 if ret \<noteq> 0 then pci_err_req_irq ret
                 else do {
                   ret \<leftarrow> call (Get Pci_sysfs []);
                   if ret \<noteq> 0 then pci_err_sysfs_grp ret
                   else do {
                     modify (\<lambda>s. s\<lparr>pci_drvdata := Some \<lparr>hwmem = m0, hwprtmem = m1\<rparr>\<rparr>);
                     return 0
                   }}}}}}}}}"

definition pci_drv_remove :: "(pci_state, unit) state" where
  "pci_drv_remove = do {
     call (Put Pci_sysfs);
     call (Put Irq_line);
     call (Put Irq_vectors);
     call (Put (Pci_map 0));
     call (Put (Pci_map 1));
     call (Put Pci_regions);
     call (Put Pci_enabled);
     return ()
   }"

lemmas pci_label_defs = pci_err_req_rgn_def pci_err_alloc_def pci_err_irq_vec_def
  pci_err_req_irq_def pci_err_sysfs_grp_def

section \<open>The attributes over a device that keeps the contract\<close>

context two_bars
begin

lemma store_show_mmio:
  "kstrtol buf = (0, v) \<Longrightarrow>
     snd (mmioval_show rd32 (snd (mmioval_store wr32 kstrtol buf n d))) =
       ''mmioval show: '' @ dec (v mod 2 ^ 32) @ [CHR 0x0A] \<and>
     prtioval_show rd32 (snd (mmioval_store wr32 kstrtol buf n d)) = prtioval_show rd32 d \<and>
     irqs (snd (mmioval_store wr32 kstrtol buf n d)) = irqs d + 1"
  by (simp add: mmioval_store_def mmioval_show_def prtioval_show_def read_written read_other
      write_notifies uint_word_of_int)

lemma store_show_prtio:
  "kstrtol buf = (0, v) \<Longrightarrow>
     snd (prtioval_show rd32 (snd (prtioval_store wr32 kstrtol buf n d))) =
       ''prtioval show : '' @ dec (v mod 2 ^ 32) @ [CHR 0x0A] \<and>
     mmioval_show rd32 (snd (prtioval_store wr32 kstrtol buf n d)) = mmioval_show rd32 d \<and>
     irqs (snd (prtioval_store wr32 kstrtol buf n d)) = irqs d + 1"
  by (simp add: prtioval_store_def prtioval_show_def mmioval_show_def read_written read_other
      write_notifies uint_word_of_int)

end

section \<open>Properties\<close>

text \<open>
  C37. Driver and emulated device together: a number written to an attribute is shown by the same attribute modulo
  \<open>2 ^ 32\<close> and unsigned, the other attribute still shows what it showed, and the device has raised exactly one
  interrupt. Text that does not parse changes nothing and raises none.
\<close>

theorem pci_attributes_roundtrip:
  assumes "kstrtol buf = (r, v)"
  shows "(r = 0 \<longrightarrow>
      (let d1 = snd (mmioval_store emu_iowrite32 kstrtol buf n d);
           d2 = snd (prtioval_store emu_iowrite32 kstrtol buf n d)
       in snd (mmioval_show emu_ioread32 d1) = ''mmioval show: '' @ dec (v mod 2 ^ 32) @ [CHR 0x0A] \<and>
          prtioval_show emu_ioread32 d1 = prtioval_show emu_ioread32 d \<and>
          snd (prtioval_show emu_ioread32 d2) = ''prtioval show : '' @ dec (v mod 2 ^ 32) @ [CHR 0x0A] \<and>
          mmioval_show emu_ioread32 d2 = mmioval_show emu_ioread32 d \<and>
          length (msi_vectors d1) = length (msi_vectors d) + 1 \<and>
          length (msi_vectors d2) = length (msi_vectors d) + 1)) \<and>
    (r \<noteq> 0 \<longrightarrow> mmioval_store emu_iowrite32 kstrtol buf n d = (r, d) \<and>
      prtioval_store emu_iowrite32 kstrtol buf n d = (r, d))"
  using assms emu.store_show_mmio [of kstrtol buf v n d] emu.store_show_prtio [of kstrtol buf v n d]
  by (simp add: mmioval_store_def prtioval_store_def Let_def)

theorem pci_attributes_roundtrip_witness:
  "snd (mmioval_show emu_ioread32 (snd (mmioval_store emu_iowrite32 (\<lambda>s. (0, - 1)) ''-1'' 2
     \<lparr>mmio_val = 0, prtio_val = 7, msi_vectors = []\<rparr>))) = ''mmioval show: '' @ dec 4294967295 @ [CHR 0x0A]"
  using pci_attributes_roundtrip [of "\<lambda>s. (0, - 1)" "''-1''" 0 "- 1" 2
      "\<lparr>mmio_val = 0, prtio_val = 7, msi_vectors = []\<rparr>"]
  by (simp add: Let_def)

definition pci_bound :: "pci_res list" where
  "pci_bound = [Pci_enabled, Pci_regions, Pci_map 0, Pci_map 1, Irq_vectors, Irq_line, Pci_sysfs]"

text \<open>
  C12. For every behaviour of the kernel the probe either succeeds with everything acquired, and the removal then
  gives everything back, or fails having given back what it acquired, with one exception: when exactly one of the two BARs
  cannot be mapped, the mapping of the other one is leaked, because the error path joins below the
  unmapping.
\<close>

theorem pci_probe_ledger:
  assumes "ktrace s = []" and "run_state pci_drv_probe s = (r, t)"
  shows "held pci_conv t = Some (
      if r = 0 then pci_bound
      else if failures pci_conv (ktrace t) = [Pci_map 0] then [Pci_map 1]
      else if failures pci_conv (ktrace t) = [Pci_map 1] then [Pci_map 0]
      else []) \<and>
    (r = 0 \<longrightarrow> failures pci_conv (ktrace t) = [] \<and> pci_drvdata t \<noteq> None \<and>
      held pci_conv (exec pci_drv_remove t) = Some [])"
  using assms unfolding ledger_eval
  by (simp add: pci_drv_probe_def pci_drv_remove_def pci_label_defs pci_bound_def split: if_splits; clarsimp)

definition pci_example :: pci_state where
  "pci_example = \<lparr>kres = (\<lambda>n c. case c of Get (Pci_map i) as \<Rightarrow> (if i = 1 then 0 else 1) | Do f as \<Rightarrow> 1 | _ \<Rightarrow> 0),
     kout = (\<lambda>n c. 0), ktrace = [], pci_drvdata = None\<rparr>"

theorem pci_probe_ledger_witness:
  "held pci_conv (exec pci_drv_probe pci_example) = Some [Pci_map 0]"
proof -
  have e: "ktrace pci_example = []" by (simp add: pci_example_def)
  obtain r t where rt: "run_state pci_drv_probe pci_example = (r, t)" by fastforce
  then have "r \<noteq> 0" "failures pci_conv (ktrace t) = [Pci_map 1]"
    by (auto simp: pci_drv_probe_def pci_label_defs pci_example_def)
  with pci_probe_ledger [OF e rt] rt show ?thesis by (simp add: exec_def)
qed

end
