(* ===== verification/Bindings.thy ===== *)
theory Bindings
  imports Plt_Same Gpio_Pulse Ds1307 Usb_Serial Pci_Drv
begin

text \<open>
  Which driver of the repository is given which device: the driver structures with their names and tables, and the rules of the
  buses. On the platform bus a driver fits a device when the device's node names a string of the driver's table, or when the
  two names are equal; a driver whose name is taken is refused (\<open>-EBUSY\<close>); and a device goes to the first driver that
  fits. The init functions of \<open>07\<close>, \<open>08\<close>, \<open>12\<close> and \<open>14\<close> do not look at the result of the registration, but
  each creates its class first, and a class whose name is taken is refused too (\<open>-EEXIST\<close>). At the end, the tables of
  the PCI and USB drivers.
\<close>

section \<open>The platform bus\<close>

record platform_drv =
  pd_name :: string
  pd_of_match_table :: "string list"

definition plt07_driver :: platform_drv where
  "plt07_driver = \<lparr>pd_name = ''plt-fifo-dev'', pd_of_match_table = []\<rparr>"

definition plt08_driver :: platform_drv where
  "plt08_driver = \<lparr>pd_name = ''plt-fifo-dev'', pd_of_match_table = []\<rparr>"

definition plt12_driver :: platform_drv where
  "plt12_driver = \<lparr>pd_name = ''plt-fifo-dev'', pd_of_match_table = pltdrv_dt_matchtbl_devcs\<rparr>"

definition gpiopulse_dt_matchtbl_devcs :: "string list" where
  "gpiopulse_dt_matchtbl_devcs = [''org,pltdrv-gpiopulse'']"

definition gpiopulse_driver :: platform_drv where
  "gpiopulse_driver = \<lparr>pd_name = ''plt-gpiopulse-dev'', pd_of_match_table = gpiopulse_dt_matchtbl_devcs\<rparr>"

text \<open>A device of the bus: its name and the \<open>compatible\<close> strings of its node, none if it has no node.\<close>

record bus_device =
  bv_name :: string
  bv_compatible :: "string list"

definition pltdevs_device :: bus_device where
  "pltdevs_device = \<lparr>bv_name = ''plt-fifo-dev'', bv_compatible = []\<rparr>"

definition platform_match :: "bus_device \<Rightarrow> platform_drv \<Rightarrow> bool" where
  "platform_match dev drv \<longleftrightarrow>
     list_ex (\<lambda>c. c \<in> set (pd_of_match_table drv)) (bv_compatible dev) \<or> bv_name dev = pd_name drv"

text \<open>The modules that register a platform driver, with the class each creates.\<close>

datatype plt_module = M07 | M08 | M12 | M14

fun driver_of :: "plt_module \<Rightarrow> platform_drv" where
  "driver_of M07 = plt07_driver"
| "driver_of M08 = plt08_driver"
| "driver_of M12 = plt12_driver"
| "driver_of M14 = gpiopulse_driver"

fun class_of :: "plt_module \<Rightarrow> string" where
  "class_of M07 = ''pltdrv-fifoclass''"
| "class_of M08 = ''pltdrv-fifoclass''"
| "class_of M12 = ''pltdrv-fifoclass''"
| "class_of M14 = ''pltdrv-gpiopulseclass''"

section \<open>Loading and unloading\<close>

abbreviation (input) EBUSY :: int where "EBUSY \<equiv> 16"
abbreviation (input) EEXIST :: int where "EEXIST \<equiv> 17"

text \<open>The modules that are loaded, the classes that exist, and the drivers the bus accepted, in their order.\<close>

record plt_bus =
  loaded :: "plt_module list"
  classes :: "string list"
  bus :: "plt_module list"

definition no_plt_modules :: plt_bus where
  "no_plt_modules = \<lparr>loaded = [], classes = [], bus = []\<rparr>"

definition platform_driver_register :: "plt_module \<Rightarrow> plt_bus \<Rightarrow> int \<times> plt_bus" where
  "platform_driver_register m s =
     (if list_ex (\<lambda>x. pd_name (driver_of x) = pd_name (driver_of m)) (bus s) then (- EBUSY, s)
      else (0, s\<lparr>bus := bus s @ [m]\<rparr>))"

datatype insmod_event = Insmod plt_module | Rmmod plt_module

text \<open>
  A load makes the class, registers the driver and succeeds whatever the registration says; an unload needs the module. This
  is the part of the init and exit functions that concerns names shared by the modules: the device numbers are allocated without
  a fixed number, and the other calls of the init functions are taken to succeed here (their failures are in the theories of the
  drivers).
\<close>

fun insmod_step :: "insmod_event \<Rightarrow> plt_bus \<Rightarrow> int \<times> plt_bus" where
  "insmod_step (Insmod m) s =
     (if class_of m \<in> set (classes s) then (- EEXIST, s)
      else (case platform_driver_register m (s\<lparr>classes := class_of m # classes s\<rparr>) of
        (ret, t) \<Rightarrow> (0, t\<lparr>loaded := loaded t @ [m]\<rparr>)))"
| "insmod_step (Rmmod m) s =
     (if m \<in> set (loaded s) then (0, \<lparr>loaded = remove1 m (loaded s), classes = remove1 (class_of m) (classes s),
        bus = remove1 m (bus s)\<rparr>)
      else (- ENOENT, s))"

fun insmod_steps :: "insmod_event list \<Rightarrow> plt_bus \<Rightarrow> int list \<times> plt_bus" where
  "insmod_steps [] s = ([], s)"
| "insmod_steps (e # es) s =
     (case insmod_step e s of (r, t) \<Rightarrow> (case insmod_steps es t of (rs, u) \<Rightarrow> (r # rs, u)))"

definition binds :: "plt_bus \<Rightarrow> bus_device \<Rightarrow> plt_module option" where
  "binds s dev = find (\<lambda>m. platform_match dev (driver_of m)) (bus s)"

lemmas driver_defs = plt07_driver_def plt08_driver_def plt12_driver_def gpiopulse_driver_def
  pltdrv_dt_matchtbl_devcs_def gpiopulse_dt_matchtbl_devcs_def

lemma same_name: "pd_name (driver_of m) = pd_name (driver_of n) \<longleftrightarrow> (m = M14 \<longleftrightarrow> n = M14)"
  by (cases m; cases n) (simp_all add: driver_defs)

lemma same_class: "class_of m = class_of n \<longleftrightarrow> (m = M14 \<longleftrightarrow> n = M14)"
  by (cases m; cases n) simp_all

text \<open>
  The names of classes and of drivers clash for the same modules, so the class refuses a module before the bus would: every
  loaded module has its driver on the bus, and there is at most one of the three FIFO drivers.
\<close>

definition bus_ok :: "plt_bus \<Rightarrow> bool" where
  "bus_ok s \<longleftrightarrow> bus s = loaded s \<and> mset (classes s) = mset (map class_of (loaded s)) \<and> distinct (classes s)"

lemma bus_ok_classes: "bus_ok s \<Longrightarrow> set (classes s) = class_of ` set (bus s)"
  unfolding bus_ok_def by (metis image_set set_mset_mset)

lemma register_free:
  "bus_ok s \<Longrightarrow> class_of m \<notin> set (classes s) \<Longrightarrow>
     platform_driver_register m (s\<lparr>classes := cs\<rparr>) = (0, s\<lparr>classes := cs, bus := bus s @ [m]\<rparr>)"
  by (simp add: bus_ok_classes platform_driver_register_def list_ex_iff image_iff same_name same_class)

lemma insmod_step_ok: "bus_ok s \<Longrightarrow> bus_ok (snd (insmod_step e s))"
proof (cases e)
  case (Insmod m)
  assume s: "bus_ok s"
  then show ?thesis
    by (cases "class_of m \<in> set (classes s)") (simp_all add: Insmod register_free bus_ok_def)
next
  case (Rmmod m)
  assume "bus_ok s"
  then show ?thesis
    by (simp add: Rmmod bus_ok_def image_mset_Diff)
qed

lemma insmod_steps_ok: "bus_ok s \<Longrightarrow> bus_ok (snd (insmod_steps es s))"
proof (induction es arbitrary: s)
  case (Cons e es)
  from Cons.IH [OF insmod_step_ok [OF Cons.prems, of e]] show ?case
    by (cases "insmod_step e s"; cases "insmod_steps es (snd (insmod_step e s))") simp
qed simp

lemma bus_ok_distinct: "bus_ok s \<Longrightarrow> distinct (map class_of (bus s))"
  unfolding bus_ok_def by (metis mset_eq_imp_distinct_iff)

lemma one_fifo:
  assumes "bus_ok s" and "m \<in> set (bus s)" and "n \<in> set (bus s)" and "m = M14 \<longleftrightarrow> n = M14"
  shows "m = n"
proof -
  have "inj_on class_of (set (bus s))" using bus_ok_distinct [OF assms(1)] by (simp only: distinct_map)
  moreover have "class_of m = class_of n" using assms(4) by (simp only: same_class)
  ultimately show ?thesis using assms(2,3) by (rule inj_onD)
qed

lemma find_unique:
  assumes "x \<in> set xs" and "P x" and "\<And>y. y \<in> set xs \<Longrightarrow> P y \<Longrightarrow> y = x"
  shows "find P xs = Some x"
proof (cases "find P xs")
  case None
  with assms(1,2) show ?thesis by (simp add: find_None_iff)
next
  case (Some y)
  then have "y \<in> set xs" "P y" by (auto simp: find_Some_iff)
  with assms(3) Some show ?thesis by simp
qed

text \<open>A device that fits only FIFO drivers, or only the pulse driver, binds to the one that is there.\<close>

lemma binds_iff:
  assumes "bus_ok s" and "\<And>m n. platform_match dev (driver_of m) \<Longrightarrow> platform_match dev (driver_of n) \<Longrightarrow> m = M14 \<longleftrightarrow> n = M14"
  shows "binds s dev = Some m \<longleftrightarrow> m \<in> set (loaded s) \<and> platform_match dev (driver_of m)"
proof
  assume "binds s dev = Some m"
  with assms(1) show "m \<in> set (loaded s) \<and> platform_match dev (driver_of m)"
    by (auto simp: binds_def find_Some_iff bus_ok_def)
next
  assume m: "m \<in> set (loaded s) \<and> platform_match dev (driver_of m)"
  show "binds s dev = Some m"
    unfolding binds_def
  proof (rule find_unique)
    show "m \<in> set (bus s)" using m assms(1) by (simp add: bus_ok_def)
    then show "y = m" if "y \<in> set (bus s)" "platform_match dev (driver_of y)" for y
      using one_fifo [OF assms(1), of y m] that m assms(2) by blast
  qed (use m in simp)
qed

lemma insmod_fifo:
  assumes "bus_ok s" and "m \<noteq> M14"
  shows "fst (insmod_step (Insmod m) s) = (if loaded s = [] \<or> loaded s = [M14] then 0 else - EEXIST)"
proof -
  have "class_of m \<in> set (classes s) \<longleftrightarrow> (\<exists>x\<in>set (loaded s). x \<noteq> M14)"
    using assms by (auto simp: bus_ok_classes image_iff same_class bus_ok_def)
  also have "\<dots> \<longleftrightarrow> \<not> (loaded s = [] \<or> loaded s = [M14])"
    using bus_ok_distinct [OF assms(1)] assms(1) by (cases "loaded s"; cases "tl (loaded s)") (auto simp: bus_ok_def same_class)
  finally have c: "class_of m \<in> set (classes s) \<longleftrightarrow> \<not> (loaded s = [] \<or> loaded s = [M14])" .
  show ?thesis
  proof (cases "class_of m \<in> set (classes s)")
    case False
    then show ?thesis using c register_free [OF assms(1) False] by simp
  qed (use c in simp)
qed

lemma match_fifo: "platform_match pltdevs_device (driver_of m) \<longleftrightarrow> m \<noteq> M14"
  by (cases m) (simp_all add: platform_match_def pltdevs_device_def driver_defs)

lemma match_node:
  "bv_name dev \<notin> {''plt-fifo-dev'', ''plt-gpiopulse-dev''} \<Longrightarrow> platform_match dev (driver_of m) \<longleftrightarrow>
     (m = M12 \<and> list_ex (\<lambda>c. c \<in> set pltdrv_dt_matchtbl_devcs) (bv_compatible dev)) \<or>
     (m = M14 \<and> ''org,pltdrv-gpiopulse'' \<in> set (bv_compatible dev))"
  by (cases m) (auto simp: platform_match_def driver_defs list_ex_iff)

section \<open>The PCI and USB tables\<close>

text \<open>\<open>usb_match_device\<close> and \<open>pci_match_one_device\<close> for the entries the drivers have: both numbers are equal.\<close>

definition id_match :: "(u16 \<times> u16) list \<Rightarrow> u16 \<Rightarrow> u16 \<Rightarrow> bool" where
  "id_match table vendor product \<longleftrightarrow> list_ex (\<lambda>(v, p). v = vendor \<and> p = product) table"

definition cp2102_id_table :: "(u16 \<times> u16) list" where
  "cp2102_id_table = [(0x10C4, 0xEA60)]"

definition pci_dev_table :: "(u16 \<times> u16) list" where
  "pci_dev_table = [(0x1234, 0xAABB)]"

lemma emulated_device_has_driver:
  "id_match pci_dev_table (vendor_id (pci_emu_dev_cls_init v)) (device_id (pci_emu_dev_cls_init v)) \<longleftrightarrow> v = 0x1234"
  by (auto simp: id_match_def pci_dev_table_def pci_emu_dev_cls_init_def CUSTOM_DEVICE_ID_def)

section \<open>Property\<close>

text \<open>
  C23. Whatever modules are loaded and unloaded, in any order: of \<open>07\<close>, \<open>08\<close> and \<open>12\<close> at most one is loaded, since they
  use the same class name, a second one being refused with \<open>-EEXIST\<close>; the devices of \<open>06\<close> bind to the one that is loaded,
  whichever it is; a device-tree FIFO binds to \<open>12\<close> and to nothing else, and a pulse node to \<open>14\<close>. The registration that
  nobody checks never fails. The emulated PCI device has its driver when QEMU's vendor number is 1234, and both USB
  drivers claim the same adapter.
\<close>

theorem drivers_bind:
  assumes "insmod_steps es no_plt_modules = (rs, s)" and "bv_name node \<notin> {''plt-fifo-dev'', ''plt-gpiopulse-dev''}"
    and "''org,pltdrv-gpiopulse'' \<in> set (bv_compatible node) \<longrightarrow>
      \<not> list_ex (\<lambda>c. c \<in> set pltdrv_dt_matchtbl_devcs) (bv_compatible node)"
  shows "bus s = loaded s \<and>
    (m \<in> set (loaded s) \<and> n \<in> set (loaded s) \<and> m \<noteq> M14 \<and> n \<noteq> M14 \<longrightarrow> m = n) \<and>
    (m \<noteq> M14 \<longrightarrow> fst (insmod_step (Insmod m) s) = (if loaded s = [] \<or> loaded s = [M14] then 0 else - EEXIST)) \<and>
    (binds s pltdevs_device = Some m \<longleftrightarrow> m \<in> set (loaded s) \<and> m \<noteq> M14) \<and>
    (binds s node = Some m \<longleftrightarrow> m \<in> set (loaded s) \<and>
       (m = M12 \<and> list_ex (\<lambda>c. c \<in> set pltdrv_dt_matchtbl_devcs) (bv_compatible node) \<or>
        m = M14 \<and> ''org,pltdrv-gpiopulse'' \<in> set (bv_compatible node))) \<and>
    (id_match pci_dev_table (vendor_id (pci_emu_dev_cls_init v)) (device_id (pci_emu_dev_cls_init v)) \<longleftrightarrow> v = 0x1234) \<and>
    (id_match usb_ttl_table v p \<longleftrightarrow> id_match cp2102_id_table v p)"
proof -
  have ok: "bus_ok s" using insmod_steps_ok [of no_plt_modules es] assms(1) by (simp add: bus_ok_def no_plt_modules_def)
  then have b: "bus s = loaded s" by (simp add: bus_ok_def)
  moreover have "m \<in> set (loaded s) \<and> n \<in> set (loaded s) \<and> m \<noteq> M14 \<and> n \<noteq> M14 \<longrightarrow> m = n"
    using one_fifo [OF ok, of m n] b by simp
  moreover have "binds s pltdevs_device = Some m \<longleftrightarrow> m \<in> set (loaded s) \<and> m \<noteq> M14"
    using binds_iff [OF ok, of pltdevs_device m] by (simp add: match_fifo)
  moreover have "binds s node = Some m \<longleftrightarrow> m \<in> set (loaded s) \<and>
       (m = M12 \<and> list_ex (\<lambda>c. c \<in> set pltdrv_dt_matchtbl_devcs) (bv_compatible node) \<or>
        m = M14 \<and> ''org,pltdrv-gpiopulse'' \<in> set (bv_compatible node))"
    using binds_iff [OF ok, of node m] assms(3) by (auto simp: match_node [OF assms(2)])
  moreover have "id_match usb_ttl_table v p \<longleftrightarrow> id_match cp2102_id_table v p"
    by (simp add: usb_ttl_table_def cp2102_id_table_def)
  ultimately show ?thesis
    using insmod_fifo [OF ok] emulated_device_has_driver by blast
qed

theorem drivers_bind_witness:
  "\<exists>s. insmod_steps [Insmod M07, Insmod M12, Insmod M14, Rmmod M07, Insmod M12] no_plt_modules = ([0, - EEXIST, 0, 0, 0], s) \<and>
     binds s \<lparr>bv_name = ''pltdrv-fifo-0'', bv_compatible = [''org,pltdrv-fifo-0'']\<rparr> = Some M12 \<and>
     fst (insmod_step (Insmod M08) s) = - EEXIST"
proof -
  let ?s = "\<lparr>loaded = [M14, M12], classes = [''pltdrv-fifoclass'', ''pltdrv-gpiopulseclass''], bus = [M14, M12]\<rparr>"
  let ?n = "\<lparr>bv_name = ''pltdrv-fifo-0'', bv_compatible = [''org,pltdrv-fifo-0'']\<rparr>"
  have s: "insmod_steps [Insmod M07, Insmod M12, Insmod M14, Rmmod M07, Insmod M12] no_plt_modules = ([0, - EEXIST, 0, 0, 0], ?s)"
    by (simp add: no_plt_modules_def platform_driver_register_def driver_defs)
  have "binds ?s ?n = Some M12"
    using drivers_bind [OF s, of ?n M12] by (simp add: driver_defs)
  moreover have "fst (insmod_step (Insmod M08) ?s) = - EEXIST"
    using drivers_bind [OF s, of ?n M08] by simp
  ultimately show ?thesis using s by blast
qed

end
