(* ===== verification/Ramdisk.thy ===== *)
theory Ramdisk
  imports Kernel_World
begin

text \<open>
  The RAM disk of \<open>21.ramdisk_blkdev/ramdisk_blk.c\<close>: the transfer of a request's segments, the queue
  function that calls it, and the set-up and removal of the disk. The data area is a list of bytes, a
  segment the bytes of its page range. Positions and lengths are 64-bit words, as \<open>loff_t\<close> and
  \<open>unsigned long\<close> are on a 64-bit machine, where their sum and its comparison are unsigned.
  A \<open>memcpy\<close> outside one of its buffers is \<open>None\<close>.
\<close>

section \<open>Requests\<close>

definition NR_SECTORS :: nat where "NR_SECTORS = 2048"
definition MEDIA_SECTOR_SIZE :: nat where "MEDIA_SECTOR_SIZE = 512"
definition KERN_SECTOR_SIZE :: nat where "KERN_SECTOR_SIZE = 512"

abbreviation media_size :: nat where "media_size \<equiv> NR_SECTORS * MEDIA_SECTOR_SIZE"

record request =
  blk_rq_pos :: u64
  rq_write :: bool
  rq_segments :: "byte list list"

definition memcpy_at :: "nat \<Rightarrow> byte list \<Rightarrow> nat \<Rightarrow> byte list \<Rightarrow> byte list option" where
  "memcpy_at off src n dst =
     (if n \<le> length src \<and> off + n \<le> length dst then Some (overwrite off (take n src) dst) else None)"

definition memcpy_from :: "nat \<Rightarrow> byte list \<Rightarrow> nat \<Rightarrow> byte list \<Rightarrow> byte list option" where
  "memcpy_from off src n dst =
     (if off + n \<le> length src \<and> n \<le> length dst then Some (overwrite 0 (take n (drop off src)) dst) else None)"

definition segment_len :: "u64 \<Rightarrow> byte list \<Rightarrow> u64" where
  "segment_len pos buf =
     (let b_len = of_nat (length buf); dev_size = of_nat media_size
      in if dev_size < pos + b_len then dev_size - pos else b_len)"

text \<open>The loop over the segments: the data area and the segments done so far.\<close>

fun rq_for_each_segment ::
    "bool \<Rightarrow> byte list list \<Rightarrow> u64 \<Rightarrow> byte list \<Rightarrow> (byte list \<times> byte list list) option" where
  "rq_for_each_segment oper [] pos data = Some (data, [])"
| "rq_for_each_segment oper (b_buf # bufs) pos data =
     (let b_len = segment_len pos b_buf
      in if oper
         then (case memcpy_at (unat pos) b_buf (unat b_len) data of
                 None \<Rightarrow> None
               | Some data' \<Rightarrow> (case rq_for_each_segment oper bufs (pos + b_len) data' of
                   None \<Rightarrow> None | Some (data'', bufs') \<Rightarrow> Some (data'', b_buf # bufs')))
         else (case memcpy_from (unat pos) data (unat b_len) b_buf of
                 None \<Rightarrow> None
               | Some b_buf' \<Rightarrow> (case rq_for_each_segment oper bufs (pos + b_len) data of
                   None \<Rightarrow> None | Some (data'', bufs') \<Rightarrow> Some (data'', b_buf' # bufs'))))"

definition request_handle :: "request \<Rightarrow> byte list \<Rightarrow> (int \<times> byte list \<times> byte list list) option" where
  "request_handle rq data =
     (case rq_for_each_segment (rq_write rq) (rq_segments rq) (push_bit 9 (blk_rq_pos rq)) data of
        None \<Rightarrow> None | Some (data', bufs') \<Rightarrow> Some (0, data', bufs'))"

datatype blk_status = BLK_STS_OK | BLK_STS_IOERR

definition ramdisk_blkdev_queue_rq ::
    "request \<Rightarrow> byte list \<Rightarrow> (blk_status \<times> byte list \<times> byte list list) option" where
  "ramdisk_blkdev_queue_rq rq data =
     (case request_handle rq data of
        None \<Rightarrow> None
      | Some (r, data', bufs') \<Rightarrow>
          Some (if r \<noteq> 0 then BLK_STS_IOERR else BLK_STS_OK, data', bufs'))"

section \<open>Setting the disk up and taking it down\<close>

datatype blk_res = Blk_priv | Blk_major | Blk_data | Blk_tags | Blk_disk | Blk_added

fun blk_won :: "blk_res \<Rightarrow> int \<Rightarrow> bool" where
  "blk_won Blk_priv v = (v \<noteq> 0)"
| "blk_won Blk_major v = (0 < v)"
| "blk_won Blk_data v = (v \<noteq> 0)"
| "blk_won Blk_tags v = (v = 0)"
| "blk_won Blk_disk v = (\<not> IS_ERR v)"
| "blk_won Blk_added v = (v = 0)"

fun blk_lax :: "blk_res \<Rightarrow> bool" where
  "blk_lax Blk_priv = True"
| "blk_lax Blk_data = True"
| "blk_lax r = False"

definition blk_conv :: "blk_res convention" where
  "blk_conv = \<lparr>won = blk_won, lax = blk_lax\<rparr>"

lemma blk_conv_simps [simp]: "won blk_conv = blk_won" "lax blk_conv = blk_lax"
  by (simp_all add: blk_conv_def)

text \<open>The global \<open>blk_prv\<close>, with \<open>NULL\<close> as \<open>None\<close>; \<open>blkdev\<close> is the block device of the last open.\<close>

record blk_priv_dev =
  major :: int
  capacity :: nat
  gdisk :: int
  blkdev :: int

record blk_state = "blk_res kworld" +
  blk_prv :: "blk_priv_dev option"

definition upd_blk :: "(blk_priv_dev \<Rightarrow> blk_priv_dev) \<Rightarrow> (blk_state, unit) state" where
  "upd_blk f = modify (\<lambda>s. s\<lparr>blk_prv := map_option f (blk_prv s)\<rparr>)"

definition ramdisk_blkdev_open :: "int \<Rightarrow> (blk_state, int) state" where
  "ramdisk_blkdev_open dev = do { upd_blk (\<lambda>p. p\<lparr>blkdev := dev\<rparr>); return 0 }"

definition ramdisk_blkdev_release :: "(blk_state, unit) state" where
  "ramdisk_blkdev_release = return ()"

definition ramdisk_blkdev_ioctl :: "int \<Rightarrow> int \<Rightarrow> int" where
  "ramdisk_blkdev_ioctl cmd arg = - ENOTTY"

definition blk_err_alloc :: "int \<Rightarrow> (blk_state, int) state" where
  "blk_err_alloc ret = do { call (Put Blk_major); call (Put Blk_priv); return ret }"

definition blk_err_alloc_tag :: "int \<Rightarrow> (blk_state, int) state" where
  "blk_err_alloc_tag ret = do { call (Put Blk_data); blk_err_alloc ret }"

definition blk_err_mq_alloc :: "int \<Rightarrow> (blk_state, int) state" where
  "blk_err_mq_alloc ret = do { call (Put Blk_tags); blk_err_alloc_tag ret }"

definition blk_err_add_disk :: "int \<Rightarrow> (blk_state, int) state" where
  "blk_err_add_disk ret = do { call (Put Blk_added); blk_err_mq_alloc ret }"

definition setup_rmablkdev :: "int \<Rightarrow> (blk_state, int) state" where
  "setup_rmablkdev maj = do {
     data \<leftarrow> call (Get Blk_data [int media_size]);
     if data = 0 then blk_err_alloc (- ENOMEM)
     else do {
       ret \<leftarrow> call (Get Blk_tags []);
       if ret \<noteq> 0 then blk_err_alloc_tag ret
       else do {
         disk \<leftarrow> call (Get Blk_disk []);
         upd_blk (\<lambda>p. p\<lparr>gdisk := disk\<rparr>);
         if IS_ERR disk then blk_err_mq_alloc (PTR_ERR disk)
         else do {
           upd_blk (\<lambda>p. p\<lparr>capacity := NR_SECTORS * (MEDIA_SECTOR_SIZE div KERN_SECTOR_SIZE)\<rparr>);
           call (Do ''set_capacity'' [int (NR_SECTORS * (MEDIA_SECTOR_SIZE div KERN_SECTOR_SIZE))]);
           ret \<leftarrow> call (Get Blk_added []);
           if ret \<noteq> 0 then blk_err_add_disk ret else return 0
         }}}}"

text \<open>
  \<open>ramdisk_blkdev_init\<close> stores through \<open>blk_prv\<close> before it tests it: with no memory it dereferences
  \<open>NULL\<close>, logged as \<open>oops\<close>.
\<close>

definition ramdisk_blkdev_init :: "(blk_state, int) state" where
  "ramdisk_blkdev_init = do {
     mem \<leftarrow> call (Get Blk_priv []);
     if mem = 0 then do { modify (\<lambda>s. s\<lparr>blk_prv := None\<rparr>); call (Get Blk_major [0]); call (Do ''oops'' []); return (- ENOMEM) }
     else do {
       modify (\<lambda>s. s\<lparr>blk_prv := Some \<lparr>major = 0, capacity = 0, gdisk = 0, blkdev = 0\<rparr>\<rparr>);
       maj \<leftarrow> call (Get Blk_major [0]);
       upd_blk (\<lambda>p. p\<lparr>major := maj\<rparr>);
       setup_rmablkdev maj
     }}"

text \<open>\<open>bdev_is_partition\<close> dereferences its argument.\<close>

definition ramdisk_blkdev_exit :: "(blk_state, unit) state" where
  "ramdisk_blkdev_exit = do {
     ptr \<leftarrow> gets blk_prv;
     (case ptr of
        None \<Rightarrow> return ()
      | Some prv \<Rightarrow> do {
          (if gdisk prv \<noteq> 0 then do { call (Put Blk_added); return () } else return ());
          call (Put Blk_tags);
          (if blkdev prv = 0 then do { call (Do ''oops'' []); return () }
           else do {
             part \<leftarrow> call (Do ''bdev_is_partition'' [blkdev prv]);
             (if part \<noteq> 0 then do { call (Do ''blkdev_put'' [blkdev prv]); return () } else return ())
           });
          call (Put Blk_data);
          call (Put Blk_major);
          call (Put Blk_priv);
          return ()
        })
   }"

lemmas blk_label_defs = blk_err_alloc_def blk_err_alloc_tag_def blk_err_mq_alloc_def
  blk_err_add_disk_def setup_rmablkdev_def upd_blk_def

section \<open>The transfer is a window on a flat array\<close>

lemma media_size_eq [simp]: "media_size = 1048576"
  by (simp add: NR_SECTORS_def MEDIA_SECTOR_SIZE_def)

lemma media_size_word [simp]: "(of_nat NR_SECTORS * of_nat MEDIA_SECTOR_SIZE :: u64) = 1048576"
  by (simp add: NR_SECTORS_def MEDIA_SECTOR_SIZE_def)

lemma segment_len_window:
  assumes "unat pos \<le> media_size" and "length b < 2 ^ 32"
  shows "unat (segment_len pos b) = min (length b) (media_size - unat pos)"
    and "unat (pos + segment_len pos b) = unat pos + min (length b) (media_size - unat pos)"
proof -
  have l: "unat (of_nat (length b) :: u64) = length b"
    using assms(2) by (simp add: unsigned_of_nat take_bit_nat_eq_self_iff)
  have s: "unat (pos + of_nat (length b)) = unat pos + length b"
    using assms l by (subst unat_add_lem [THEN iffD1]) simp_all
  have d: "unat (1048576 - pos) = 1048576 - unat pos"
    using assms(1) by (subst unat_sub) (simp_all add: word_le_nat_alt)
  show a: "unat (segment_len pos b) = min (length b) (media_size - unat pos)"
    using assms s d l by (auto simp: segment_len_def Let_def word_less_nat_alt)
  show "unat (pos + segment_len pos b) = unat pos + min (length b) (media_size - unat pos)"
    using assms a by (subst unat_add_lem [THEN iffD1]) simp_all
qed

lemma rq_write_window:
  assumes "length data = media_size" and "unat pos \<le> media_size" and "\<forall>b\<in>set bufs. length b < 2 ^ 32"
  shows "rq_for_each_segment True bufs pos data =
    Some (overwrite (unat pos) (take (media_size - unat pos) (concat bufs)) data, bufs)"
  using assms
proof (induction bufs arbitrary: pos data)
  case Nil
  then show ?case by simp
next
  case (Cons b bufs)
  let ?n = "min (length b) (media_size - unat pos)"
  let ?d = "overwrite (unat pos) (take ?n b) data"
  note w = segment_len_window [OF Cons.prems(2), of b]
  have b: "length b < 2 ^ 32" using Cons.prems(3) by simp
  have m: "memcpy_at (unat pos) b (unat (segment_len pos b)) data = Some ?d"
    using Cons.prems(1,2) w(1) [OF b] by (simp add: memcpy_at_def)
  have "rq_for_each_segment True bufs (pos + segment_len pos b) ?d =
    Some (overwrite (unat pos + ?n) (take (media_size - (unat pos + ?n)) (concat bufs)) ?d, bufs)"
    using Cons.IH [of ?d "pos + segment_len pos b"] Cons.prems w(2) [OF b] by simp
  moreover have "overwrite (unat pos + ?n) (take (media_size - (unat pos + ?n)) (concat bufs)) ?d =
    overwrite (unat pos) (take (media_size - unat pos) (concat (b # bufs))) data"
  proof (cases "length b \<le> media_size - unat pos")
    case True
    have "unat pos + length b + length (take (media_size - (unat pos + length b)) (concat bufs)) \<le> length data"
      using Cons.prems(1,2) True by simp
    from overwrite_append [OF this] True show ?thesis by (simp add: min_def)
  next
    case False
    then show ?thesis by (simp add: min_def)
  qed
  ultimately show ?case using m by simp
qed

lemma rq_read_window:
  assumes "length data = media_size" and "unat pos \<le> media_size" and "\<forall>b\<in>set bufs. length b < 2 ^ 32"
  shows "\<exists>bufs'. rq_for_each_segment False bufs pos data = Some (data, bufs') \<and>
    map length bufs' = map length bufs \<and>
    concat bufs' = take (length (concat bufs)) (drop (unat pos) data) @ drop (media_size - unat pos) (concat bufs)"
  using assms
proof (induction bufs arbitrary: pos)
  case Nil
  then show ?case by simp
next
  case (Cons b bufs)
  let ?n = "min (length b) (media_size - unat pos)"
  let ?b = "overwrite 0 (take ?n (drop (unat pos) data)) b"
  have b: "length b < 2 ^ 32" using Cons.prems(3) by simp
  note w = segment_len_window [OF Cons.prems(2) b]
  have m: "memcpy_from (unat pos) data (unat (segment_len pos b)) b = Some ?b"
    using Cons.prems(1,2) w(1) by (simp add: memcpy_from_def)
  have "unat (pos + segment_len pos b) \<le> media_size" using w(2) Cons.prems(2) by simp
  from Cons.IH [OF Cons.prems(1) this] Cons.prems(3) w(2)
  obtain bufs' where r: "rq_for_each_segment False bufs (pos + segment_len pos b) data = Some (data, bufs')"
    "map length bufs' = map length bufs"
    "concat bufs' = take (length (concat bufs)) (drop (unat pos + ?n) data) @
       drop (media_size - (unat pos + ?n)) (concat bufs)"
    by auto
  have "?b @ concat bufs' =
    take (length (concat (b # bufs))) (drop (unat pos) data) @ drop (media_size - unat pos) (concat (b # bufs))"
    using r(3) Cons.prems(1,2)
    by (auto simp: overwrite_def min_def take_add add.commute split: if_splits)
  moreover have "length ?b = length b" using Cons.prems(1,2) by simp
  ultimately show ?case using m r by simp
qed

section \<open>Properties\<close>

lemma pos_of_sector:
  "unat sec \<le> NR_SECTORS \<Longrightarrow> unat (push_bit 9 sec :: u64) = MEDIA_SECTOR_SIZE * unat sec"
  by (simp add: push_bit_eq_mult NR_SECTORS_def MEDIA_SECTOR_SIZE_def unat_word_ariths)

lemma request_is_window_aux:
  assumes "length data = media_size" and "unat (blk_rq_pos rq) \<le> NR_SECTORS"
    and "\<forall>b\<in>set (rq_segments rq). length b < 2 ^ 32"
  shows "\<exists>data' bufs'. ramdisk_blkdev_queue_rq rq data = Some (BLK_STS_OK, data', bufs') \<and>
    (let pos = MEDIA_SECTOR_SIZE * unat (blk_rq_pos rq); bytes = concat (rq_segments rq)
     in if rq_write rq
        then bufs' = rq_segments rq \<and> data' = overwrite pos (take (media_size - pos) bytes) data
        else data' = data \<and> map length bufs' = map length (rq_segments rq) \<and>
          concat bufs' = take (length bytes) (drop pos data) @ drop (media_size - pos) bytes)"
proof -
  let ?pos = "push_bit 9 (blk_rq_pos rq) :: u64"
  have p: "unat ?pos = MEDIA_SECTOR_SIZE * unat (blk_rq_pos rq)" by (rule pos_of_sector [OF assms(2)])
  then have le: "unat ?pos \<le> media_size"
    using assms(2) by (simp add: NR_SECTORS_def MEDIA_SECTOR_SIZE_def)
  show ?thesis
  proof (cases "rq_write rq")
    case True
    with rq_write_window [OF assms(1) le assms(3)] p show ?thesis
      by (simp add: ramdisk_blkdev_queue_rq_def request_handle_def Let_def)
  next
    case False
    from rq_read_window [OF assms(1) le assms(3)] obtain bufs' where
      "rq_for_each_segment False (rq_segments rq) ?pos data = Some (data, bufs')"
      "map length bufs' = map length (rq_segments rq)"
      "concat bufs' = take (length (concat (rq_segments rq))) (drop (unat ?pos) data) @
         drop (media_size - unat ?pos) (concat (rq_segments rq))"
      by blast
    with False p show ?thesis
      by (simp add: ramdisk_blkdev_queue_rq_def request_handle_def Let_def)
  qed
qed

text \<open>
  The clamp does not protect a request that starts behind the end: the difference to the end is negative, taken as an
  unsigned length it is huge.
\<close>

lemma request_behind_end:
  assumes "length data = media_size" and "NR_SECTORS < unat (blk_rq_pos rq)"
    and "unat (blk_rq_pos rq) < 2 ^ 50" and "rq_segments rq \<noteq> []"
    and "\<forall>b\<in>set (rq_segments rq). length b < 2 ^ 32"
  shows "ramdisk_blkdev_queue_rq rq data = None"
proof -
  let ?pos = "push_bit 9 (blk_rq_pos rq) :: u64"
  obtain b bs where segs: "rq_segments rq = b # bs" using assms(4) by (cases "rq_segments rq") auto
  then have b: "length b < 2 ^ 32" using assms(5) by simp
  have p: "unat ?pos = 512 * unat (blk_rq_pos rq)"
    using assms(3) by (simp add: push_bit_eq_mult unat_word_ariths)
  then have big: "media_size < unat ?pos" "unat ?pos < 2 ^ 59"
    using assms(2,3) by (simp_all add: NR_SECTORS_def MEDIA_SECTOR_SIZE_def)
  have l: "unat (of_nat (length b) :: u64) = length b"
    using b by (simp add: unsigned_of_nat take_bit_nat_eq_self_iff)
  have "unat (?pos + of_nat (length b)) = unat ?pos + length b"
    using big b l by (subst unat_add_lem [THEN iffD1]) simp_all
  then have "segment_len ?pos b = 1048576 - ?pos"
    using big by (simp add: segment_len_def word_less_nat_alt)
  moreover have "unat (1048576 - ?pos) = 2 ^ 64 + 1048576 - unat ?pos"
    using big by (subst unat_sub_if_size) (simp add: word_size word_le_nat_alt)
  ultimately have huge: "2 ^ 63 < unat (segment_len ?pos b)" using big by simp
  have "memcpy_at (unat ?pos) b (unat (segment_len ?pos b)) data = None"
    "memcpy_from (unat ?pos) data (unat (segment_len ?pos b)) b = None"
    using huge b by (simp_all add: memcpy_at_def memcpy_from_def)
  then show ?thesis
    by (simp add: ramdisk_blkdev_queue_rq_def request_handle_def segs Let_def)
qed

text \<open>
  C2. A request that starts within the disk never touches memory outside its buffers and succeeds. A write
  stores the bytes of its segments, in order, at the byte position of its sector, up to the end of the disk, and
  changes nothing else; a read fills its segments with the bytes from there, up to the end of the disk, leaves the rest
  of the buffers as it was and changes no data. What lies beyond the end is dropped without an error. A request
  that starts behind the end runs outside its buffers: the driver relies on the block layer to refuse it.
\<close>

theorem request_is_window:
  assumes "length data = media_size" and "\<forall>b\<in>set (rq_segments rq). length b < 2 ^ 32"
  shows "(unat (blk_rq_pos rq) \<le> NR_SECTORS \<longrightarrow>
      (\<exists>data' bufs'. ramdisk_blkdev_queue_rq rq data = Some (BLK_STS_OK, data', bufs') \<and>
      (let pos = MEDIA_SECTOR_SIZE * unat (blk_rq_pos rq); bytes = concat (rq_segments rq)
       in if rq_write rq
          then bufs' = rq_segments rq \<and> data' = overwrite pos (take (media_size - pos) bytes) data
          else data' = data \<and> map length bufs' = map length (rq_segments rq) \<and>
            concat bufs' = take (length bytes) (drop pos data) @ drop (media_size - pos) bytes))) \<and>
    (NR_SECTORS < unat (blk_rq_pos rq) \<and> unat (blk_rq_pos rq) < 2 ^ 50 \<and> rq_segments rq \<noteq> [] \<longrightarrow>
      ramdisk_blkdev_queue_rq rq data = None)"
  using request_is_window_aux [OF assms(1) _ assms(2)] request_behind_end [OF assms(1) _ _ _ assms(2)]
  by blast

definition zero_disk :: "byte list" where
  "zero_disk = replicate media_size 0"

lemma length_zero_disk: "length zero_disk = media_size"
  by (simp add: zero_disk_def)

theorem request_is_window_witness:
  "\<exists>data' bufs'. ramdisk_blkdev_queue_rq \<lparr>blk_rq_pos = 3, rq_write = True, rq_segments = [[1, 2], [3]]\<rparr> zero_disk =
     Some (BLK_STS_OK, data', bufs') \<and> data' = overwrite 1536 [1, 2, 3] zero_disk"
  using request_is_window [OF length_zero_disk,
      of "\<lparr>blk_rq_pos = 3, rq_write = True, rq_segments = [[1, 2], [3]]\<rparr>"]
  by (auto simp: NR_SECTORS_def MEDIA_SECTOR_SIZE_def Let_def)

text \<open>
  What a write request stored, a later read request of the same sector returns, however either request splits
  its bytes into segments, as long as the range lies on the disk.
\<close>

theorem ramdisk_read_after_write:
  assumes "length data = media_size" and "unat sec \<le> NR_SECTORS"
    and "\<forall>b\<in>set ws \<union> set rs. length b < 2 ^ 32"
    and "MEDIA_SECTOR_SIZE * unat sec + length (concat ws) \<le> media_size"
    and "length (concat rs) = length (concat ws)"
  shows "\<exists>data' bufs'.
    ramdisk_blkdev_queue_rq \<lparr>blk_rq_pos = sec, rq_write = True, rq_segments = ws\<rparr> data = Some (BLK_STS_OK, data', ws) \<and>
    ramdisk_blkdev_queue_rq \<lparr>blk_rq_pos = sec, rq_write = False, rq_segments = rs\<rparr> data' = Some (BLK_STS_OK, data', bufs') \<and>
    concat bufs' = concat ws"
proof -
  let ?w = "\<lparr>blk_rq_pos = sec, rq_write = True, rq_segments = ws\<rparr>"
  let ?r = "\<lparr>blk_rq_pos = sec, rq_write = False, rq_segments = rs\<rparr>"
  let ?pos = "MEDIA_SECTOR_SIZE * unat sec"
  let ?d = "overwrite ?pos (concat ws) data"
  have w: "ramdisk_blkdev_queue_rq ?w data = Some (BLK_STS_OK, ?d, ws)"
    using request_is_window_aux [OF assms(1), of ?w] assms by (simp add: Let_def)
  have "length ?d = media_size" using assms(1,4) by simp
  from request_is_window_aux [OF this, of ?r] assms obtain bufs' where
    "ramdisk_blkdev_queue_rq ?r ?d = Some (BLK_STS_OK, ?d, bufs')"
    "concat bufs' = take (length (concat ws)) (drop ?pos ?d) @ drop (media_size - ?pos) (concat rs)"
    by (auto simp: Let_def)
  moreover have "take (length (concat ws)) (drop ?pos ?d) = concat ws"
    using assms(1,4) by simp
  ultimately show ?thesis using w assms(4,5) by auto
qed

theorem ramdisk_read_after_write_witness:
  "\<exists>data' bufs'.
    ramdisk_blkdev_queue_rq \<lparr>blk_rq_pos = 2047, rq_write = True, rq_segments = [[1, 2], [3]]\<rparr> zero_disk =
      Some (BLK_STS_OK, data', [[1, 2], [3]]) \<and>
    ramdisk_blkdev_queue_rq \<lparr>blk_rq_pos = 2047, rq_write = False, rq_segments = [[0], [0, 0]]\<rparr> data' =
      Some (BLK_STS_OK, data', bufs') \<and> concat bufs' = [1, 2, 3]"
  using ramdisk_read_after_write [OF length_zero_disk, of 2047 "[[1, 2], [3]]" "[[0], [0, 0]]"]
  by (simp add: NR_SECTORS_def MEDIA_SECTOR_SIZE_def)

text \<open>What a load in which nothing fails acquires.\<close>

definition blk_loaded :: "blk_res list" where
  "blk_loaded = [Blk_priv, Blk_major, Blk_data, Blk_tags, Blk_disk, Blk_added]"


definition blk_example :: blk_state where
  "blk_example = \<lparr>kres = (\<lambda>n c. case c of Get Blk_tags as \<Rightarrow> 0 | Get Blk_added as \<Rightarrow> 0 | _ \<Rightarrow> 1),
     kout = (\<lambda>n c. 0), ktrace = [], blk_prv = None\<rparr>"


end
