(* ===== verification/Host_Kvm.thy ===== *)
theory Host_Kvm
  imports Kernel_World
begin

text \<open>
  The host program of \<open>kvm/host-kvm-example/host_kvm_simple.c\<close>: it opens \<open>/dev/kvm\<close> and a guest image, gives a
  virtual machine a gigabyte of memory with the image at its start, sets up one processor and runs it.
  The reads of the image and the exits of the guest are parameters: \<open>reads\<close> lists what each
  \<open>read\<close> returns (with the bytes it stores), \<open>exits\<close> what each \<open>KVM_RUN\<close> returns (with the exit reason and the value at the exchange
  offset). When \<open>exits\<close> is used up the guest is still running. File descriptors and mappings are
  resources of the ledger; a pointer from \<open>mmap\<close> is its integer value, -1 for \<open>MAP_FAILED\<close>.
\<close>

section \<open>Loading the image\<close>

definition E_OK :: int where "E_OK = 0"
definition E_NOT_OK :: int where "E_NOT_OK = 1"

definition guest_mem_size :: nat where "guest_mem_size = 2 ^ 30"

type_synonym guest_mem = "nat \<Rightarrow> byte"

definition store_chunk :: "nat \<Rightarrow> byte list \<Rightarrow> guest_mem \<Rightarrow> guest_mem" where
  "store_chunk p bs m = (\<lambda>x. if p \<le> x \<and> x < p + length bs then bs ! (x - p) else m x)"

text \<open>\<open>None\<close>: a chunk runs past the end of the mapping.\<close>

fun cp_guest_img :: "(int \<times> byte list) list \<Rightarrow> nat \<Rightarrow> guest_mem \<Rightarrow> guest_mem option" where
  "cp_guest_img [] p m = Some m"
| "cp_guest_img ((r, bs) # reads) p m =
     (if r \<le> 0 then Some m
      else if guest_mem_size < p + nat r then None
      else cp_guest_img reads (p + nat r) (store_chunk p (take (nat r) bs) m))"

section \<open>The run loop\<close>

datatype kvm_exit = KVM_EXIT_IO | KVM_EXIT_SHUTDOWN | KVM_EXIT_OTHER

text \<open>
  The loop declares a second \<open>ret\<close> inside its body; both error branches assign that one, while the function returns
  the outer one, which keeps \<open>E_OK\<close>. The result is the value returned, if the loop ends, and the values printed.
\<close>

fun run_loop :: "int \<Rightarrow> (int \<times> kvm_exit \<times> u32) list \<Rightarrow> int option \<times> u32 list" where
  "run_loop ret [] = (None, [])"
| "run_loop ret ((r, reason, val) # exits) =
     (if r < 0 then (let inner_ret = E_NOT_OK in (Some ret, []))
      else case reason of
        KVM_EXIT_IO \<Rightarrow> (case run_loop ret exits of (res, out) \<Rightarrow> (res, val # out))
      | KVM_EXIT_SHUTDOWN \<Rightarrow> (let inner_ret = E_NOT_OK in (Some ret, []))
      | KVM_EXIT_OTHER \<Rightarrow> run_loop ret exits)"

definition run_and_emulate :: "(int \<times> kvm_exit \<times> u32) list \<Rightarrow> int option \<times> u32 list" where
  "run_and_emulate exits = run_loop E_OK exits"

section \<open>Setting up the machine\<close>

datatype kvm_res = Kvm_fd | Img_fd | Vm_fd | Vcpu_fd | Guest_map | Run_map

fun kvm_won :: "kvm_res \<Rightarrow> int \<Rightarrow> bool" where
  "kvm_won Guest_map v = (v \<noteq> - 1)"
| "kvm_won Run_map v = (v \<noteq> - 1)"
| "kvm_won r v = (0 \<le> v)"

definition kvm_conv :: "kvm_res convention" where
  "kvm_conv = \<lparr>won = kvm_won, lax = (\<lambda>r. False)\<rparr>"

lemma kvm_conv_simps [simp]: "won kvm_conv = kvm_won" "lax kvm_conv = (\<lambda>r. False)"
  by (simp_all add: kvm_conv_def)

text \<open>The registers the program sets; of the segment registers only the base of the code segment is kept.\<close>

record vcpu =
  rip :: u64
  rflags :: u64
  cs_base :: u64

record kvm_state = "kvm_res kworld" +
  kv_mem :: "guest_mem option"
  kv_vcpu :: vcpu
  kv_out :: "u32 list"

definition vm_setup :: "(int \<times> byte list) list \<Rightarrow> (kvm_state, int) state" where
  "vm_setup reads = do {
     vm_fd \<leftarrow> call (Get Vm_fd []);
     if vm_fd < 0 then return E_NOT_OK
     else do {
       mem \<leftarrow> call (Get Guest_map [2 ^ 30]);
       if mem = 0 then return E_NOT_OK
       else do {
         r \<leftarrow> call (Do ''KVM_SET_USER_MEMORY_REGION'' [0, 0, 2 ^ 30, mem]);
         if r < 0 then return E_NOT_OK
         else do {
           modify (\<lambda>s. s\<lparr>kv_mem := cp_guest_img reads 0 (\<lambda>x. 0)\<rparr>);
           return E_OK
         }}}}"

text \<open>\<open>KVM_GET_SREGS\<close> overwrites the zeroed segment registers with those of the processor.\<close>

definition vcpu_reg :: "(kvm_state, int) state" where
  "vcpu_reg = do {
     r \<leftarrow> call (Do ''KVM_GET_SREGS'' []);
     if r < 0 then return E_NOT_OK
     else do {
       v \<leftarrow> gets kv_vcpu;
       let sregs_cs_base = cs_base v;
       r \<leftarrow> call (Do ''KVM_SET_SREGS'' []);
       if r < 0 then return E_NOT_OK
       else do {
         modify (\<lambda>s. s\<lparr>kv_vcpu := (kv_vcpu s)\<lparr>cs_base := sregs_cs_base\<rparr>\<rparr>);
         r \<leftarrow> call (Do ''KVM_SET_REGS'' []);
         if r < 0 then return E_NOT_OK
         else do {
           modify (\<lambda>s. s\<lparr>kv_vcpu := (kv_vcpu s)\<lparr>rip := 0, rflags := 2\<rparr>\<rparr>);
           return E_OK
         }}}}"

definition vcpu_setup :: "(kvm_state, int) state" where
  "vcpu_setup = do {
     vcpu_fd \<leftarrow> call (Get Vcpu_fd []);
     if vcpu_fd < 0 then return E_NOT_OK
     else do {
       kvm_run_mmap_size \<leftarrow> call (Do ''KVM_GET_VCPU_MMAP_SIZE'' []);
       if kvm_run_mmap_size < 0 then return E_NOT_OK
       else do {
         run \<leftarrow> call (Get Run_map [kvm_run_mmap_size]);
         if run = 0 then return E_NOT_OK else vcpu_reg
       }}}"

definition kvm_close_kvm :: "int option \<Rightarrow> (kvm_state, int option) state" where
  "kvm_close_kvm ret = do { call (Put Kvm_fd); return ret }"

definition kvm_close :: "int option \<Rightarrow> (kvm_state, int option) state" where
  "kvm_close ret = do { call (Put Img_fd); kvm_close_kvm ret }"

text \<open>\<open>main\<close>: its exit status, or \<open>None\<close> while the guest is running.\<close>

definition kvm_main ::
    "(int \<times> byte list) list \<Rightarrow> (int \<times> kvm_exit \<times> u32) list \<Rightarrow> (kvm_state, int option) state" where
  "kvm_main reads exits = do {
     kvm_fd \<leftarrow> call (Get Kvm_fd []);
     if kvm_fd < 0 then return (Some E_NOT_OK)
     else do {
       img_fd \<leftarrow> call (Get Img_fd []);
       if img_fd < 0 then kvm_close_kvm (Some E_NOT_OK)
       else do {
         ret \<leftarrow> vm_setup reads;
         if ret \<noteq> 0 then kvm_close (Some ret)
         else do {
           ret \<leftarrow> vcpu_setup;
           if ret \<noteq> 0 then kvm_close (Some ret)
           else (case run_and_emulate exits of
                   (None, out) \<Rightarrow> do { modify (\<lambda>s. s\<lparr>kv_out := kv_out s @ out\<rparr>); return None }
                 | (Some ret, out) \<Rightarrow> do { modify (\<lambda>s. s\<lparr>kv_out := kv_out s @ out\<rparr>); kvm_close (Some ret) })
         }}}}"

lemmas kvm_defs = vm_setup_def vcpu_reg_def vcpu_setup_def kvm_close_kvm_def kvm_close_def E_OK_def E_NOT_OK_def

section \<open>Loading\<close>

definition image_of :: "(int \<times> byte list) list \<Rightarrow> byte list" where
  "image_of reads = concat (map snd (takeWhile (\<lambda>x. 0 < fst x) reads))"

lemma cp_guest_img_exact:
  "\<forall>(r, bs)\<in>set reads. length bs = nat r \<Longrightarrow> p + length (image_of reads) \<le> guest_mem_size \<Longrightarrow>
     cp_guest_img reads p m = Some (store_chunk p (image_of reads) m)"
proof (induction reads p m rule: cp_guest_img.induct)
  case (1 p m)
  then show ?case by (auto simp: image_of_def store_chunk_def fun_eq_iff)
next
  case (2 r bs reads p m)
  show ?case
  proof (cases "r \<le> 0")
    case True
    then show ?thesis by (auto simp: image_of_def store_chunk_def fun_eq_iff)
  next
    case False
    have img: "image_of ((r, bs) # reads) = bs @ image_of reads" using False by (simp add: image_of_def)
    have l: "length bs = nat r" using 2(2) by simp
    have fits: "\<not> guest_mem_size < p + nat r" "p + nat r + length (image_of reads) \<le> guest_mem_size"
      using 2(3) img l by auto
    have s: "store_chunk (p + nat r) (image_of reads) (store_chunk p bs m) =
        store_chunk p (bs @ image_of reads) m"
      using l by (auto simp: store_chunk_def fun_eq_iff nth_append)
    show ?thesis
      using 2(1) [OF False fits(1)] 2(2) fits False l img s by auto
  qed
qed

lemma cp_guest_img_overrun:
  "\<forall>(r, bs)\<in>set reads. length bs = nat r \<Longrightarrow> p \<le> guest_mem_size \<Longrightarrow>
     guest_mem_size < p + length (image_of reads) \<Longrightarrow> cp_guest_img reads p m = None"
  by (induction reads p m rule: cp_guest_img.induct) (auto simp: image_of_def split: if_splits)

text \<open>The loop ends exactly when an exit fails or shuts down, and prints what came before.\<close>

definition stops :: "int \<times> kvm_exit \<times> u32 \<Rightarrow> bool" where
  "stops x \<longleftrightarrow> fst x < 0 \<or> fst (snd x) = KVM_EXIT_SHUTDOWN"

definition printed :: "(int \<times> kvm_exit \<times> u32) list \<Rightarrow> u32 list" where
  "printed exits = map (snd \<circ> snd) (filter (\<lambda>x. fst (snd x) = KVM_EXIT_IO) (takeWhile (\<lambda>x. \<not> stops x) exits))"

lemma stops_simp: "stops (r, e, v) \<longleftrightarrow> r < 0 \<or> e = KVM_EXIT_SHUTDOWN"
  by (simp add: stops_def)

lemma run_loop_spec:
  "run_loop ret exits = (if \<exists>x\<in>set exits. stops x then Some ret else None, printed exits)"
proof (induction exits)
  case Nil
  then show ?case by (simp add: printed_def)
next
  case (Cons x exits)
  obtain r e v where "x = (r, e, v)" by (cases x)
  with Cons show ?case by (cases e) (auto simp: stops_simp printed_def)
qed

section \<open>Properties\<close>

text \<open>
  The guest's memory starts with exactly the bytes read from the image, up to the first \<open>read\<close> that returns 0 or an
  error, and is zero behind them, as long as they fit the gigabyte; a longer image is copied past the end of the mapping.
  A read error is taken for the end of the image: \<open>vm_setup\<close> succeeds with what came before it.
\<close>

theorem vm_setup_loads_image:
  assumes "\<forall>(r, bs)\<in>set reads. length bs = nat r" and "run_state (vm_setup reads) s = (E_OK, t)"
  shows "(case kv_mem t of
      None \<Rightarrow> guest_mem_size < length (image_of reads)
    | Some m \<Rightarrow> length (image_of reads) \<le> guest_mem_size \<and>
        (\<forall>x. m x = (if x < length (image_of reads) then image_of reads ! x else 0)))"
proof -
  have t: "kv_mem t = cp_guest_img reads 0 (\<lambda>x. 0)"
    using assms(2) by (auto simp: kvm_defs split: if_splits)
  show ?thesis
  proof (cases "length (image_of reads) \<le> guest_mem_size")
    case True
    then show ?thesis using t cp_guest_img_exact [OF assms(1), of 0 "\<lambda>x. 0"] by (simp add: store_chunk_def)
  next
    case False
    then show ?thesis using t cp_guest_img_overrun [OF assms(1), of 0 "\<lambda>x. 0"] by simp
  qed
qed

definition kvm_example :: kvm_state where
  "kvm_example = \<lparr>kres = (\<lambda>n c. case c of Get r as \<Rightarrow> 3 | _ \<Rightarrow> 0), kout = (\<lambda>n c. 0), ktrace = [],
     kv_mem = None, kv_vcpu = \<lparr>rip = 0xFFF0, rflags = 2, cs_base = 0xFFFF0000\<rparr>, kv_out = []\<rparr>"

theorem vm_setup_loads_image_witness:
  "\<exists>t m. run_state (vm_setup [(2, [0xB8, 0]), (- 5, [])]) kvm_example = (E_OK, t) \<and> kv_mem t = Some m \<and>
     m 0 = 0xB8 \<and> m 7 = 0"
proof -
  let ?reads = "[(2, [0xB8, 0]), (- 5, [])] :: (int \<times> byte list) list"
  obtain t where t: "run_state (vm_setup ?reads) kvm_example = (E_OK, t)"
    by (simp add: kvm_defs kvm_example_def)
  have i: "image_of ?reads = [0xB8, 0]" by (simp add: image_of_def)
  have "\<forall>(r, bs)\<in>set ?reads. length bs = nat r" by simp
  from vm_setup_loads_image [OF this t] i t show ?thesis
    by (auto simp: guest_mem_size_def split: option.splits)
qed



end
