(* ===== verification/Guest.thy ===== *)
theory Guest
  imports Host_Kvm
begin

text \<open>
  The guest of \<open>kvm/host-kvm-example/guest.S\<close>, four instructions of 16-bit code, and what the host program prints when
  it runs it. The processor executes the instructions of the source, not their bytes. A \<open>KVM_RUN\<close> of the host executes
  instructions until one writes to a port; \<open>None\<close> says that the given number of instructions was not enough.
\<close>

section \<open>The program\<close>

text \<open>In the operand order of the assembler, \<open>mov %ax, 0\<close> stores the register at address 0.\<close>

datatype ginstr = Mov_ax_to nat | Out_ax u8 | Inc_ax | Jmp nat

definition guest_code :: "ginstr list" where
  "guest_code = [Mov_ax_to 0, Out_ax 0x10, Inc_ax, Jmp 1]"

record guest =
  g_pc :: nat
  g_ax :: u16
  g_mem :: guest_mem

text \<open>One instruction, and the value it writes to a port.\<close>

fun guest_instr :: "ginstr \<Rightarrow> guest \<Rightarrow> guest \<times> u16 option" where
  "guest_instr (Mov_ax_to a) g =
     (g\<lparr>g_pc := g_pc g + 1, g_mem := store_chunk a [ucast (g_ax g), ucast (drop_bit 8 (g_ax g))] (g_mem g)\<rparr>, None)"
| "guest_instr (Out_ax port) g = (g\<lparr>g_pc := g_pc g + 1\<rparr>, Some (g_ax g))"
| "guest_instr Inc_ax g = (g\<lparr>g_pc := g_pc g + 1, g_ax := g_ax g + 1\<rparr>, None)"
| "guest_instr (Jmp n) g = (g\<lparr>g_pc := n\<rparr>, None)"

fun kvm_run :: "nat \<Rightarrow> guest \<Rightarrow> (u16 \<times> guest) option" where
  "kvm_run 0 g = None"
| "kvm_run (Suc n) g =
     (case guest_instr (guest_code ! g_pc g) g of
        (g', Some v) \<Rightarrow> Some (v, g')
      | (g', None) \<Rightarrow> kvm_run n g')"

text \<open>The first exits of the guest, as the host sees them: the 16 bits written to the port, in zeroed memory.\<close>

fun guest_exits :: "nat \<Rightarrow> guest \<Rightarrow> (int \<times> kvm_exit \<times> u32) list" where
  "guest_exits 0 g = []"
| "guest_exits (Suc n) g =
     (case kvm_run 4 g of None \<Rightarrow> [] | Some (v, g') \<Rightarrow> (0, KVM_EXIT_IO, ucast v) # guest_exits n g')"

definition guest_start :: "u16 \<Rightarrow> guest_mem \<Rightarrow> guest" where
  "guest_start ax m = \<lparr>g_pc = 0, g_ax = ax, g_mem = m\<rparr>"

section \<open>Its run\<close>

lemma guest_loop:
  "kvm_run 4 \<lparr>g_pc = 2, g_ax = a, g_mem = m\<rparr> = Some (a + 1, \<lparr>g_pc = 2, g_ax = a + 1, g_mem = m\<rparr>)"
  by (simp add: eval_nat_numeral guest_code_def)

lemma guest_first:
  "kvm_run 4 (guest_start a m) = Some (a, \<lparr>g_pc = 2, g_ax = a,
     g_mem = store_chunk 0 [ucast a, ucast (drop_bit 8 a)] m\<rparr>)"
  by (simp add: eval_nat_numeral guest_code_def guest_start_def)

lemma guest_exits_loop:
  "guest_exits n \<lparr>g_pc = 2, g_ax = a, g_mem = m\<rparr> = map (\<lambda>i. (0, KVM_EXIT_IO, ucast (a + of_nat (Suc i)))) [0..<n]"
  by (induction n arbitrary: a) (simp_all add: guest_loop map_upt_Suc add.assoc del: upt_Suc)

lemma guest_exits_start:
  "guest_exits n (guest_start a m) = map (\<lambda>i. (0, KVM_EXIT_IO, ucast (a + of_nat i))) [0..<n]"
  by (cases n) (simp_all add: guest_first guest_exits_loop map_upt_Suc del: upt_Suc)

text \<open>The low bits of the counter.\<close>

lemma counter_value: "uint (ucast (of_nat i :: u16) :: u32) = int i mod 2 ^ 16"
  by (simp add: uint_up_ucast is_up_def source_size_def target_size_def word_size uint_word_of_int unsigned_of_nat
      take_bit_eq_mod of_nat_mod)


end
