(* ===== verification/Spec2Isabelle.thy ===== *)
theory Spec2Isabelle
  imports Kernelnewbies Mcdevdrvs Chardrvs_Conc Fifo_Conc Pltdevs_Load Pltdrv_Attr Pltdrv_Attr_Dt Plt_Same Plt_Files
    Jiq Proc_Files Virtbus Gpio_Pulse Ds1307 Virt_Tty Usb_Serial Pci_Drv Bindings Ramdisk Host_Kvm Guest
begin

text \<open>
  A verification library for the C code of this repository: the Linux drivers under
  \<open>src/linux-device-drivers\<close>, one directory per driver, and the KVM host program under \<open>src/kvm\<close>. Paths below are
  relative to \<open>src/linux-device-drivers\<close> unless they start with \<open>kvm\<close>.

  \<^bold>\<open>How the code is modelled.\<close> Nothing of the kernel is defined. A function that calls the kernel is a program of the
  state monad over a world (\<open>Kernel_World\<close>): a call is \<open>Get r\<close> (it acquires the resource \<open>r\<close> when it succeeds), \<open>Put r\<close>
  (it releases \<open>r\<close>) or \<open>Do f\<close>, and the world answers the \<open>n\<close>-th call of a run by an arbitrary function and logs it. A
  theorem over a world thus holds for every behaviour of the kernel, every combination of failures included.
  The ledger reads a log: it lists what is held after it, or is \<open>None\<close> once something was released that was
  not held, or acquired twice; a convention says which answers of a call mean success and which releases tolerate an
  absent object, as the kernel documents them. The error labels of an init or probe function are definitions
  of their own, each calling the next, as the C labels fall through. A
  system call that may sleep yields an \<open>outcome\<close>; a fault (a null dereference, an access outside an object) is
  \<open>None\<close>, or the logged call \<open>oops\<close>. Integers have the width they have on a 64-bit machine: words where they wrap
  (\<open>jiffies\<close>, FIFO counters, register values, request positions), \<open>int\<close> where the code's
  values cannot leave the range, with \<open>to_s32\<close> where a \<open>long\<close> is cut to an \<open>int\<close>. Printing to the kernel log is left out;
  text returned to user space is kept (\<open>dec\<close> is \<open>sprintf\<close>'s \<open>%d\<close>). The byte counts of reads and writes are below
  \<open>2 ^ 31\<close>, as the kernel's limit on a transfer ensures.

  \<^bold>\<open>Theories.\<close>

  \<^item> \<open>Kernel_Prelude\<close>: types, error numbers, error pointers, buffers, decimal output. \<open>Kernel_World\<close>: worlds, programs,
    the ledger, and the resources of character devices. \<open>User_Memory\<close>: bytes of words, \<open>__get_user\<close>,
    \<open>__put_user\<close>, and \<open>ioctl\<close> numbers.

  \<^item> \<open>Kfifo\<close>: the interface \<open>kfifo_contract\<close> of the kernel's byte FIFO, which six drivers call, and the
    interface \<open>byte_pipe\<close> that a driver over a FIFO offers to its callers. \<open>Kfifo_Ring\<close>: a ring that keeps the first
    contract, on which the witnesses run.

  \<^item> \<open>Kernelnewbies\<close> (\<open>01.kernelnewbies/kernelnewbies.c\<close>) and \<open>Mcdevdrvs\<close> (\<open>03.mcdevdrvs/mcdevdrvs.c\<close>): character
    devices with one FIFO and with two. The drivers are sublocales of \<open>kfifo_contract\<close>, so the pipe lemmas are proved once.
    Shown: refinement of a bounded pipe (of two independent ones), the ledger of init and exit, and the error paths
    that return success or release too much.

  \<^item> \<open>Pipe_Threads\<close>: threads that call a device with a writers' and a readers' mutex; the locale \<open>two_mutex_device\<close> has the
    laws of its accesses, and in it, for any schedule: the sections exclude, the transfers are those of one bounded pipe in the order of
    the unlocks, every call returns within three rounds of scheduling per thread, and a call made alone is the sequential one. \<open>Fifo_Conc\<close> gives
    the locale the drivers 01, 03, 07, 08 and 12.

  \<^item> \<open>Chardrvs\<close>, \<open>Chardrvs_Props\<close>, \<open>Chardrvs_Conc\<close> (\<open>02.chardrvs/chardrvs.c\<close>, \<open>chardrvs.h\<close>, \<open>app-test.c\<close>): the
    character device with a sleeping write, a limit on its users, \<open>ioctl\<close>, \<open>poll\<close>, \<open>/proc\<close> and debugfs files. \<open>Chardrvs_Conc\<close> runs any
    number of threads step by step under any schedule, with an invariant proved by induction over the runs: critical
    sections exclude, and no byte is lost, duplicated or reordered. It also shows the schedules on which a wake-up is lost or a check is stale.

  \<^item> \<open>Plt_Fifo\<close>: what the platform drivers share, and the locale \<open>platform_driver\<close>: the contract between a
    driver and the driver core, whose sessions probe unbound and remove bound devices. \<open>Pltdrv\<close> (\<open>07.pltdrv\<close>) and \<open>Pltdrv_Attr\<close>
    (\<open>08.pltdrv_attr\<close>) are interpretations of it; \<open>Pltdrv_Attr_Dt\<close> (\<open>12.pltdrv_attr_dt\<close>) is one only for devices without
    a device-tree node (\<open>Plt_Same\<close>), since it can number two matched devices alike, which is proved. \<open>Pltdevs_Load\<close> (\<open>06.pltdevs_load\<close>) registers the two devices they bind.

  \<^item> \<open>Sysfs\<close>: the tables \<open>DEVICE_ATTR\<close> builds, the access to attribute files, and the locale \<open>attribute_group\<close>: what the
    show and store functions keep of the device, every session of accesses keeps. 08, 12, 14 and 20 are its interpretations.

  \<^item> \<open>Plt_Same\<close>: the drivers of 08 and 12 agree on devices without a node, and what follows for 12; the types of the attributes'
    values. \<open>Plt_Files\<close>: the \<open>file_operations\<close> of 07, 08 and 12 and sessions of open files on any number of devices.
    \<open>Bindings\<close>: driver names, match tables and class names of 06, 07, 08, 12, 14, and the tables of 17, 18 and 20: which driver
    gets which device after any loads and unloads.

  \<^item> \<open>Jit\<close> (\<open>04.time/jit.c\<close>) and \<open>Jiq\<close> (\<open>05.workqueues/jiq.c\<close>): delays, timers, tasklets and work queues behind
    \<open>/proc\<close> files; what the kernel runs while a reader sleeps is a list of firings. Shown: which reads end, what they print, how much
    of the page they use, and what a signal leaves behind. \<open>Proc_Files\<close>: the open functions and tables of these files and of those
    of \<open>chardrvs\<close>, the directory in which 04 and 05 meet, and the release of what an open allocates.

  \<^item> \<open>Virtbus\<close> (\<open>09.virtbus/virtbus.c\<close>, \<open>10.virtbusdevs_load/virtbusdevs_load.c\<close>): the bus, its match function and its devices.

  \<^item> \<open>Gpio_Pulse\<close> (\<open>14.gpio_pulse/pltdrv_gpiopulse.c\<close>): probe against the ledger, and the pulse timer under any
    sequence of expiries and attribute writes.

  \<^item> \<open>Ds1307\<close> (\<open>15.ds1307_smbus_drv/ds1307_rtc.c\<close>): the round trip of the time through the chip's registers.

  \<^item> \<open>Virt_Tty\<close> (\<open>16.virt_tty/virt_tty.c\<close>): the terminal, with its timer callback in two steps; an inductive
    step relation covers all interleavings of callback, open, close, write and unload.

  \<^item> \<open>Usb_Serial\<close> (\<open>17.dummy-usb-ttl-drv\<close>, \<open>18.usb-ttl-cp2102\<close>): the requests sent to the chip and the modem lines.

  \<^item> \<open>Pci_Emu\<close> (\<open>19.Qemu-pci-dev-creation/pci_dev_emu.c\<close>) and \<open>Pci_Drv\<close> (\<open>20.pci-driver/pci_drv.c\<close>): the emulated device
    keeps the contract \<open>two_bars\<close>, on which the driver's attributes rest.

  \<^item> \<open>Ramdisk\<close> (\<open>21.ramdisk_blkdev/ramdisk_blk.c\<close>): the transfer of block requests and the life of the disk.

  \<^item> \<open>Host_Kvm\<close> (\<open>kvm/host-kvm-example/host_kvm_simple.c\<close>): loading the guest image, setting up the machine, running it.
    \<open>Guest\<close> (\<open>kvm/host-kvm-example/guest.S\<close>): the program of the image, whose exits drive the host's loop.

  \<^bold>\<open>How the parts interact.\<close> The drivers are separate modules. They meet at the kernel's interfaces: the
  FIFO (01, 02, 03, 07, 08, 12), the platform bus (06 registers what 07, 08 or 12 binds, and only one of these three can be
  loaded: \<open>Bindings\<close>), the virtual bus (09 and 10), the emulated device and its driver (19 and 20), \<open>/proc\<close>,
  where 04 and 05 use one name twice (\<open>Proc_Files\<close>), and the guest with its host (\<open>Guest\<close>). Threads and open files meet in the drivers:
  \<open>Fifo_Conc\<close> and \<open>Chardrvs_Conc\<close> interleave the calls, \<open>Plt_Files\<close> routes them to devices.

  \<^bold>\<open>Bounds and fuel.\<close> No function of the model runs on fuel. Loops over data are structural recursions. The
  loop of \<open>virttty_exit\<close> is a \<open>partial_function\<close>, proved to return. Waiting loops consume a list of clock readings,
  firings or guest exits, and their result says when the list is used up; the properties state how long a list is
  enough (five firings for \<open>jit\<close>, 3970 runs for \<open>jiq\<close>, since every print adds at least one byte towards the limit of
  3968; 15 runs for readers, since the code adds the whole size after each line; one reading past the deadline for the busy delays).
  A schedule of three rounds per thread is enough for all calls on a FIFO to return. The guest's program runs instruction
  by instruction, as many as the list of exits the host handles needs.

  \<^bold>\<open>What is not modelled.\<close> Messages to the kernel log and callbacks that do nothing else; the tables that only name
  functions the model has under the same names (the \<open>file_operations\<close> of 01, 02 and 03, the tty, \<open>serial\<close>, RTC and block
  operations); the restart of a \<open>seq_file\<close> with a larger buffer and the division of its text among reads. Concurrency is
  modelled where the code has locks or callbacks of its own at stake (01, 02, 03, 07, 08, 12 and 16); elsewhere calls are
  taken one at a time. In the FIFO drivers the transfer between lock and unlock is one step, as the documentation of the kernel's FIFO allows for
  one reader and one writer. Makefiles, device trees, boot files, slides and videos hold no program logic of their own; the values
  of the device tree are answers of the kernel.
\<close>

end
